(* ===== verification/Zen_Prelude.thy ===== *)
theory Zen_Prelude
  imports Main "HOL-Library.Finite_Map" "HOL-Library.Word"
begin

text \<open>
  Prelude of the Zen pool development: the result type shared by every modelled
  operation, the collections of rules the component theories feed, and the
  generic facts on lists and finite maps they share.
\<close>

section \<open>Results of Go functions\<close>

text \<open>
  A Go function that returns \<open>(value, error)\<close> either returns a value with a nil
  error, returns an error, or panics (a nil pointer dereference in this code). The
  panic is a value of its own, because \<open>zen_plugin_call\<close> recovers it.
\<close>

datatype ('e, 'a) outcome = Ok 'a | Fail 'e | Panic

fun is_Ok :: "('e, 'a) outcome \<Rightarrow> bool" where
  "is_Ok (Ok _) = True"
| "is_Ok _ = False"

fun is_Panic :: "('e, 'a) outcome \<Rightarrow> bool" where
  "is_Panic Panic = True"
| "is_Panic _ = False"

lemma is_Ok_iff: "is_Ok r \<longleftrightarrow> (\<exists>a. r = Ok a)"
  by (cases r) auto

lemma is_Panic_iff [simp]: "is_Panic r \<longleftrightarrow> r = Panic"
  by (cases r) auto

section \<open>Collections of rules\<close>

named_theorems handler_defs
  "the handlers behind the methods of the plugin, unfolded together"
named_theorems handler_serves
  "a handler acts on the pool by events of its state machine and answers"
named_theorems answer_rules
  "what the plugin sends is an envelope that can be read"

section \<open>Finite maps\<close>

lemma fmfilter_lookup_SomeD:
  "fmlookup (fmfilter P m) k = Some v \<Longrightarrow> P k \<and> fmlookup m k = Some v"
  by (simp split: if_splits)

lemma fmlookup_fmupd_neq: "k \<noteq> k' \<Longrightarrow> fmlookup (fmupd k v m) k' = fmlookup m k'"
  by simp

section \<open>Lists\<close>

lemma find_map_eq: "find P (map f xs) = map_option f (find (P \<circ> f) xs)"
  by (induction xs) auto

lemma find_SomeD: "find P xs = Some x \<Longrightarrow> x \<in> set xs \<and> P x"
  by (induction xs) (auto split: if_splits)

lemma find_eq_None: "find P xs = None \<longleftrightarrow> (\<forall>x\<in>set xs. \<not> P x)"
  by (induction xs) auto

lemma find_cong_set: "(\<And>x. x \<in> set xs \<Longrightarrow> P x = Q x) \<Longrightarrow> find P xs = find Q xs"
  by (induction xs) auto

lemma set_rotate_eq: "set (rotate n xs) = set xs"
  by simp

end
