(* ===== verification/Go_Strings.thy ===== *)
theory Go_Strings
  imports Zen_Prelude
begin

text \<open>
  The functions of Go's package \<open>strings\<close> that the plugin calls, on Go strings: a
  Go string is a sequence of bytes, as an Isabelle \<open>string\<close> is (a \<open>char\<close> is eight
  bits). Source literals are ASCII. Text that is not ASCII is UTF-8.
\<close>

section \<open>ASCII\<close>

definition ascii_char :: "char \<Rightarrow> bool" where
  "ascii_char c \<longleftrightarrow> (of_char c :: int) < 128"

definition ascii :: "string \<Rightarrow> bool" where
  "ascii s \<longleftrightarrow> list_all ascii_char s"

definition is_digit :: "char \<Rightarrow> bool" where
  "is_digit c \<longleftrightarrow> 48 \<le> (of_char c :: int) \<and> (of_char c :: int) \<le> 57"

definition digit_val :: "char \<Rightarrow> int" where
  "digit_val c = of_char c - 48"

definition is_upper :: "char \<Rightarrow> bool" where
  "is_upper c \<longleftrightarrow> 65 \<le> (of_char c :: int) \<and> (of_char c :: int) \<le> 90"

definition is_lower :: "char \<Rightarrow> bool" where
  "is_lower c \<longleftrightarrow> 97 \<le> (of_char c :: int) \<and> (of_char c :: int) \<le> 122"

definition lower_char :: "char \<Rightarrow> char" where
  "lower_char c = (if is_upper c then char_of ((of_char c :: int) + 32) else c)"

section \<open>strings.TrimSpace\<close>

text \<open>
  \<open>unicode.IsSpace\<close> holds of the code points with the property \<open>White_Space\<close>; these are
  their UTF-8 encodings. A sequence of the list never starts inside another one
  (continuation bytes are not first bytes), so cutting them from either end, one at a
  time, is what \<open>TrimSpace\<close> does with runes.
\<close>

definition space_seqs :: "string list" where
  "space_seqs =
     [[CHR 0x09], [CHR 0x0A], [CHR 0x0B], [CHR 0x0C], [CHR 0x0D], [CHR 0x20],
      [CHR 0xC2, CHR 0x85], [CHR 0xC2, CHR 0xA0], [CHR 0xE1, CHR 0x9A, CHR 0x80],
      [CHR 0xE2, CHR 0x80, CHR 0x80], [CHR 0xE2, CHR 0x80, CHR 0x81],
      [CHR 0xE2, CHR 0x80, CHR 0x82], [CHR 0xE2, CHR 0x80, CHR 0x83],
      [CHR 0xE2, CHR 0x80, CHR 0x84], [CHR 0xE2, CHR 0x80, CHR 0x85],
      [CHR 0xE2, CHR 0x80, CHR 0x86], [CHR 0xE2, CHR 0x80, CHR 0x87],
      [CHR 0xE2, CHR 0x80, CHR 0x88], [CHR 0xE2, CHR 0x80, CHR 0x89],
      [CHR 0xE2, CHR 0x80, CHR 0x8A], [CHR 0xE2, CHR 0x80, CHR 0xA8],
      [CHR 0xE2, CHR 0x80, CHR 0xA9], [CHR 0xE2, CHR 0x80, CHR 0xAF],
      [CHR 0xE2, CHR 0x81, CHR 0x9F], [CHR 0xE3, CHR 0x80, CHR 0x80]]"

fun strip_prefix :: "string \<Rightarrow> string \<Rightarrow> string option" where
  "strip_prefix [] s = Some s"
| "strip_prefix (_ # _) [] = None"
| "strip_prefix (p # ps) (c # cs) = (if p = c then strip_prefix ps cs else None)"

fun strip_any :: "string list \<Rightarrow> string \<Rightarrow> string option" where
  "strip_any [] s = None"
| "strip_any (p # ps) s =
     (case strip_prefix p s of Some t \<Rightarrow> Some t | None \<Rightarrow> strip_any ps s)"

text \<open>The loop is bounded by the length of the string, since a cut removes a byte at least.\<close>

fun trim_seqs :: "nat \<Rightarrow> string list \<Rightarrow> string \<Rightarrow> string" where
  "trim_seqs 0 ps s = s"
| "trim_seqs (Suc n) ps s =
     (case strip_any ps s of None \<Rightarrow> s | Some t \<Rightarrow> trim_seqs n ps t)"

definition TrimLeftSpace :: "string \<Rightarrow> string" where
  "TrimLeftSpace s = trim_seqs (length s) space_seqs s"

definition TrimRightSpace :: "string \<Rightarrow> string" where
  "TrimRightSpace s = rev (trim_seqs (length s) (map rev space_seqs) (rev s))"

definition TrimSpace :: "string \<Rightarrow> string" where
  "TrimSpace s = TrimRightSpace (TrimLeftSpace s)"

section \<open>Cutting, prefixes, suffixes, occurrences\<close>

definition TrimRightChar :: "char \<Rightarrow> string \<Rightarrow> string" where
  "TrimRightChar c s = rev (dropWhile (\<lambda>d. d = c) (rev s))"

definition TrimChar :: "char \<Rightarrow> string \<Rightarrow> string" where
  "TrimChar c s = TrimRightChar c (dropWhile (\<lambda>d. d = c) s)"

definition HasPrefix :: "string \<Rightarrow> string \<Rightarrow> bool" where
  "HasPrefix s p \<longleftrightarrow> strip_prefix p s \<noteq> None"

definition TrimPrefix :: "string \<Rightarrow> string \<Rightarrow> string" where
  "TrimPrefix s p = (case strip_prefix p s of Some t \<Rightarrow> t | None \<Rightarrow> s)"

definition HasSuffix :: "string \<Rightarrow> string \<Rightarrow> bool" where
  "HasSuffix s p \<longleftrightarrow> strip_prefix (rev p) (rev s) \<noteq> None"

fun Contains :: "string \<Rightarrow> string \<Rightarrow> bool" where
  "Contains [] p \<longleftrightarrow> p = []"
| "Contains (c # cs) p \<longleftrightarrow> HasPrefix (c # cs) p \<or> Contains cs p"

text \<open>\<open>LastIndex(s, c)\<close> for one ASCII character, as an option instead of \<open>-1\<close>.\<close>

fun LastIndexChar :: "char \<Rightarrow> string \<Rightarrow> nat option" where
  "LastIndexChar c [] = None"
| "LastIndexChar c (d # ds) =
     (case LastIndexChar c ds of
        Some n \<Rightarrow> Some (Suc n)
      | None \<Rightarrow> (if d = c then Some 0 else None))"

text \<open>\<open>strings.NewReplacer("-", " ", "_", " ")\<close>.\<close>

definition replace_dashes :: "string \<Rightarrow> string" where
  "replace_dashes s = map (\<lambda>c. if c = CHR ''-'' \<or> c = CHR ''_'' then CHR '' '' else c) s"

section \<open>Letter case\<close>

text \<open>
  \<open>strings.ToLower\<close> maps an ASCII string byte by byte. On other strings it maps runes
  with the tables of package \<open>unicode\<close>; that table lookup is the parameter \<open>uni\<close>.
\<close>

definition ToLower :: "(string \<Rightarrow> string) \<Rightarrow> string \<Rightarrow> string" where
  "ToLower uni s = (if ascii s then map lower_char s else uni s)"

text \<open>
  \<open>strings.EqualFold(s, t)\<close> where \<open>t\<close> is ASCII: two code points outside ASCII fold to an
  ASCII letter, U+017F (long s) and U+212A (Kelvin sign); every other non-ASCII rune
  differs from every ASCII one.
\<close>

fun fold_ascii :: "string \<Rightarrow> string" where
  "fold_ascii [] = []"
| "fold_ascii (c # cs) =
     (if c = CHR 0xC5 \<and> cs \<noteq> [] \<and> hd cs = CHR 0xBF then CHR ''s'' # fold_ascii (tl cs)
      else if c = CHR 0xE2 \<and> length cs \<ge> 2 \<and> hd cs = CHR 0x84 \<and> hd (tl cs) = CHR 0xAA
      then CHR ''k'' # fold_ascii (tl (tl cs))
      else lower_char c # fold_ascii cs)"

definition EqualFoldAscii :: "string \<Rightarrow> string \<Rightarrow> bool" where
  "EqualFoldAscii s t \<longleftrightarrow> fold_ascii s = map lower_char t"

section \<open>Facts\<close>

lemma strip_prefix_Some: "strip_prefix p s = Some t \<longleftrightarrow> s = p @ t"
  by (induction p s rule: strip_prefix.induct) auto

lemma HasPrefix_iff: "HasPrefix s p \<longleftrightarrow> (\<exists>t. s = p @ t)"
  by (auto simp: HasPrefix_def strip_prefix_Some)

lemma Contains_iff: "Contains s p \<longleftrightarrow> (\<exists>a b. s = a @ p @ b)"
proof (induction s)
  case (Cons c cs)
  have "(\<exists>a b. c # cs = a @ p @ b) \<longleftrightarrow> (\<exists>b. c # cs = p @ b) \<or> (\<exists>a b. cs = a @ p @ b)"
    by (metis append_Cons append_eq_Cons_conv self_append_conv2)
  with Cons show ?case by (simp add: HasPrefix_iff)
qed auto

lemma LastIndexChar_lt: "LastIndexChar c s = Some n \<Longrightarrow> n < length s \<and> s ! n = c"
  by (induction s arbitrary: n) (auto split: option.splits if_splits)

lemma is_upper_bounds: "is_upper c \<Longrightarrow> (of_char c :: int) + 32 < 128"
  by (simp add: is_upper_def)

lemma not_is_upper_lower_char [simp]: "\<not> is_upper (lower_char c)"
  by (auto simp: lower_char_def is_upper_def)

lemma lower_char_idem [simp]: "lower_char (lower_char c) = lower_char c"
  using not_is_upper_lower_char by (metis lower_char_def)

lemma ascii_lower: "ascii s \<Longrightarrow> ascii (map lower_char s)"
  by (auto simp: ascii_def list_all_iff ascii_char_def lower_char_def is_upper_def)

lemma ToLower_idem: "ascii s \<Longrightarrow> ToLower uni (ToLower uni s) = ToLower uni s"
  by (simp add: ToLower_def ascii_lower)

end
