(* ===== verification/Go_Json.thy ===== *)
theory Go_Json
  imports Go_Strings
begin

text \<open>
  Package \<open>encoding/json\<close>, the reading half: the value a text denotes when it is
  decoded into an \<open>any\<close> with \<open>UseNumber\<close> (a number stays the text it was written as).
  Strings come out as Go has them: escapes resolved, unpaired surrogates and bytes that
  are not UTF-8 replaced by U+FFFD.
\<close>

datatype json =
    JNull
  | JBool bool
  | JNum string
  | JStr string string          \<comment> \<open>the text between the quotes, and what it denotes\<close>
  | JArr "json list"
  | JObj "(string \<times> json) list"    \<comment> \<open>members in the order of the text\<close>

section \<open>UTF-8\<close>

definition byte :: "char \<Rightarrow> int" where
  "byte c = of_char c"

definition cont_byte :: "char \<Rightarrow> bool" where
  "cont_byte c \<longleftrightarrow> 128 \<le> byte c \<and> byte c \<le> 191"

text \<open>The length of the valid encoding at the front, if there is one.\<close>

fun utf8_width :: "string \<Rightarrow> nat option" where
  "utf8_width [] = None"
| "utf8_width (a # s) =
     (let n = byte a
      in if n < 128 then Some 1
         else if n < 194 then None
         else case s of [] \<Rightarrow> None | b # s2 \<Rightarrow>
           if n < 224 then (if cont_byte b then Some 2 else None)
           else case s2 of [] \<Rightarrow> None | c # s3 \<Rightarrow>
             if n < 240 then
               (if cont_byte b \<and> cont_byte c \<and> (n = 224 \<longrightarrow> 160 \<le> byte b)
                   \<and> (n = 237 \<longrightarrow> byte b < 160) then Some 3 else None)
             else case s3 of [] \<Rightarrow> None | d # _ \<Rightarrow>
               if n < 245 \<and> cont_byte b \<and> cont_byte c \<and> cont_byte d
                  \<and> (n = 240 \<longrightarrow> 144 \<le> byte b) \<and> (n = 244 \<longrightarrow> byte b < 144)
               then Some 4 else None)"

definition utf8_encode :: "int \<Rightarrow> string" where
  "utf8_encode r =
     (if r < 128 then [char_of r]
      else if r < 2048 then [char_of (192 + r div 64), char_of (128 + r mod 64)]
      else if r < 65536 then
        [char_of (224 + r div 4096), char_of (128 + r div 64 mod 64), char_of (128 + r mod 64)]
      else [char_of (240 + r div 262144), char_of (128 + r div 4096 mod 64),
            char_of (128 + r div 64 mod 64), char_of (128 + r mod 64)])"

definition replacement_char :: string where
  "replacement_char = [CHR 0xEF, CHR 0xBF, CHR 0xBD]"

section \<open>Tokens\<close>

definition json_space :: "char \<Rightarrow> bool" where
  "json_space c \<longleftrightarrow> c = CHR '' '' \<or> c = CHR 0x09 \<or> c = CHR 0x0A \<or> c = CHR 0x0D"

definition skip_space :: "string \<Rightarrow> string" where
  "skip_space s = dropWhile json_space s"

definition hex_digit :: "char \<Rightarrow> int option" where
  "hex_digit c =
     (let n = byte (lower_char c)
      in if is_digit c then Some (digit_val c)
         else if 97 \<le> n \<and> n \<le> 102 then Some (n - 87) else None)"

fun hex4 :: "string \<Rightarrow> (int \<times> string) option" where
  "hex4 (a # b # c # d # s) =
     (case (hex_digit a, hex_digit b, hex_digit c, hex_digit d) of
        (Some w, Some x, Some y, Some z) \<Rightarrow> Some (((w * 16 + x) * 16 + y) * 16 + z, s)
      | _ \<Rightarrow> None)"
| "hex4 _ = None"

definition simple_escape :: "char \<Rightarrow> char option" where
  "simple_escape c =
     (if c = CHR 0x22 \<or> c = CHR 0x5C \<or> c = CHR ''/'' then Some c
      else if c = CHR ''b'' then Some (CHR 0x08)
      else if c = CHR ''f'' then Some (CHR 0x0C)
      else if c = CHR ''n'' then Some (CHR 0x0A)
      else if c = CHR ''r'' then Some (CHR 0x0D)
      else if c = CHR ''t'' then Some (CHR 0x09)
      else None)"

text \<open>
  What a \<open>\u\<close> escape stands for, given the text after its four digits: a surrogate pair
  takes the next escape with it.
\<close>

definition unicode_escape :: "int \<Rightarrow> string \<Rightarrow> string \<times> string" where
  "unicode_escape r rest =
     (if r < 0xD800 \<or> 0xDFFF < r then (utf8_encode r, rest)
      else case rest of
        b # u # rest' \<Rightarrow>
          (if b = CHR 0x5C \<and> u = CHR ''u'' then
             case hex4 rest' of
               Some (r2, rest2) \<Rightarrow>
                 if r < 0xDC00 \<and> 0xDC00 \<le> r2 \<and> r2 \<le> 0xDFFF
                 then (utf8_encode ((r - 0xD800) * 1024 + (r2 - 0xDC00) + 0x10000), rest2)
                 else (replacement_char, rest)
             | None \<Rightarrow> (replacement_char, rest)
           else (replacement_char, rest))
      | _ \<Rightarrow> (replacement_char, rest))"

definition prepend :: "string \<Rightarrow> (string \<times> string) option \<Rightarrow> (string \<times> string) option" where
  "prepend p r = map_option (\<lambda>(s, t). (p @ s, t)) r"

text \<open>The string after its opening quote; the first argument bounds the number of steps.\<close>

fun json_string :: "nat \<Rightarrow> string \<Rightarrow> (string \<times> string) option" where
  "json_string 0 s = None"
| "json_string (Suc n) [] = None"
| "json_string (Suc n) (c # cs) =
     (if c = CHR 0x22 then Some ([], cs)
      else if c = CHR 0x5C then
        (case cs of [] \<Rightarrow> None
         | e # es \<Rightarrow>
             (case simple_escape e of
                Some d \<Rightarrow> prepend [d] (json_string n es)
              | None \<Rightarrow>
                  if e = CHR ''u'' then
                    (case hex4 es of None \<Rightarrow> None
                     | Some (r, rest) \<Rightarrow>
                         let (t, rest') = unicode_escape r rest
                         in prepend t (json_string n rest'))
                  else None))
      else if byte c < 32 then None
      else case utf8_width (c # cs) of
             None \<Rightarrow> prepend replacement_char (json_string n cs)
           | Some w \<Rightarrow> prepend (take w (c # cs)) (json_string n (drop w (c # cs))))"

text \<open>A number, as its text: sign, integer part without a leading zero, fraction, exponent.\<close>

definition json_int :: "string \<Rightarrow> (string \<times> string) option" where
  "json_int s =
     (case s of [] \<Rightarrow> None
      | c # cs \<Rightarrow> if c = CHR ''0'' then Some ([c], cs)
                 else if is_digit c then Some (takeWhile is_digit s, dropWhile is_digit s)
                 else None)"

definition json_frac :: "string \<Rightarrow> (string \<times> string) option" where
  "json_frac s =
     (case s of [] \<Rightarrow> Some ([], [])
      | c # cs \<Rightarrow> if c = CHR ''.''
                 then (if cs = [] \<or> \<not> is_digit (hd cs) then None
                       else Some (c # takeWhile is_digit cs, dropWhile is_digit cs))
                 else Some ([], s))"

definition json_exp :: "string \<Rightarrow> (string \<times> string) option" where
  "json_exp s =
     (case s of [] \<Rightarrow> Some ([], [])
      | c # cs \<Rightarrow>
          if c = CHR ''e'' \<or> c = CHR ''E'' then
            let (sg, ds) = (if cs \<noteq> [] \<and> (hd cs = CHR ''+'' \<or> hd cs = CHR ''-'')
                            then ([hd cs], tl cs) else ([], cs))
            in if ds = [] \<or> \<not> is_digit (hd ds) then None
               else Some (c # sg @ takeWhile is_digit ds, dropWhile is_digit ds)
          else Some ([], s))"

definition json_number :: "string \<Rightarrow> (string \<times> string) option" where
  "json_number s0 =
     (let neg = (s0 \<noteq> [] \<and> hd s0 = CHR ''-''); s = (if neg then tl s0 else s0)
      in case json_int s of None \<Rightarrow> None
       | Some (i, s1) \<Rightarrow> (case json_frac s1 of None \<Rightarrow> None
         | Some (f, s2) \<Rightarrow> (case json_exp s2 of None \<Rightarrow> None
           | Some (e, s3) \<Rightarrow> Some ((if neg then ''-'' else []) @ i @ f @ e, s3))))"

section \<open>Values\<close>

text \<open>Arrays and objects nest at most this deep.\<close>

definition max_nesting :: int where
  "max_nesting = 10000"

text \<open>
  The readers return the value and the rest of the text. \<open>depth\<close> counts the arrays and
  objects around the value. The first argument is fuel: every second call consumes a
  character, so twice the length of the text (plus one) is enough.
\<close>

fun json_value :: "nat \<Rightarrow> int \<Rightarrow> string \<Rightarrow> (json \<times> string) option"
and json_elems :: "nat \<Rightarrow> int \<Rightarrow> string \<Rightarrow> (json list \<times> string) option"
and json_members :: "nat \<Rightarrow> int \<Rightarrow> string \<Rightarrow> ((string \<times> json) list \<times> string) option"
where
  "json_value 0 depth s = None"
| "json_value (Suc n) depth s0 =
     (let s = skip_space s0
      in case s of [] \<Rightarrow> None
       | c # cs \<Rightarrow>
           if c = CHR ''{'' then
             (if max_nesting \<le> depth then None
              else case skip_space cs of [] \<Rightarrow> None
                | d # ds \<Rightarrow> if d = CHR ''}'' then Some (JObj [], ds)
                           else map_option (\<lambda>(m, r). (JObj m, r)) (json_members n (depth + 1) cs))
           else if c = CHR ''['' then
             (if max_nesting \<le> depth then None
              else case skip_space cs of [] \<Rightarrow> None
                | d # ds \<Rightarrow> if d = CHR '']'' then Some (JArr [], ds)
                           else map_option (\<lambda>(e, r). (JArr e, r)) (json_elems n (depth + 1) cs))
           else if c = CHR 0x22 then
             map_option (\<lambda>(t, r). (JStr (take (length cs - length r - 1) cs) t, r))
               (json_string (length cs) cs)
           else if c = CHR ''-'' \<or> is_digit c then
             map_option (\<lambda>(t, r). (JNum t, r)) (json_number s)
           else case strip_prefix ''null'' s of Some r \<Rightarrow> Some (JNull, r)
             | None \<Rightarrow> (case strip_prefix ''true'' s of Some r \<Rightarrow> Some (JBool True, r)
               | None \<Rightarrow> (case strip_prefix ''false'' s of Some r \<Rightarrow> Some (JBool False, r)
                 | None \<Rightarrow> None)))"
| "json_elems 0 depth s = None"
| "json_elems (Suc n) depth s =
     (case json_value n depth s of None \<Rightarrow> None
      | Some (v, r) \<Rightarrow>
          (case skip_space r of [] \<Rightarrow> None
           | c # cs \<Rightarrow>
               if c = CHR '','' then map_option (\<lambda>(vs, t). (v # vs, t)) (json_elems n depth cs)
               else if c = CHR '']'' then Some ([v], cs) else None))"
| "json_members 0 depth s = None"
| "json_members (Suc n) depth s =
     (case skip_space s of [] \<Rightarrow> None
      | q # qs \<Rightarrow>
          if q \<noteq> CHR 0x22 then None
          else case json_string (length qs) qs of None \<Rightarrow> None
           | Some (k, r) \<Rightarrow>
              (case skip_space r of [] \<Rightarrow> None
               | c # cs \<Rightarrow>
                  if c \<noteq> CHR '':'' then None
                  else case json_value n depth cs of None \<Rightarrow> None
                   | Some (v, r2) \<Rightarrow>
                      (case skip_space r2 of [] \<Rightarrow> None
                       | d # ds \<Rightarrow>
                          if d = CHR '','' then
                            map_option (\<lambda>(ms, t). ((k, v) # ms, t)) (json_members n depth ds)
                          else if d = CHR ''}'' then Some ([(k, v)], ds) else None)))"

text \<open>
  \<open>Decoder.Decode\<close> reads the first value and leaves the rest alone; \<open>Unmarshal\<close> wants
  the whole text to be one value.
\<close>

definition json_decode_first :: "string \<Rightarrow> (json \<times> string) option" where
  "json_decode_first s = json_value (2 * length s + 1) 0 s"

definition json_unmarshal :: "string \<Rightarrow> json option" where
  "json_unmarshal s =
     (case json_decode_first s of
        Some (v, r) \<Rightarrow> if skip_space r = [] then Some v else None
      | None \<Rightarrow> None)"

text \<open>An object's members as the Go map they are decoded into: the last duplicate wins.\<close>

definition json_lookup :: "(string \<times> json) list \<Rightarrow> string \<Rightarrow> json option" where
  "json_lookup m k = map_of (rev m) k"

lemma json_lookup_Nil [simp]: "json_lookup [] k = None"
  by (simp add: json_lookup_def)

end
