(* ===== verification/Go_Regexp.thy ===== *)
theory Go_Regexp
  imports Go_Strings
begin

text \<open>
  Package \<open>regexp\<close>, for patterns over ASCII: a backtracking matcher that lists the
  matches at one position in order of preference (greedy repetition, left alternative
  first), so that the first is the leftmost-first match Go reports, with the text of
  the numbered groups.
\<close>

datatype regex =
    Cls "char list"             \<comment> \<open>one character of a class\<close>
  | Eps
  | Seq regex regex
  | Alt regex regex
  | Opt regex                   \<comment> \<open>\<open>?\<close>\<close>
  | Star regex                  \<comment> \<open>\<open>*\<close>\<close>
  | Grp nat regex               \<comment> \<open>a capturing group\<close>

definition Plus :: "regex \<Rightarrow> regex" where
  "Plus r = Seq r (Star r)"

fun Lit :: "string \<Rightarrow> regex" where
  "Lit [] = Eps"
| "Lit [c] = Cls [c]"
| "Lit (c # cs) = Seq (Cls [c]) (Lit cs)"

fun Alts :: "regex list \<Rightarrow> regex" where
  "Alts [] = Cls []"
| "Alts [r] = r"
| "Alts (r # rs) = Alt r (Alts rs)"

type_synonym captures = "(nat \<times> string) list"

text \<open>
  A match is the list of groups it set and the rest of the input. The guards on the
  rest always hold; they are there for termination, and in \<open>Star\<close> also stop a
  repetition that consumes nothing.
\<close>

function rmatch :: "regex \<Rightarrow> string \<Rightarrow> (captures \<times> string) list" where
  "rmatch (Cls cs) [] = []"
| "rmatch (Cls cs) (d # ds) = (if List.member cs d then [([], ds)] else [])"
| "rmatch Eps s = [([], s)]"
| "rmatch (Seq a b) s =
     concat (map (\<lambda>(c, t). if length t \<le> length s
                           then map (\<lambda>(c', t'). (c @ c', t')) (rmatch b t) else [])
                 (rmatch a s))"
| "rmatch (Alt a b) s = rmatch a s @ rmatch b s"
| "rmatch (Opt a) s = rmatch a s @ [([], s)]"
| "rmatch (Star a) s =
     concat (map (\<lambda>(c, t). if length t < length s
                           then map (\<lambda>(c', t'). (c @ c', t')) (rmatch (Star a) t) else [])
                 (rmatch a s)) @ [([], s)]"
| "rmatch (Grp n a) s =
     map (\<lambda>(c, t). ((n, take (length s - length t) s) # c, t)) (rmatch a s)"
  by pat_completeness auto
termination
  by (relation "measures [\<lambda>(r, s). length s, \<lambda>(r, s). size r]") auto

definition group :: "nat \<Rightarrow> captures \<Rightarrow> string" where
  "group n c = (case map_of (rev c) n of Some t \<Rightarrow> t | None \<Rightarrow> [])"

text \<open>\<open>FindStringSubmatch\<close>: the leftmost position with a match.\<close>

fun find_submatch :: "regex \<Rightarrow> string \<Rightarrow> (captures \<times> string) option" where
  "find_submatch r [] = (case rmatch r [] of [] \<Rightarrow> None | m # _ \<Rightarrow> Some m)"
| "find_submatch r (c # cs) =
     (case rmatch r (c # cs) of m # _ \<Rightarrow> Some m | [] \<Rightarrow> find_submatch r cs)"

text \<open>
  \<open>FindAllStringSubmatch(s, -1)\<close>, for patterns that match no empty text: each search
  goes on where the last match ended. The first argument bounds the number of matches
  by the length of the text.
\<close>

fun find_all :: "nat \<Rightarrow> regex \<Rightarrow> string \<Rightarrow> captures list" where
  "find_all 0 r s = []"
| "find_all (Suc n) r s =
     (case find_submatch r s of None \<Rightarrow> [] | Some (c, t) \<Rightarrow> c # find_all n r t)"

definition FindAllSubmatch :: "regex \<Rightarrow> string \<Rightarrow> captures list" where
  "FindAllSubmatch r s = find_all (length s) r s"

text \<open>\<open>MatchString\<close> for a pattern anchored at both ends.\<close>

definition full_match :: "regex \<Rightarrow> string \<Rightarrow> bool" where
  "full_match r s \<longleftrightarrow> list_ex (\<lambda>(c, t). t = []) (rmatch r s)"

section \<open>Facts\<close>

declare rmatch.simps(7) [simp del]

lemma rmatch_SeqE:
  assumes "(c, t) \<in> set (rmatch (Seq a b) s)"
  obtains c1 t1 c2 where "(c1, t1) \<in> set (rmatch a s)" "length t1 \<le> length s"
    "(c2, t) \<in> set (rmatch b t1)" "c = c1 @ c2"
  using assms that by (simp split: if_splits prod.splits) (elim bexE, auto split: if_splits)

lemma rmatch_StarE:
  assumes "(c, t) \<in> set (rmatch (Star a) s)"
  obtains "c = []" "t = s"
  | c1 t1 c2 where "(c1, t1) \<in> set (rmatch a s)" "length t1 < length s"
      "(c2, t) \<in> set (rmatch (Star a) t1)" "c = c1 @ c2"
  using assms that unfolding rmatch.simps(7) [of a s]
  by (fastforce split: if_splits prod.splits)

lemma rmatch_suffix: "(c, t) \<in> set (rmatch r s) \<Longrightarrow> \<exists>p. s = p @ t"
proof (induction r s arbitrary: c t rule: rmatch.induct)
  case (4 a b s)
  from "4.prems" obtain c1 t1 c2 where *: "(c1, t1) \<in> set (rmatch a s)"
    "length t1 \<le> length s" "(c2, t) \<in> set (rmatch b t1)"
    by (rule rmatch_SeqE)
  from "4.IH"(1) [OF *(1)] obtain p where "s = p @ t1" by blast
  moreover from "4.IH"(2) [OF *(1) refl *(2,3)] obtain q where "t1 = q @ t" by blast
  ultimately show ?case by simp
next
  case (7 a s)
  from "7.prems" show ?case
  proof (cases rule: rmatch_StarE)
    case (2 c1 t1 c2)
    from "7.IH"(1) [OF 2(1)] obtain p where "s = p @ t1" by blast
    moreover from "7.IH"(2) [OF 2(1) refl 2(2,3)] obtain q where "t1 = q @ t" by blast
    ultimately show ?thesis by simp
  qed simp
qed (auto split: if_splits)

lemma rmatch_rest_le: "(c, t) \<in> set (rmatch r s) \<Longrightarrow> length t \<le> length s"
  by (auto dest: rmatch_suffix)

lemma find_submatch_suffix: "find_submatch r s = Some (c, t) \<Longrightarrow> \<exists>p. s = p @ t"
proof (induction r s rule: find_submatch.induct)
  case (1 r)
  then have "(c, t) \<in> set (rmatch r [])" by (auto split: list.splits)
  then show ?case by (rule rmatch_suffix)
next
  case (2 r d ds)
  show ?case
  proof (cases "rmatch r (d # ds)")
    case Nil
    with 2 show ?thesis by (auto intro: exI [of _ "d # _"])
  next
    case (Cons m ms)
    with "2.prems" have "(c, t) \<in> set (rmatch r (d # ds))" by simp
    then show ?thesis by (rule rmatch_suffix)
  qed
qed

end
