(* ===== verification/Go_Float.thy ===== *)
theory Go_Float
  imports Go_Strings Complex_Main "HOL-Library.Log_Nat"
begin

text \<open>
  Go's \<open>float64\<close>: IEEE 754 binary64 with rounding to nearest, ties to even. A finite
  value is the rational number it stands for (the sign of zero plays no role in the
  code: zero is only compared with zero). Also \<open>strconv.ParseFloat\<close> at 64 bits.
\<close>

section \<open>Values and rounding\<close>

datatype float64 = NaN | Inf bool | Fin rat  \<comment> \<open>\<open>Inf True\<close> is minus infinity\<close>

definition pow2 :: "int \<Rightarrow> rat" where
  "pow2 e = (if 0 \<le> e then 2 ^ nat e else 1 / 2 ^ nat (- e))"

definition round_half_even :: "rat \<Rightarrow> int" where
  "round_half_even r =
     (let f = \<lfloor>r\<rfloor>; d = r - of_int f
      in if d < 1 / 2 then f else if 1 / 2 < d then f + 1
         else if even f then f else f + 1)"

text \<open>The exponent of the leading bit of a positive rational.\<close>

definition lead_exp :: "rat \<Rightarrow> int" where
  "lead_exp r =
     (let (n, d) = quotient_of r; e = bitlen n - bitlen d
      in if pow2 e \<le> r then e else e - 1)"

definition double :: "rat \<Rightarrow> float64" where
  "double r =
     (if r = 0 then Fin 0
      else let a = \<bar>r\<bar>;
               e = max (lead_exp a - 52) (- 1074);
               v = of_int (round_half_even (a / pow2 e)) * pow2 e
           in if v \<noteq> 0 \<and> 1024 \<le> lead_exp v then Inf (r < 0)
              else Fin (if r < 0 then - v else v))"

fun float_neg :: "float64 \<Rightarrow> float64" where
  "float_neg NaN = NaN"
| "float_neg (Inf s) = Inf (\<not> s)"
| "float_neg (Fin a) = Fin (- a)"

fun float_mul :: "float64 \<Rightarrow> float64 \<Rightarrow> float64" where
  "float_mul (Fin a) (Fin b) = double (a * b)"
| "float_mul (Inf s) (Inf t) = Inf (s \<noteq> t)"
| "float_mul (Inf s) (Fin b) = (if b = 0 then NaN else Inf (s \<noteq> (b < 0)))"
| "float_mul (Fin a) (Inf t) = (if a = 0 then NaN else Inf ((a < 0) \<noteq> t))"
| "float_mul _ _ = NaN"

fun float_add :: "float64 \<Rightarrow> float64 \<Rightarrow> float64" where
  "float_add (Fin a) (Fin b) = double (a + b)"
| "float_add (Inf s) (Inf t) = (if s = t then Inf s else NaN)"
| "float_add (Inf s) (Fin b) = Inf s"
| "float_add (Fin a) (Inf t) = Inf t"
| "float_add _ _ = NaN"

text \<open>Conversion of a finite value to an integer drops the fraction.\<close>

definition trunc_rat :: "rat \<Rightarrow> int" where
  "trunc_rat r = (if r < 0 then - \<lfloor>- r\<rfloor> else \<lfloor>r\<rfloor>)"

section \<open>strconv.ParseFloat\<close>

definition hex_val :: "char \<Rightarrow> int option" where
  "hex_val c =
     (let n = of_char (lower_char c) :: int
      in if is_digit c then Some (digit_val c)
         else if 97 \<le> n \<and> n \<le> 102 then Some (n - 87) else None)"

text \<open>
  The mantissa loop: whether a point, a digit and an underscore were seen, the digits
  as a number, how many of them follow the point, and the rest of the string.
\<close>

fun scan_mantissa ::
  "bool \<Rightarrow> string \<Rightarrow> bool \<Rightarrow> bool \<Rightarrow> bool \<Rightarrow> int \<Rightarrow> nat \<Rightarrow> bool \<times> bool \<times> int \<times> nat \<times> string"
where
  "scan_mantissa hex [] dot digs und m k = (digs, und, m, k, [])"
| "scan_mantissa hex (c # cs) dot digs und m k =
     (if c = CHR ''_'' then scan_mantissa hex cs dot digs True m k
      else if c = CHR ''.'' then
        (if dot then (digs, und, m, k, c # cs) else scan_mantissa hex cs True digs und m k)
      else if is_digit c \<or> hex \<and> hex_val c \<noteq> None then
        scan_mantissa hex cs dot True und
          (m * (if hex then 16 else 10) + the (hex_val c)) (if dot then Suc k else k)
      else (digs, und, m, k, c # cs))"

fun scan_exponent :: "string \<Rightarrow> bool \<Rightarrow> int \<Rightarrow> bool \<times> int \<times> string" where
  "scan_exponent [] und e = (und, e, [])"
| "scan_exponent (c # cs) und e =
     (if c = CHR ''_'' then scan_exponent cs True e
      else if is_digit c then
        scan_exponent cs und (if e < 10000 then e * 10 + digit_val c else e)
      else (und, e, c # cs))"

text \<open>Underscores separate digits only; a base prefix counts as a digit.\<close>

fun underscores_between :: "bool \<Rightarrow> char \<Rightarrow> string \<Rightarrow> bool" where
  "underscores_between hex saw [] \<longleftrightarrow> saw \<noteq> CHR ''_''"
| "underscores_between hex saw (c # cs) \<longleftrightarrow>
     (if is_digit c \<or> hex \<and> hex_val c \<noteq> None then underscores_between hex CHR ''0'' cs
      else if c = CHR ''_'' then saw = CHR ''0'' \<and> underscores_between hex CHR ''_'' cs
      else saw \<noteq> CHR ''_'' \<and> underscores_between hex CHR ''!'' cs)"

definition strip_sign :: "string \<Rightarrow> bool \<times> string" where
  "strip_sign s = (case s of [] \<Rightarrow> (False, [])
     | c # cs \<Rightarrow> if c = CHR ''+'' then (False, cs)
                 else if c = CHR ''-'' then (True, cs) else (False, s))"

definition underscoreOK :: "string \<Rightarrow> bool" where
  "underscoreOK s0 =
     (let s = snd (strip_sign s0);
          p = map lower_char (take 2 s)
      in if p = ''0x'' then underscores_between True CHR ''0'' (drop 2 s)
         else if p = ''0b'' \<or> p = ''0o'' then underscores_between False CHR ''0'' (drop 2 s)
         else underscores_between False CHR ''^'' s)"

text \<open>
  The special spellings; only an infinity may carry a sign. The caller asks for the
  whole string, so a longer one is a syntax error.
\<close>

definition parse_special :: "string \<Rightarrow> float64 option" where
  "parse_special s =
     (let (neg, t) = strip_sign s; l = map lower_char t
      in if l = ''inf'' \<or> l = ''infinity'' then Some (Inf neg)
         else if map lower_char s = ''nan'' then Some NaN else None)"

definition parse_finite :: "string \<Rightarrow> (bool \<times> rat) option" where
  "parse_finite s =
     (let (neg, t) = strip_sign s;
          hex = (3 \<le> length t \<and> map lower_char (take 2 t) = ''0x'');
          (digs, und, m, k, r) =
            scan_mantissa hex (if hex then drop 2 t else t) False False False 0 0;
          base = (if hex then of_int m / 16 ^ k else of_int m / 10 ^ k)
      in if \<not> digs then None
         else case r of
           [] \<Rightarrow> if hex \<or> und \<and> \<not> underscoreOK s then None else Some (neg, base)
         | c # r' \<Rightarrow>
             if lower_char c \<noteq> (if hex then CHR ''p'' else CHR ''e'') then None
             else let (eneg, r'') = strip_sign r'
                  in if r'' = [] \<or> \<not> is_digit (hd r'') then None
                     else let (und', e, rest) = scan_exponent r'' und 0;
                              b = (if hex then 2 else 10)
                          in if rest \<noteq> [] \<or> und' \<and> \<not> underscoreOK s then None
                             else Some (neg, if eneg then base / b ^ nat e else base * b ^ nat e))"

text \<open>The value, and whether the error is nil. A value too large is an infinity with an error.\<close>

definition ParseFloat :: "string \<Rightarrow> float64 \<times> bool" where
  "ParseFloat s =
     (case parse_special s of
        Some x \<Rightarrow> (x, True)
      | None \<Rightarrow>
          (case parse_finite s of
             None \<Rightarrow> (Fin 0, False)
           | Some (neg, r) \<Rightarrow>
               (case double (if neg then - r else r) of
                  Inf sg \<Rightarrow> (Inf sg, False)
                | x \<Rightarrow> (x, True))))"

end
