(* ===== verification/Go_Time.thy ===== *)
theory Go_Time
  imports Go_Float
begin

text \<open>
  Package \<open>time\<close>. An instant is the number of nanoseconds since the zero
  \<open>time.Time\<close> (1 January of year 1, UTC), so \<open>IsZero\<close> is equality with 0 and \<open>Before\<close>,
  \<open>After\<close> are the order of integers. A duration is an \<open>int64\<close> of nanoseconds. The
  instants of the program stay far from the ends of the 64-bit range of seconds, so
  addition of a duration is integer addition.
\<close>

section \<open>Instants and durations\<close>

type_synonym time = int
type_synonym duration = int

definition Nanosecond :: duration where "Nanosecond = 1"
definition Microsecond :: duration where "Microsecond = 1000"
definition Millisecond :: duration where "Millisecond = 1000000"
definition Second :: duration where "Second = 1000000000"
definition Minute :: duration where "Minute = 60 * Second"
definition Hour :: duration where "Hour = 60 * Minute"

text \<open>\<open>366*24*time.Hour\<close>, the longest reset or duration the plugin accepts.\<close>

definition max_window :: duration where
  "max_window = 366 * 24 * Hour"

lemmas duration_units =
  Nanosecond_def Microsecond_def Millisecond_def Second_def Minute_def Hour_def

lemma max_window_value: "max_window = 31622400000000000"
  by (simp add: max_window_def duration_units)

lemma max_window_seconds: "max_window = 366 * 86400 * Second"
  by (simp add: max_window_def duration_units)

text \<open>\<open>time.Unix(sec, nsec)\<close>: seconds and nanoseconds since 1970.\<close>

definition unix_epoch :: int where
  "unix_epoch = 62135596800"

definition Unix :: "int \<Rightarrow> int \<Rightarrow> time" where
  "Unix sec nsec = (sec + unix_epoch) * Second + nsec"

section \<open>time.ParseDuration\<close>

text \<open>
  \<open>leadingInt\<close>: the digits at the front as an unsigned 64-bit number, with an error
  when it exceeds \<open>2^63\<close>.
\<close>

fun leadingInt :: "int \<Rightarrow> string \<Rightarrow> (int \<times> string) option" where
  "leadingInt x [] = Some (x, [])"
| "leadingInt x (c # cs) =
     (if \<not> is_digit c then Some (x, c # cs)
      else if 2 ^ 63 div 10 < x then None
      else let y = x * 10 + digit_val c
           in if 2 ^ 63 < y then None else leadingInt y cs)"

text \<open>\<open>leadingFraction\<close>: digits after the point; those that would overflow are dropped.\<close>

fun leadingFraction :: "bool \<Rightarrow> int \<Rightarrow> rat \<Rightarrow> string \<Rightarrow> int \<times> rat \<times> string" where
  "leadingFraction ovf x scale [] = (x, scale, [])"
| "leadingFraction ovf x scale (c # cs) =
     (if \<not> is_digit c then (x, scale, c # cs)
      else if ovf then leadingFraction True x scale cs
      else if (2 ^ 63 - 1) div 10 < x then leadingFraction True x scale cs
      else let y = x * 10 + digit_val c
           in if 2 ^ 63 < y then leadingFraction True x scale cs
              else leadingFraction False y (scale * 10) cs)"

definition unitMap :: "string \<Rightarrow> int option" where
  "unitMap u =
     (if u = ''ns'' then Some Nanosecond
      else if u = ''us'' \<or> u = [CHR 0xC2, CHR 0xB5, CHR ''s'']
              \<or> u = [CHR 0xCE, CHR 0xBC, CHR ''s''] then Some Microsecond
      else if u = ''ms'' then Some Millisecond
      else if u = ''s'' then Some Second
      else if u = ''m'' then Some Minute
      else if u = ''h'' then Some Hour
      else None)"

definition unit_char :: "char \<Rightarrow> bool" where
  "unit_char c \<longleftrightarrow> c \<noteq> CHR ''.'' \<and> \<not> is_digit c"

text \<open>
  The fraction's contribution, \<open>uint64(float64(f) * (float64(unit) / scale))\<close>. The
  scale is a float of which every power of ten up to \<open>10^22\<close> is exact.
\<close>

definition fraction_ns :: "int \<Rightarrow> int \<Rightarrow> rat \<Rightarrow> int" where
  "fraction_ns f unit scale =
     (case float_mul (double (of_int f)) (double (of_int unit / scale)) of
        Fin r \<Rightarrow> trunc_rat r | _ \<Rightarrow> 0)"

text \<open>One number and its unit: its nanoseconds and the rest of the string.\<close>

definition parse_part :: "string \<Rightarrow> (int \<times> string) option" where
  "parse_part s =
     (if s = [] \<or> \<not> (hd s = CHR ''.'' \<or> is_digit (hd s)) then None
      else case leadingInt 0 s of
        None \<Rightarrow> None
      | Some (v, s1) \<Rightarrow>
          (let pre = (length s1 \<noteq> length s);
               dot = (s1 \<noteq> [] \<and> hd s1 = CHR ''.'');
               (f, scale, s2) = (if dot then leadingFraction False 0 1 (tl s1) else (0, 1, s1));
               post = (dot \<and> length s2 \<noteq> length (tl s1));
               u = takeWhile unit_char s2
           in if \<not> pre \<and> \<not> post \<or> u = [] then None
              else case unitMap u of
                None \<Rightarrow> None
              | Some unit \<Rightarrow>
                  if 2 ^ 63 div unit < v then None
                  else let w = v * unit + (if 0 < f then fraction_ns f unit scale else 0)
                       in if 0 < f \<and> 2 ^ 63 < w then None
                          else Some (w, dropWhile unit_char s2)))"

fun parse_parts :: "nat \<Rightarrow> int \<Rightarrow> string \<Rightarrow> int option" where
  "parse_parts 0 d s = (if s = [] then Some d else None)"
| "parse_parts (Suc n) d s =
     (if s = [] then Some d
      else case parse_part s of
        None \<Rightarrow> None
      | Some (w, s') \<Rightarrow>
          (let d' = (d + w) mod 2 ^ 64
           in if 2 ^ 63 < d' then None else parse_parts n d' s'))"

definition ParseDuration :: "string \<Rightarrow> duration option" where
  "ParseDuration s0 =
     (let (neg, s) = strip_sign s0
      in if s = ''0'' then Some 0
         else if s = [] then None
         else case parse_parts (length s) 0 s of
           None \<Rightarrow> None
         | Some d \<Rightarrow>
             if neg then Some (if d = 2 ^ 63 then - (2 ^ 63) else - d)
             else if 2 ^ 63 - 1 < d then None else Some d)"

section \<open>Facts\<close>

lemma leadingInt_rest_shorter:
  "leadingInt x s = Some (v, r) \<Longrightarrow> length r \<le> length s"
  by (induction x s rule: leadingInt.induct) (auto simp: Let_def split: if_splits)

lemma leadingFraction_rest_shorter:
  "leadingFraction ovf x sc s = (f, sc', r) \<Longrightarrow> length r \<le> length s"
  by (induction ovf x sc s rule: leadingFraction.induct) (auto simp: Let_def split: if_splits)

lemma leadingInt_nonneg:
  "0 \<le> x \<Longrightarrow> leadingInt x s = Some (v, r) \<Longrightarrow> 0 \<le> v"
proof (induction x s rule: leadingInt.induct)
  case (2 x c cs)
  have "is_digit c \<Longrightarrow> 0 \<le> digit_val c"
    by (simp add: is_digit_def digit_val_def)
  with 2 show ?case by (auto simp: Let_def split: if_splits)
qed simp

lemma dropWhile_shorter: "takeWhile P s \<noteq> [] \<Longrightarrow> length (dropWhile P s) < length s"
  by (metis add_diff_cancel_right' length_append length_greater_0_conv
      less_add_same_cancel2 takeWhile_dropWhile_id)

text \<open>Every part consumes input, so the length of the string bounds the loop.\<close>

lemma parse_part_shorter:
  assumes "parse_part s = Some (w, s')"
  shows "length s' < length s"
proof -
  from assms obtain v s1 f sc s2 where
    li: "leadingInt 0 s = Some (v, s1)" and
    s2: "s2 = s1 \<or> leadingFraction False 0 1 (tl s1) = (f, sc, s2)" and
    u: "takeWhile unit_char s2 \<noteq> []" and s': "s' = dropWhile unit_char s2"
    by (auto simp: parse_part_def Let_def split: if_splits option.splits prod.splits)
  from s2 leadingFraction_rest_shorter have "length s2 \<le> length s1"
    by (metis diff_le_self dual_order.trans length_tl order_refl)
  with leadingInt_rest_shorter [OF li] have "length s2 \<le> length s" by simp
  with dropWhile_shorter [OF u] s' show ?thesis by simp
qed

lemma parse_parts_Nil [simp]: "parse_parts n d [] = Some d"
  by (cases n) auto

lemma parse_parts_fuel:
  "length s \<le> n \<Longrightarrow> length s \<le> m \<Longrightarrow> parse_parts n d s = parse_parts m d s"
proof (induction n arbitrary: m d s)
  case (Suc n)
  then show ?case
    by (cases m) (auto simp: Let_def dest!: parse_part_shorter split: option.splits prod.splits)
qed (cases m, auto)

text \<open>A parsed duration is an \<open>int64\<close>.\<close>

lemma parse_parts_range:
  "0 \<le> d \<Longrightarrow> d \<le> 2 ^ 63 \<Longrightarrow> parse_parts n d s = Some e \<Longrightarrow> 0 \<le> e \<and> e \<le> 2 ^ 63"
proof (induction n d s rule: parse_parts.induct)
  case (2 n d s)
  then show ?case by (auto simp: Let_def split: if_splits option.splits prod.splits)
qed (auto split: if_splits)

lemma ParseDuration_int64:
  assumes "ParseDuration s = Some d"
  shows "- (2 ^ 63) \<le> d \<and> d < 2 ^ 63"
proof -
  have *: "0 \<le> e \<and> e \<le> 2 ^ 63" if "parse_parts n 0 t = Some e" for n t e
    using parse_parts_range [OF _ _ that] by simp
  show ?thesis using assms
    by (auto simp: ParseDuration_def Let_def split: if_splits option.splits prod.splits dest!: *)
qed

end
