(* ===== verification/Classifier.thy ===== *)
theory Classifier
  imports Go_Json Go_Regexp Go_Time
begin

text \<open>
  \<open>src/classifier.go\<close>: the pure classification of an upstream failure into quota, rate
  limit, authentication, transient and other failures, and the instant until which the
  account is to rest.
\<close>

section \<open>Library tables\<close>

text \<open>
  What the code takes from Go's standard library and is not written out here: the
  Unicode lower-case tables (used for strings that are not ASCII) and the two date
  parsers, each returning the zero instant for a string it rejects.
\<close>

record golib =
  uni_lower :: "string \<Rightarrow> string"
  time_Parse_RFC3339Nano :: "string \<Rightarrow> time"
  http_ParseTime :: "string \<Rightarrow> time"

section \<open>Data\<close>

record classification =
  Kind :: string
  Reason :: string
  Window :: string
  Until :: time
  ResetSource :: string
  FallbackReason :: string

definition mk_class :: "string \<Rightarrow> string \<Rightarrow> string \<Rightarrow> classification" where
  "mk_class kind reason window =
     \<lparr>Kind = kind, Reason = reason, Window = window, Until = 0,
      ResetSource = [], FallbackReason = []\<rparr>"

text \<open>A header map, in the order in which \<open>range\<close> happens to visit it.\<close>

type_synonym header = "(string \<times> string list) list"

type_synonym json_object = "(string \<times> json) list"

fun headerValue :: "header \<Rightarrow> string \<Rightarrow> string" where
  "headerValue [] key = []"
| "headerValue ((k, v) # h) key =
     (if EqualFoldAscii k key \<and> v \<noteq> [] then TrimSpace (hd v) else headerValue h key)"

text \<open>\<open>object\<close> and \<open>text\<close>: a type assertion whose failure gives the zero value.\<close>

fun object :: "json option \<Rightarrow> json_object" where
  "object (Some (JObj m)) = m"
| "object _ = []"

fun text_of :: "json option \<Rightarrow> string" where
  "text_of (Some (JStr _ s)) = s"
| "text_of _ = []"

definition normalized :: "golib \<Rightarrow> string \<Rightarrow> string" where
  "normalized G s = ToLower (uni_lower G) (TrimSpace s)"

section \<open>Reset signals\<close>

text \<open>The dynamic types that \<open>secondsValue\<close> distinguishes.\<close>

datatype any_val = AString string | ANumber string | AFloat float64 | AOther

fun any_of_json :: "json \<Rightarrow> any_val" where
  "any_of_json (JStr _ s) = AString s"
| "any_of_json (JNum s) = ANumber s"
| "any_of_json _ = AOther"

definition checked :: "float64 \<times> bool \<Rightarrow> float64 option" where
  "checked r = (if snd r then Some (fst r) else None)"

fun secondsValue :: "any_val \<Rightarrow> float64 option" where
  "secondsValue (ANumber s) = checked (ParseFloat s)"
| "secondsValue (AString s) = checked (ParseFloat (TrimSpace s))"
| "secondsValue (AFloat x) = Some x"
| "secondsValue AOther = None"

definition seconds_duration :: "rat \<Rightarrow> duration" where
  "seconds_duration n =
     (case float_mul (Fin n) (Fin 1000000000) of Fin r \<Rightarrow> trunc_rat r | _ \<Rightarrow> 0)"

definition relativeReset :: "any_val \<Rightarrow> time \<Rightarrow> time option" where
  "relativeReset v now =
     (case secondsValue v of
        Some (Fin n) \<Rightarrow>
          if n \<le> 0 \<or> 366 * 86400 < n then None else Some (now + seconds_duration n)
      | Some _ \<Rightarrow> None
      | None \<Rightarrow>
          (case v of
             AString s \<Rightarrow>
               (case ParseDuration s of
                  Some d \<Rightarrow> if 0 < d \<and> d \<le> max_window then Some (now + d) else None
                | None \<Rightarrow> None)
           | _ \<Rightarrow> None))"

definition unix_of_float :: "rat \<Rightarrow> time" where
  "unix_of_float n0 =
     (case (if 1000000000000 < n0 then double (n0 / 1000) else Fin n0) of
        Fin n \<Rightarrow>
          if 1000000000 \<le> n \<and> n < 100000000000 then
            let sec = trunc_rat n; frac = n - of_int sec
            in Unix sec (case float_mul (Fin frac) (Fin 1000000000) of
                           Fin r \<Rightarrow> trunc_rat r | _ \<Rightarrow> 0)
          else 0
      | _ \<Rightarrow> 0)"

definition absolute_time :: "golib \<Rightarrow> any_val \<Rightarrow> time" where
  "absolute_time G v =
     (let t0 = (case v of AString s \<Rightarrow>
                   let t = time_Parse_RFC3339Nano G (TrimSpace s)
                   in if t = 0 then http_ParseTime G (TrimSpace s) else t
                 | _ \<Rightarrow> 0)
      in if t0 \<noteq> 0 then t0
         else case secondsValue v of Some (Fin n) \<Rightarrow> unix_of_float n | _ \<Rightarrow> 0)"

definition absoluteReset :: "golib \<Rightarrow> any_val \<Rightarrow> time \<Rightarrow> time option" where
  "absoluteReset G v now =
     (let t = absolute_time G v
      in if t \<noteq> 0 \<and> now < t \<and> \<not> now + max_window < t then Some t else None)"

subsection \<open>The retry hint of a message\<close>

definition re_space :: regex where
  "re_space = Cls [CHR 0x09, CHR 0x0A, CHR 0x0C, CHR 0x0D, CHR 0x20]"

definition re_digits :: regex where
  "re_digits = Plus (Cls ''0123456789'')"

definition re_number :: regex where
  "re_number = Seq re_digits (Opt (Seq (Cls ''.'') re_digits))"

definition re_unit :: regex where
  "re_unit = Alts [Seq (Lit ''second'') (Opt (Lit ''s'')), Seq (Lit ''minute'') (Opt (Lit ''s'')),
                   Seq (Lit ''hour'') (Opt (Lit ''s'')), Seq (Lit ''day'') (Opt (Lit ''s'')),
                   Lit ''s'', Lit ''m'', Lit ''h'', Lit ''d'']"

definition retryMessage :: regex where
  "retryMessage =
     Seq (Alts [Lit ''try again'', Lit ''retry'', Seq (Lit ''reset'') (Opt (Lit ''s''))])
      (Seq (Plus re_space)
       (Seq (Alts [Lit ''in'', Lit ''after''])
        (Seq (Plus re_space)
         (Grp 1 (Plus (Seq re_number (Seq (Star re_space) (Seq re_unit (Star re_space)))))))))"

definition durationPart :: regex where
  "durationPart = Seq (Grp 1 re_number) (Seq (Star re_space) (Grp 2 re_unit))"

definition unit_factor :: "string \<Rightarrow> rat option" where
  "unit_factor u =
     (if u \<noteq> [] \<and> hd u = CHR ''m'' then Some 60
      else if u \<noteq> [] \<and> hd u = CHR ''h'' then Some 3600
      else if u \<noteq> [] \<and> hd u = CHR ''d'' then Some 86400 else None)"

definition part_seconds :: "captures \<Rightarrow> float64" where
  "part_seconds c =
     (let n = fst (ParseFloat (group 1 c))
      in case unit_factor (group 2 c) of Some f \<Rightarrow> float_mul n (Fin f) | None \<Rightarrow> n)"

definition messageReset :: "golib \<Rightarrow> string \<Rightarrow> time \<Rightarrow> time option" where
  "messageReset G s now =
     (case find_submatch retryMessage (ToLower (uni_lower G) s) of
        None \<Rightarrow> None
      | Some (c, _) \<Rightarrow>
          relativeReset
            (AFloat (foldl (\<lambda>secs p. float_add secs (part_seconds p)) (Fin 0)
                       (FindAllSubmatch durationPart (group 1 c)))) now)"

section \<open>withReset\<close>

text \<open>The closure \<open>add\<close>: the latest valid signal wins, the first among equals.\<close>

definition add_reset :: "time option \<Rightarrow> string \<Rightarrow> classification \<Rightarrow> classification" where
  "add_reset t source c =
     (case t of
        Some u \<Rightarrow> if Until c < u then c\<lparr>Until := u, ResetSource := source\<rparr> else c
      | None \<Rightarrow> c)"

definition duration_keys :: "string list" where
  "duration_keys =
     [''retry_after'', ''retryAfter'', ''reset_in'', ''resetIn'', ''reset_after'', ''resetAfter'']"

definition timestamp_keys :: "string list" where
  "timestamp_keys =
     [''reset_at'', ''resetAt'', ''resets_at'', ''reset_time'', ''resetTime'', ''reset_timestamp'']"

text \<open>The loops carry the classification and the flag \<open>attempted\<close>.\<close>

type_synonym reset_acc = "classification \<times> bool"

definition probe_key ::
  "(any_val \<Rightarrow> time option) \<Rightarrow> string \<Rightarrow> json_object \<Rightarrow> string \<Rightarrow> reset_acc \<Rightarrow> reset_acc"
where
  "probe_key reset source m k acc =
     (case json_lookup m k of
        None \<Rightarrow> acc
      | Some v \<Rightarrow> (add_reset (reset (any_of_json v)) source (fst acc), True))"

definition probe_scope :: "golib \<Rightarrow> time \<Rightarrow> json_object \<Rightarrow> reset_acc \<Rightarrow> reset_acc" where
  "probe_scope G now m acc0 =
     (let acc1 = fold (probe_key (\<lambda>v. relativeReset v now) ''body_duration'' m) duration_keys acc0;
          acc2 = fold (probe_key (\<lambda>v. absoluteReset G v now) ''body_timestamp'' m)
                   timestamp_keys acc1;
          s = text_of (json_lookup m ''message'')
      in if Kind (fst acc2) = ''quota'' \<and> s \<noteq> []
         then (add_reset (messageReset G s now) ''body_message'' (fst acc2), snd acc2)
         else acc2)"

definition probe_header :: "golib \<Rightarrow> header \<Rightarrow> time \<Rightarrow> classification \<Rightarrow> reset_acc" where
  "probe_header G h now c =
     (let s = headerValue h ''Retry-After''
      in if s = [] then (c, False)
         else (add_reset (case relativeReset (AString s) now of
                            Some t \<Rightarrow> Some t
                          | None \<Rightarrow> absoluteReset G (AString s) now)
                 ''retry_after_header'' c, True))"

definition reset_scopes :: "json_object \<Rightarrow> json_object list" where
  "reset_scopes doc =
     [doc, object (json_lookup doc ''error''), object (json_lookup doc ''metadata''),
      object (json_lookup (object (json_lookup doc ''error'')) ''metadata'')]"

definition apply_fallback :: "time \<Rightarrow> duration \<Rightarrow> reset_acc \<Rightarrow> classification" where
  "apply_fallback now fallback acc =
     (let c = fst acc
      in if Until c = 0 \<and> 0 < fallback
         then c\<lparr>Until := now + fallback, ResetSource := ''fallback'',
                FallbackReason := (if snd acc then ''invalid_or_expired_reset''
                                   else ''no_reset_provided'')\<rparr>
         else c)"

definition withReset ::
  "golib \<Rightarrow> classification \<Rightarrow> header \<Rightarrow> json_object \<Rightarrow> time \<Rightarrow> duration \<Rightarrow> classification"
where
  "withReset G c h doc now fallback =
     apply_fallback now fallback
       (fold (probe_scope G now) (reset_scopes doc) (probe_header G h now c))"

section \<open>classify\<close>

definition rate_limit_codes :: "string list" where
  "rate_limit_codes =
     [''ratelimiterror'', ''rate_limit_error'', ''rate_limit_exceeded'', ''requests_per_minute'',
      ''tokens_per_minute'', ''concurrency_limit_exceeded'']"

definition quotaCode :: "string \<Rightarrow> bool" where
  "quotaCode s \<longleftrightarrow>
     List.member [''insufficient_quota'', ''quota_exceeded'', ''quota_exhausted'',
                  ''usage_limit_exceeded'', ''usage_limit_reached''] s"

definition explicit_quota :: "string \<Rightarrow> bool" where
  "explicit_quota message \<longleftrightarrow>
     (let rateMessage = replace_dashes message
      in (Contains message ''quota'' \<or> Contains message ''usage limit'') \<and>
         (Contains message ''exhausted'' \<or> Contains message ''exceeded'' \<or>
          Contains message ''depleted'' \<or> Contains message ''reached'') \<and>
         \<not> Contains rateMessage ''rate limit'' \<and> \<not> Contains rateMessage ''per minute'' \<and>
         \<not> Contains rateMessage ''per second'' \<and> \<not> Contains rateMessage ''concurren'')"

definition body_doc :: "string \<Rightarrow> json_object" where
  "body_doc body =
     (if int (length body) \<le> 64 * 1024
      then (case json_decode_first body of Some (JObj m, _) \<Rightarrow> m | _ \<Rightarrow> [])
      else [])"

text \<open>The fields the classifier reads: \<open>typ\<close>, \<open>code\<close> and \<open>message\<close>, with their fallbacks.\<close>

definition body_type :: "golib \<Rightarrow> json_object \<Rightarrow> string" where
  "body_type G doc =
     (let t = normalized G (text_of (json_lookup (object (json_lookup doc ''error'')) ''type''))
      in if t = [] then normalized G (text_of (json_lookup doc ''type'')) else t)"

definition body_code :: "golib \<Rightarrow> json_object \<Rightarrow> string" where
  "body_code G doc =
     (let t = normalized G (text_of (json_lookup (object (json_lookup doc ''error'')) ''code''))
      in if t = [] then normalized G (text_of (json_lookup doc ''code'')) else t)"

definition body_message :: "golib \<Rightarrow> json_object \<Rightarrow> string" where
  "body_message G doc =
     (let m0 = normalized G (text_of (json_lookup (object (json_lookup doc ''error'')) ''message''));
          m1 = (if m0 = [] then normalized G (text_of (json_lookup doc ''message'')) else m0)
      in if m1 = [] then normalized G (text_of (json_lookup doc ''error'')) else m1)"

definition declared_quota :: "string \<Rightarrow> classification option" where
  "declared_quota typ =
     (if typ = ''creditserror''
      then Some (mk_class ''quota'' ''credits_exhausted'' ''credit_balance'')
      else if typ = ''monthlylimiterror''
      then Some (mk_class ''quota'' ''workspace_monthly_limit'' ''monthly'')
      else if typ = ''userlimiterror''
      then Some (mk_class ''quota'' ''user_monthly_limit'' ''monthly'')
      else if typ = ''freeusagelimiterror''
      then Some (mk_class ''quota'' ''free_usage_limit'' ''free_usage'')
      else if typ = ''blackusagelimiterror''
      then Some (mk_class ''quota'' ''black_usage_limit'' ''usage'')
      else None)"

definition status_class :: "int \<Rightarrow> classification" where
  "status_class status =
     (if status = 401 then mk_class ''auth'' ''authentication_failure'' []
      else if status = 403 then mk_class ''auth'' ''authorization_failure'' []
      else if 500 \<le> status then mk_class ''transient'' ''upstream_5xx'' []
      else if status = 0 then mk_class ''transient'' ''transport_failure'' []
      else mk_class ''failure'' ''upstream_failure'' [])"

definition classify ::
  "golib \<Rightarrow> int \<Rightarrow> header \<Rightarrow> string \<Rightarrow> time \<Rightarrow> duration \<Rightarrow> classification"
where
  "classify G status headers body observed fallback =
     (if 200 \<le> status \<and> status < 300 then mk_class ''success'' ''success'' []
      else
        let doc = body_doc body;
            typ = body_type G doc; code = body_code G doc; message = body_message G doc
        in if typ = ''gousagelimiterror'' \<or> code = ''gousagelimiterror''
           then mk_class ''failure'' ''unsupported_go_response'' []
           else case (if status = 401 \<or> status = 402 \<or> status = 429
                      then declared_quota typ else None) of
             Some c \<Rightarrow> withReset G c headers doc observed fallback
           | None \<Rightarrow>
               if status = 429 then
                 (if List.member rate_limit_codes typ \<or> List.member rate_limit_codes code
                  then withReset G (mk_class ''rate_limit'' ''transient_rate_limit'' [])
                         headers doc observed 0
                  else if quotaCode code \<or> quotaCode typ \<or> explicit_quota message
                  then withReset G (mk_class ''quota'' ''explicit_quota_limit'' ''usage'')
                         headers doc observed fallback
                  else withReset G (mk_class ''rate_limit'' ''unclassified_429'' [])
                         headers doc observed 0)
               else status_class status)"

end
