(* ===== verification/Zen_State.thy ===== *)
theory Zen_State
  imports Classifier
begin

text \<open>
  The data of \<open>src/state.go\<close>: the state that is kept per key and for the pool, how it
  is written as JSON and read back (\<open>decodeState\<close>), and the interface \<open>stateStore\<close>.
\<close>

section \<open>Data\<close>

record keyState =
  ExhaustedUntil :: time
  SuspendedUntil :: time
  RateLimitedUntil :: time
  TransientUntil :: time
  IgnoreBefore :: time
  LastFailure :: classification
  LastFailureAt :: time
  LastSuccessAt :: time
  LastAction :: string
  Success :: "64 word"
  Failed :: "64 word"

record persistedState =
  Version :: int
  Current :: string
  Cursor :: string
  Keys :: "(string, keyState) fmap"

definition zero_class :: classification where
  "zero_class = mk_class [] [] []"

definition zero_key :: keyState where
  "zero_key = \<lparr>ExhaustedUntil = 0, SuspendedUntil = 0, RateLimitedUntil = 0, TransientUntil = 0,
     IgnoreBefore = 0, LastFailure = zero_class, LastFailureAt = 0, LastSuccessAt = 0,
     LastAction = [], Success = 0, Failed = 0\<rparr>"

definition emptyState :: persistedState where
  "emptyState = \<lparr>Version = 1, Current = [], Cursor = [], Keys = fmempty\<rparr>"

text \<open>\<open>hashIDPattern\<close>, \<open>^[0-9a-f]{64}$\<close>.\<close>

definition hex_lower :: "char \<Rightarrow> bool" where
  "hex_lower c \<longleftrightarrow> is_digit c \<or> (97 \<le> byte c \<and> byte c \<le> 102)"

definition hashID :: "string \<Rightarrow> bool" where
  "hashID s \<longleftrightarrow> length s = 64 \<and> list_all hex_lower s"

section \<open>Reading JSON into the structs\<close>

text \<open>
  The decoding of one time value, \<open>Time.UnmarshalJSON\<close> on the text between the quotes,
  and its encoding, \<open>Time.MarshalJSON\<close>, which fails for a year outside four digits.
\<close>

record timelib =
  time_Unmarshal :: "string \<Rightarrow> time option"
  time_Marshal :: "time \<Rightarrow> string option"

text \<open>Each reader takes the value the field has and returns its new one; \<open>null\<close> changes nothing.\<close>

fun read_string :: "string \<Rightarrow> json \<Rightarrow> string option" where
  "read_string old JNull = Some old"
| "read_string old (JStr _ s) = Some s"
| "read_string old _ = None"

fun read_time :: "timelib \<Rightarrow> time \<Rightarrow> json \<Rightarrow> time option" where
  "read_time T old JNull = Some old"
| "read_time T old (JStr raw _) = time_Unmarshal T raw"
| "read_time T old _ = None"

definition dec_val :: "string \<Rightarrow> int" where
  "dec_val ds = foldl (\<lambda>x c. x * 10 + digit_val c) 0 ds"

definition parse_uint :: "string \<Rightarrow> int option" where
  "parse_uint s = (if s \<noteq> [] \<and> list_all is_digit s then Some (dec_val s) else None)"

definition parse_int :: "string \<Rightarrow> int option" where
  "parse_int s = (let (neg, ds) = strip_sign s
     in map_option (\<lambda>n. if neg then - n else n) (parse_uint ds))"

fun read_int :: "int \<Rightarrow> json \<Rightarrow> int option" where
  "read_int old JNull = Some old"
| "read_int old (JNum s) =
     (case parse_int s of
        Some n \<Rightarrow> if - (2 ^ 63) \<le> n \<and> n < 2 ^ 63 then Some n else None
      | None \<Rightarrow> None)"
| "read_int old _ = None"

fun read_uint64 :: "64 word \<Rightarrow> json \<Rightarrow> 64 word option" where
  "read_uint64 old JNull = Some old"
| "read_uint64 old (JNum s) =
     (case parse_uint s of
        Some n \<Rightarrow> if n < 2 ^ 64 then Some (word_of_int n) else None
      | None \<Rightarrow> None)"
| "read_uint64 old _ = None"

text \<open>
  Members are decoded one after the other into the same struct. A member belongs to the
  field of its name, or to the one it equals up to letter case; others are skipped. A
  value of the wrong type makes the whole decoding fail.
\<close>

definition is_field :: "string \<Rightarrow> string \<Rightarrow> bool" where
  "is_field name key \<longleftrightarrow> EqualFoldAscii key name"

fun read_members :: "('a \<Rightarrow> string \<Rightarrow> json \<Rightarrow> 'a option) \<Rightarrow> 'a \<Rightarrow> json_object \<Rightarrow> 'a option" where
  "read_members f x [] = Some x"
| "read_members f x ((k, v) # ms) =
     (case f x k v of None \<Rightarrow> None | Some y \<Rightarrow> read_members f y ms)"

fun read_struct :: "('a \<Rightarrow> string \<Rightarrow> json \<Rightarrow> 'a option) \<Rightarrow> 'a \<Rightarrow> json \<Rightarrow> 'a option" where
  "read_struct f old JNull = Some old"
| "read_struct f old (JObj ms) = read_members f old ms"
| "read_struct f old _ = None"

definition class_field ::
  "timelib \<Rightarrow> classification \<Rightarrow> string \<Rightarrow> json \<Rightarrow> classification option" where
  "class_field T c k v =
     (if is_field ''kind'' k then map_option (\<lambda>x. c\<lparr>Kind := x\<rparr>) (read_string (Kind c) v)
      else if is_field ''reason'' k
        then map_option (\<lambda>x. c\<lparr>Reason := x\<rparr>) (read_string (Reason c) v)
      else if is_field ''window'' k
        then map_option (\<lambda>x. c\<lparr>Window := x\<rparr>) (read_string (Window c) v)
      else if is_field ''until'' k
        then map_option (\<lambda>x. c\<lparr>Until := x\<rparr>) (read_time T (Until c) v)
      else if is_field ''reset_source'' k
        then map_option (\<lambda>x. c\<lparr>ResetSource := x\<rparr>) (read_string (ResetSource c) v)
      else if is_field ''fallback_reason'' k
        then map_option (\<lambda>x. c\<lparr>FallbackReason := x\<rparr>) (read_string (FallbackReason c) v)
      else Some c)"

definition key_field :: "timelib \<Rightarrow> keyState \<Rightarrow> string \<Rightarrow> json \<Rightarrow> keyState option" where
  "key_field T s k v =
     (if is_field ''cooldown_until'' k
        then map_option (\<lambda>x. s\<lparr>ExhaustedUntil := x\<rparr>) (read_time T (ExhaustedUntil s) v)
      else if is_field ''suspended_until'' k
        then map_option (\<lambda>x. s\<lparr>SuspendedUntil := x\<rparr>) (read_time T (SuspendedUntil s) v)
      else if is_field ''rate_limited_until'' k
        then map_option (\<lambda>x. s\<lparr>RateLimitedUntil := x\<rparr>) (read_time T (RateLimitedUntil s) v)
      else if is_field ''transient_until'' k
        then map_option (\<lambda>x. s\<lparr>TransientUntil := x\<rparr>) (read_time T (TransientUntil s) v)
      else if is_field ''ignore_results_before'' k
        then map_option (\<lambda>x. s\<lparr>IgnoreBefore := x\<rparr>) (read_time T (IgnoreBefore s) v)
      else if is_field ''last_failure'' k
        then map_option (\<lambda>x. s\<lparr>LastFailure := x\<rparr>)
               (read_struct (class_field T) (LastFailure s) v)
      else if is_field ''last_failure_at'' k
        then map_option (\<lambda>x. s\<lparr>LastFailureAt := x\<rparr>) (read_time T (LastFailureAt s) v)
      else if is_field ''last_success_at'' k
        then map_option (\<lambda>x. s\<lparr>LastSuccessAt := x\<rparr>) (read_time T (LastSuccessAt s) v)
      else if is_field ''last_action'' k
        then map_option (\<lambda>x. s\<lparr>LastAction := x\<rparr>) (read_string (LastAction s) v)
      else if is_field ''success'' k
        then map_option (\<lambda>x. s\<lparr>Success := x\<rparr>) (read_uint64 (Success s) v)
      else if is_field ''failed'' k
        then map_option (\<lambda>x. s\<lparr>Failed := x\<rparr>) (read_uint64 (Failed s) v)
      else Some s)"

text \<open>While it is decoded, the map of keys may be nil and may hold nil pointers.\<close>

type_synonym raw_keys = "(string, keyState option) fmap option"

definition read_key_entry ::
  "timelib \<Rightarrow> (string, keyState option) fmap \<Rightarrow> string \<Rightarrow> json
   \<Rightarrow> (string, keyState option) fmap option" where
  "read_key_entry T m k v =
     (if v = JNull then Some (fmupd k None m)
      else map_option (\<lambda>s. fmupd k (Some s) m) (read_struct (key_field T) zero_key v))"

fun read_keys :: "timelib \<Rightarrow> raw_keys \<Rightarrow> json \<Rightarrow> raw_keys option" where
  "read_keys T old JNull = Some None"
| "read_keys T old (JObj ms) =
     map_option Some
       (read_members (read_key_entry T) (case old of None \<Rightarrow> fmempty | Some m \<Rightarrow> m) ms)"
| "read_keys T old _ = None"

record rawState =
  rawVersion :: int
  rawCurrent :: string
  rawCursor :: string
  rawKeys :: raw_keys

definition state_field :: "timelib \<Rightarrow> rawState \<Rightarrow> string \<Rightarrow> json \<Rightarrow> rawState option" where
  "state_field T s k v =
     (if is_field ''version'' k
        then map_option (\<lambda>x. s\<lparr>rawVersion := x\<rparr>) (read_int (rawVersion s) v)
      else if is_field ''current'' k
        then map_option (\<lambda>x. s\<lparr>rawCurrent := x\<rparr>) (read_string (rawCurrent s) v)
      else if is_field ''cursor'' k
        then map_option (\<lambda>x. s\<lparr>rawCursor := x\<rparr>) (read_string (rawCursor s) v)
      else if is_field ''keys'' k
        then map_option (\<lambda>x. s\<lparr>rawKeys := x\<rparr>) (read_keys T (rawKeys s) v)
      else Some s)"

definition raw_empty :: rawState where
  "raw_empty = \<lparr>rawVersion = 1, rawCurrent = [], rawCursor = [], rawKeys = Some fmempty\<rparr>"

section \<open>decodeState\<close>

text \<open>The checks after the decoding, and the map without the nil pointers they exclude.\<close>

definition check_state :: "rawState \<Rightarrow> persistedState option" where
  "check_state s =
     (case rawKeys s of
        None \<Rightarrow> None
      | Some m \<Rightarrow>
          if rawVersion s \<noteq> 1 \<or> 10000 < int (fcard (fmdom m)) then None
          else if \<not> list_all (\<lambda>i. i = [] \<or> hashID i) [rawCurrent s, rawCursor s] then None
          else if \<not> fBall (fmdom m) (\<lambda>i. hashID i \<and> fmlookup m i \<noteq> Some None) then None
          else Some \<lparr>Version = rawVersion s, Current = rawCurrent s, Cursor = rawCursor s,
                     Keys = fmmap (\<lambda>k. the k) m\<rparr>)"

definition state_of_json :: "timelib \<Rightarrow> json \<Rightarrow> persistedState option" where
  "state_of_json T j =
     (case read_struct (state_field T) raw_empty j of None \<Rightarrow> None | Some s \<Rightarrow> check_state s)"

definition decodeState :: "timelib \<Rightarrow> string \<Rightarrow> persistedState option" where
  "decodeState T b = (case json_unmarshal b of None \<Rightarrow> None | Some j \<Rightarrow> state_of_json T j)"

section \<open>The interface stateStore\<close>

text \<open>
  A Go interface value is its methods and the value behind them; the methods are this
  record, over the type of the value. \<open>None\<close> as the result of \<open>Load\<close>, and \<open>False\<close> as that
  of \<open>Save\<close> and \<open>Close\<close>, stand for an error.
\<close>

record 's stateStore =
  Load :: "'s \<Rightarrow> persistedState option"
  Save :: "persistedState \<Rightarrow> 's \<Rightarrow> bool \<times> 's"
  CloseStore :: "'s \<Rightarrow> bool \<times> 's"

end
