(* ===== verification/Zen_Account.thy ===== *)
theory Zen_Account
  imports Classifier
begin

text \<open>
  The data of \<open>src/config.go\<close> that the pool works with (\<open>account\<close>, \<open>configuration\<close>),
  and its two methods: which models the pool manages, and whether the headers of a
  request will be forwarded.
\<close>

record account =
  Fingerprint :: string
  AuthID :: string
  Label :: string
  Disabled :: bool
  ProxyPresent :: bool
  ProxyLabel :: string

record configuration =
  ConfigPath :: string
  StateDir :: string
  Provider :: string
  Accounts :: "account list"
  Models :: "string fset"                        \<comment> \<open>the keys mapped to true\<close>
  ForwardHeaders :: "(string, string) fmap"
  Fallback :: duration
  AuthSuspension :: duration
  RateFallback :: duration
  TransientFallback :: duration
  HostCoolingDisabled :: bool

definition pluginID :: string where
  "pluginID = ''opencode-zen-pool''"

definition pluginVersion :: string where
  "pluginVersion = ''0.1.0''"

definition zenBaseURL :: string where
  "zenBaseURL = ''https://opencode.ai/zen/v1''"

section \<open>configuration.managedModel\<close>

text \<open>A trailing parenthesis, with the effort a client asked for, is cut off the name.\<close>

definition model_name :: "string \<Rightarrow> string" where
  "model_name model0 =
     (let model = TrimSpace model0
      in if HasSuffix model '')'' then
           (case LastIndexChar (CHR ''('') model of
              Some n \<Rightarrow> if 0 < n then take n model else model
            | None \<Rightarrow> model)
         else model)"

definition managedModel :: "configuration \<Rightarrow> string \<Rightarrow> bool" where
  "managedModel c model \<longleftrightarrow> model_name model |\<in>| Models c"

section \<open>configuration.validateForwarding\<close>

definition forwarded_headers :: "string list" where
  "forwarded_headers =
     [''x-opencode-session'', ''x-opencode-client'', ''x-opencode-request'',
      ''x-opencode-project'', ''x-request-id'', ''x-correlation-id'', ''traceparent'',
      ''tracestate'']"

definition forward_rule :: "configuration \<Rightarrow> string \<Rightarrow> string" where
  "forward_rule c key = (case fmlookup (ForwardHeaders c) key of Some r \<Rightarrow> r | None \<Rightarrow> [])"

definition header_refused :: "golib \<Rightarrow> configuration \<Rightarrow> string \<times> string list \<Rightarrow> bool" where
  "header_refused G c h =
     (case h of (k, values) \<Rightarrow>
        values \<noteq> [] \<and> hd values \<noteq> [] \<and>
        (let key = ToLower (uni_lower G) k
         in List.member forwarded_headers key \<and>
            \<not> EqualFoldAscii (forward_rule c key) (CHR ''$'' # key)))"

text \<open>The header the error names, if there is an error.\<close>

definition validateForwarding :: "golib \<Rightarrow> configuration \<Rightarrow> header \<Rightarrow> string option" where
  "validateForwarding G c headers =
     map_option (\<lambda>h. ToLower (uni_lower G) (fst h)) (find (header_refused G c) headers)"

section \<open>Facts\<close>

lemma validateForwarding_None:
  "validateForwarding G c headers = None \<longleftrightarrow> (\<forall>h\<in>set headers. \<not> header_refused G c h)"
  by (simp add: validateForwarding_def find_eq_None)

end
