(* ===== verification/Zen_Pool.thy ===== *)
theory Zen_Pool
  imports Zen_State Zen_Account
begin

text \<open>
  \<open>src/pool.go\<close>: the drain-then-switch pool. Every operation of the Go type runs under
  the mutex of the pool, so it is one function from the pool before to the pool after;
  \<open>now\<close> is what its one reading of the clock returns, and \<open>M\<close> the methods of the store.
\<close>

section \<open>Data\<close>

record schedulerCandidate =
  cand_ID :: string
  cand_Provider :: string
  cand_Status :: string

record schedulerRequest =
  req_Provider :: string
  req_Providers :: "string list"
  req_Model :: string
  req_Candidates :: "schedulerCandidate list"

record schedulerResponse =
  Handled :: bool
  resp_AuthID :: string

record usageRecord =
  rec_Provider :: string
  rec_BaseURL :: string
  rec_AuthID :: string
  RequestedAt :: time
  Latency :: duration
  rec_Failed :: bool
  StatusCode :: int
  Body :: string
  ResponseHeaders :: header

record unavailableError =
  err_Reason :: string
  err_Eligible :: nat
  err_Exhausted :: nat
  err_Suspended :: nat
  err_Unavailable :: nat
  RetryAt :: time

text \<open>
  The errors of the pool: \<open>errState\<close>, the error of closing the store, an
  \<open>unavailableError\<close>, or one with a text.
\<close>

datatype pool_error = ErrState | ErrClose | Unavailable unavailableError | ErrText string

type_synonym 'a result = "(pool_error, 'a) outcome"

text \<open>
  \<open>p_store\<close> is \<open>None\<close> in a faulted pool, whose store is nil. \<open>byAuthID\<close> maps the auth IDs
  of the host to fingerprints.
\<close>

record 's pool =
  p_cfg :: configuration
  p_state :: persistedState
  p_byAuthID :: "(string, string) fmap"
  p_store :: "'s option"
  p_fault :: string
  p_closed :: bool

section \<open>Lookups\<close>

definition accountLocked :: "'s pool \<Rightarrow> string \<Rightarrow> account option" where
  "accountLocked p hash = find (\<lambda>a. Fingerprint a = hash) (Accounts (p_cfg p))"

text \<open>\<open>p.state.Keys[hash]\<close>, whose nil result is \<open>None\<close>.\<close>

definition key_of :: "'s pool \<Rightarrow> string \<Rightarrow> keyState option" where
  "key_of p hash = fmlookup (Keys (p_state p)) hash"

definition put_key :: "string \<Rightarrow> keyState \<Rightarrow> 's pool \<Rightarrow> 's pool" where
  "put_key hash k p = p\<lparr>p_state := (p_state p)\<lparr>Keys := fmupd hash k (Keys (p_state p))\<rparr>\<rparr>"

definition set_current :: "string \<Rightarrow> 's pool \<Rightarrow> 's pool" where
  "set_current hash p = p\<lparr>p_state := (p_state p)\<lparr>Current := hash\<rparr>\<rparr>"

definition set_cursor :: "string \<Rightarrow> 's pool \<Rightarrow> 's pool" where
  "set_cursor hash p = p\<lparr>p_state := (p_state p)\<lparr>Cursor := hash\<rparr>\<rparr>"

section \<open>Installing a configuration, opening a pool\<close>

fun add_auth :: "account \<Rightarrow> (string, string) fmap \<Rightarrow> (string, string) fmap" where
  "add_auth a m = (if AuthID a \<noteq> [] then fmupd (AuthID a) (Fingerprint a) m else m)"

fun add_key :: "account \<Rightarrow> (string, keyState) fmap \<Rightarrow> (string, keyState) fmap" where
  "add_key a m =
     (if fmlookup m (Fingerprint a) = None then fmupd (Fingerprint a) zero_key m else m)"

definition has_account :: "configuration \<Rightarrow> string \<Rightarrow> bool" where
  "has_account cfg hash \<longleftrightarrow> list_ex (\<lambda>a. Fingerprint a = hash) (Accounts cfg)"

definition installAccountsLocked :: "configuration \<Rightarrow> 's pool \<Rightarrow> 's pool" where
  "installAccountsLocked cfg p =
     (let m = fold add_auth (Accounts cfg) (p_byAuthID p);
          keys = fold add_key (Accounts cfg) (Keys (p_state p))
      in p\<lparr>p_cfg := cfg,
           p_state := (p_state p)\<lparr>Keys := keys\<rparr>,
           p_byAuthID := fmfilter (\<lambda>authID. has_account cfg (the (fmlookup m authID))) m\<rparr>)"

definition newPool ::
  "'s stateStore \<Rightarrow> configuration \<Rightarrow> 's \<Rightarrow> 's pool option" where
  "newPool M cfg store =
     (case Load M store of
        None \<Rightarrow> None
      | Some s \<Rightarrow>
          (let p0 = \<lparr>p_cfg = cfg, p_state = s, p_byAuthID = fmempty, p_store = Some store,
                     p_fault = [], p_closed = False\<rparr>;
               p = installAccountsLocked cfg p0
           in Some (if Current (p_state p) \<noteq> [] \<and> accountLocked p (Current (p_state p)) = None
                    then set_current [] p else p)))"

definition faultedPool :: "configuration \<Rightarrow> string \<Rightarrow> 's pool" where
  "faultedPool cfg0 reason =
     (let cfg = (if Provider cfg0 = []
                 then cfg0\<lparr>Provider := ''openai-compatible-opencode-zen''\<rparr> else cfg0)
      in installAccountsLocked cfg
           \<lparr>p_cfg = cfg, p_state = emptyState, p_byAuthID = fmempty, p_store = None,
            p_fault = reason, p_closed = False\<rparr>)"

section \<open>Saving, blocking, choosing\<close>

text \<open>The Boolean is whether the error is nil.\<close>

definition saveLocked :: "'s stateStore \<Rightarrow> 's pool \<Rightarrow> bool \<times> 's pool" where
  "saveLocked M p =
     (case p_store p of
        None \<Rightarrow> (False, p)
      | Some s \<Rightarrow>
          (let (ok, s') = Save M (p_state p) s; p' = p\<lparr>p_store := Some s'\<rparr>
           in if \<not> ok then (False, p'\<lparr>p_fault := ''state_write_failed''\<rparr>)
              else if p_fault p' = ''state_write_failed'' then (True, p'\<lparr>p_fault := []\<rparr>)
              else (True, p')))"

definition saved :: "'s stateStore \<Rightarrow> 's pool \<Rightarrow> unit result \<times> 's pool" where
  "saved M p = (case saveLocked M p of (ok, p') \<Rightarrow> (if ok then Ok () else Fail ErrState, p'))"

text \<open>The reason an account is blocked, empty if it is not; \<open>None\<close> is a nil key state.\<close>

definition block_reason :: "keyState \<Rightarrow> time \<Rightarrow> string" where
  "block_reason k now =
     (if now < ExhaustedUntil k then ''exhausted''
      else if now < SuspendedUntil k then ''suspended''
      else if now < RateLimitedUntil k then ''rate_limited''
      else if now < TransientUntil k then ''transient''
      else [])"

definition blockedLocked :: "'s pool \<Rightarrow> account option \<Rightarrow> time \<Rightarrow> string option" where
  "blockedLocked p a now =
     (case a of
        None \<Rightarrow> Some ''disabled''
      | Some a \<Rightarrow>
          if Disabled a then Some ''disabled''
          else map_option (\<lambda>k. block_reason k now) (key_of p (Fingerprint a)))"

text \<open>The index where the search starts: after the first account with the fingerprint.\<close>

fun start_after :: "nat \<Rightarrow> string \<Rightarrow> account list \<Rightarrow> nat option" where
  "start_after i h [] = None"
| "start_after i h (a # as) = (if Fingerprint a = h then Some (Suc i) else start_after (Suc i) h as)"

definition start_index :: "string \<Rightarrow> account list \<Rightarrow> nat" where
  "start_index h as = (case start_after 0 h as of Some i \<Rightarrow> i mod length as | None \<Rightarrow> 0)"

text \<open>The loop over \<open>(start+j) % len\<close>; \<open>fuel\<close> counts the rounds that are left.\<close>

fun choose_from :: "'s pool \<Rightarrow> time \<Rightarrow> nat \<Rightarrow> nat \<Rightarrow> nat \<Rightarrow> bool result \<times> 's pool" where
  "choose_from p now start j 0 = (Ok False, set_current [] p)"
| "choose_from p now start j (Suc n) =
     (let as = Accounts (p_cfg p); a = as ! ((start + j) mod length as)
      in case blockedLocked p (Some a) now of
           None \<Rightarrow> (Panic, p)
         | Some r \<Rightarrow>
             if r = [] then (Ok True, set_cursor (Fingerprint a) (set_current (Fingerprint a) p))
             else choose_from p now start (Suc j) n)"

definition chooseLocked :: "'s pool \<Rightarrow> string \<Rightarrow> time \<Rightarrow> bool result \<times> 's pool" where
  "chooseLocked p after now =
     (let as = Accounts (p_cfg p)
      in if as = [] then (Ok False, p)
         else choose_from p now (start_index after as) 0 (length as))"

section \<open>What is managed, and the aggregate error\<close>

definition managedLocked :: "'s pool \<Rightarrow> schedulerRequest \<Rightarrow> bool" where
  "managedLocked p req \<longleftrightarrow>
     (if Accounts (p_cfg p) = [] \<and> p_fault p = [] then False
      else req_Provider req = Provider (p_cfg p)
           \<or> list_ex (\<lambda>v. v = Provider (p_cfg p)) (req_Providers req)
           \<or> list_ex (\<lambda>c. fmlookup (p_byAuthID p) (cand_ID c) \<noteq> None
                           \<or> cand_Provider c = Provider (p_cfg p)) (req_Candidates req))"

definition retry_min :: "time \<Rightarrow> time \<Rightarrow> unavailableError \<Rightarrow> unavailableError" where
  "retry_min now until e =
     (if now < until \<and> (RetryAt e = 0 \<or> until < RetryAt e) then e\<lparr>RetryAt := until\<rparr> else e)"

definition count_reason :: "string \<Rightarrow> unavailableError \<Rightarrow> unavailableError" where
  "count_reason r e =
     (if r = [] then e\<lparr>err_Eligible := Suc (err_Eligible e)\<rparr>
      else if r = ''exhausted'' then e\<lparr>err_Exhausted := Suc (err_Exhausted e)\<rparr>
      else if r = ''suspended'' then e\<lparr>err_Suspended := Suc (err_Suspended e)\<rparr>
      else e\<lparr>err_Unavailable := Suc (err_Unavailable e)\<rparr>)"

fun tally :: "'s pool \<Rightarrow> time \<Rightarrow> account list \<Rightarrow> unavailableError \<Rightarrow> unavailableError option" where
  "tally p now [] e = Some e"
| "tally p now (a # as) e =
     (case (blockedLocked p (Some a) now, key_of p (Fingerprint a)) of
        (Some r, Some k) \<Rightarrow>
          tally p now as
            (fold (retry_min now) [ExhaustedUntil k, SuspendedUntil k, RateLimitedUntil k]
              (count_reason r e))
      | _ \<Rightarrow> None)"

definition unavailableLocked :: "'s pool \<Rightarrow> string \<Rightarrow> time \<Rightarrow> unavailableError option" where
  "unavailableLocked p reason now =
     tally p now (Accounts (p_cfg p))
       \<lparr>err_Reason = reason, err_Eligible = 0, err_Exhausted = 0, err_Suspended = 0,
        err_Unavailable = 0, RetryAt = 0\<rparr>"

text \<open>Returning that error from an operation.\<close>

definition unavailable :: "'s pool \<Rightarrow> string \<Rightarrow> time \<Rightarrow> 'a result" where
  "unavailable p reason now =
     (case unavailableLocked p reason now of Some e \<Rightarrow> Fail (Unavailable e) | None \<Rightarrow> Panic)"

end
