(* ===== verification/Zen_Pool_Ops.thy ===== *)
theory Zen_Pool_Ops
  imports Zen_Pool
begin

text \<open>
  The operations of \<open>src/pool.go\<close>: \<open>Pick\<close>, \<open>Observe\<close>, \<open>Guard\<close>, \<open>Resume\<close>, \<open>Reconfigure\<close>,
  \<open>Close\<close> and \<open>Status\<close>. Each returns its Go result and the pool it leaves behind.
\<close>

section \<open>Pick\<close>

definition candidate_present :: "schedulerRequest \<Rightarrow> account \<Rightarrow> bool" where
  "candidate_present req a \<longleftrightarrow>
     list_ex (\<lambda>c. cand_ID c = AuthID a \<and> cand_Status c \<noteq> ''disabled'') (req_Candidates req)"

definition pick_answer ::
  "'s pool \<Rightarrow> schedulerRequest \<Rightarrow> account \<Rightarrow> time \<Rightarrow> schedulerResponse result" where
  "pick_answer p req a now =
     (if candidate_present req a then Ok \<lparr>Handled = True, resp_AuthID = AuthID a\<rparr>
      else unavailable p ''current_not_in_host_candidates_or_result_pending'' now)"

text \<open>The first selection, when no account is current: it is saved before it is used.\<close>

definition ensure_current :: "'s stateStore \<Rightarrow> time \<Rightarrow> 's pool \<Rightarrow> unit result \<times> 's pool" where
  "ensure_current M now p =
     (if Current (p_state p) \<noteq> [] then (Ok (), p)
      else case chooseLocked p (Cursor (p_state p)) now of
        (Panic, p1) \<Rightarrow> (Panic, p1)
      | (Fail e, p1) \<Rightarrow> (Fail e, p1)
      | (Ok chosen, p1) \<Rightarrow>
          if \<not> chosen then (unavailable p1 ''all_accounts_exhausted_or_unavailable'' now, p1)
          else case saveLocked M p1 of (ok, p2) \<Rightarrow>
            (if ok then Ok () else unavailable p2 ''state_write_failed'' now, p2))"

text \<open>Fail over from a suspended or quarantined current account; nothing is saved here.\<close>

definition pick_failover ::
  "schedulerRequest \<Rightarrow> time \<Rightarrow> account \<Rightarrow> string \<Rightarrow> 's pool \<Rightarrow> schedulerResponse result \<times> 's pool"
where
  "pick_failover req now a reason p =
     (case chooseLocked p (Fingerprint a) now of
        (Panic, p1) \<Rightarrow> (Panic, p1)
      | (Fail e, p1) \<Rightarrow> (Fail e, p1)
      | (Ok chosen, p1) \<Rightarrow>
          if \<not> chosen then (unavailable p1 (''current_'' @ reason) now, p1)
          else let b = accountLocked p1 (Current (p_state p1))
               in case (blockedLocked p1 b now, b) of
                    (None, _) \<Rightarrow> (Panic, p1)
                  | (Some r, Some b') \<Rightarrow>
                      (if r = [] then pick_answer p1 req b' now
                       else unavailable p1 (''current_'' @ r) now, p1)
                  | (Some r, None) \<Rightarrow> (unavailable p1 (''current_'' @ r) now, p1))"

definition pick_current ::
  "schedulerRequest \<Rightarrow> time \<Rightarrow> 's pool \<Rightarrow> schedulerResponse result \<times> 's pool" where
  "pick_current req now p =
     (case accountLocked p (Current (p_state p)) of
        None \<Rightarrow> (unavailable p (''current_'' @ ''disabled'') now, p)
      | Some a \<Rightarrow>
          (case blockedLocked p (Some a) now of
             None \<Rightarrow> (Panic, p)
           | Some reason \<Rightarrow>
               if reason = [] then (pick_answer p req a now, p)
               else if reason = ''suspended'' \<or> reason = ''transient''
               then pick_failover req now a reason p
               else (unavailable p (''current_'' @ reason) now, p)))"

definition Pick ::
  "'s stateStore \<Rightarrow> time \<Rightarrow> schedulerRequest \<Rightarrow> 's pool \<Rightarrow> schedulerResponse result \<times> 's pool"
where
  "Pick M now req p =
     (if \<not> managedLocked p req then (Ok \<lparr>Handled = False, resp_AuthID = []\<rparr>, p)
      else if p_closed p then (unavailable p ''plugin_stopped'' now, p)
      else if p_fault p \<noteq> [] then (unavailable p (p_fault p) now, p)
      else case ensure_current M now p of
        (Panic, p1) \<Rightarrow> (Panic, p1)
      | (Fail e, p1) \<Rightarrow> (Fail e, p1)
      | (Ok _, p1) \<Rightarrow> pick_current req now p1)"

section \<open>Observe\<close>

text \<open>When the outcome happened: never later than now.\<close>

definition observed_at :: "time \<Rightarrow> usageRecord \<Rightarrow> time" where
  "observed_at now r =
     (let t = RequestedAt r + Latency r
      in if RequestedAt r = 0 \<or> Latency r < 0 \<or> now < t then now else t)"

text \<open>A record of a request that was sent before the results of the key count again.\<close>

definition stale_record :: "keyState \<Rightarrow> usageRecord \<Rightarrow> bool" where
  "stale_record k r \<longleftrightarrow>
     IgnoreBefore k \<noteq> 0 \<and> (RequestedAt r = 0 \<or> RequestedAt r < IgnoreBefore k)"

definition record_success :: "time \<Rightarrow> keyState \<Rightarrow> keyState" where
  "record_success observed k =
     (let k1 = k\<lparr>Success := Success k + 1\<rparr>
      in if LastSuccessAt k1 < observed then k1\<lparr>LastSuccessAt := observed\<rparr> else k1)"

text \<open>What a classified failure writes into the state of its key.\<close>

definition rate_limited :: "configuration \<Rightarrow> time \<Rightarrow> classification \<Rightarrow> keyState \<Rightarrow> keyState" where
  "rate_limited cfg observed c k =
     (let until = (if Until c = 0 then observed + RateFallback cfg else Until c);
          k1 = (if Until c = 0
                then k\<lparr>LastFailure := (LastFailure k)\<lparr>Until := until,
                       ResetSource := ''rate_limit_fallback'',
                       FallbackReason := ''no_valid_rate_reset''\<rparr>\<rparr>
                else k);
          k2 = (if RateLimitedUntil k1 < until then k1\<lparr>RateLimitedUntil := until\<rparr> else k1)
      in k2\<lparr>LastAction := ''rate_limited_without_failover''\<rparr>)"

definition quarantined :: "configuration \<Rightarrow> time \<Rightarrow> keyState \<Rightarrow> keyState" where
  "quarantined cfg observed k =
     (let until = observed + TransientFallback cfg
      in k\<lparr>TransientUntil := until,
           LastFailure := (LastFailure k)\<lparr>Until := until, ResetSource := ''transient_fallback'',
             FallbackReason := ''upstream_5xx_or_transport_failure''\<rparr>,
           LastAction := ''transient_failover''\<rparr>)"

definition fail_key ::
  "configuration \<Rightarrow> time \<Rightarrow> time \<Rightarrow> classification \<Rightarrow> keyState \<Rightarrow> keyState" where
  "fail_key cfg now observed c k0 =
     (let k = k0\<lparr>LastFailure := c, LastFailureAt := observed\<rparr>
      in if Kind c = ''quota'' then
           (if now < Until c
            then k\<lparr>ExhaustedUntil := Until c, IgnoreBefore := Until c,
                   LastAction := ''quota_exhausted''\<rparr>
            else k)
         else if Kind c = ''auth'' then
           k\<lparr>SuspendedUntil := observed + AuthSuspension cfg, LastAction := ''auth_suspended''\<rparr>
         else if Kind c = ''rate_limit'' then rate_limited cfg observed c k
         else if Kind c = ''transient'' then quarantined cfg observed k
         else k\<lparr>LastAction := ''failure_without_failover''\<rparr>)"

text \<open>The failures that make a current account give way to the next one.\<close>

definition switches :: "time \<Rightarrow> classification \<Rightarrow> bool" where
  "switches now c \<longleftrightarrow>
     Kind c = ''quota'' \<and> now < Until c \<or> Kind c = ''auth'' \<or> Kind c = ''transient''"

definition advance :: "string \<Rightarrow> time \<Rightarrow> 's pool \<Rightarrow> unit result \<times> 's pool" where
  "advance hash now p =
     (if Current (p_state p) \<noteq> hash then (Ok (), p)
      else case chooseLocked (set_cursor hash p) hash now of
        (Ok _, p1) \<Rightarrow> (Ok (), p1)
      | (Fail e, p1) \<Rightarrow> (Fail e, p1)
      | (Panic, p1) \<Rightarrow> (Panic, p1))"

definition observe_failure ::
  "'s stateStore \<Rightarrow> golib \<Rightarrow> time \<Rightarrow> usageRecord \<Rightarrow> string \<Rightarrow> keyState \<Rightarrow> 's pool
   \<Rightarrow> unit result \<times> 's pool" where
  "observe_failure M G now r hash k0 p =
     (let k = k0\<lparr>Failed := Failed k0 + 1\<rparr>; observed = observed_at now r
      in if stale_record k r then saved M (put_key hash k p)
         else let c = classify G (StatusCode r) (ResponseHeaders r) (Body r) observed
                        (Fallback (p_cfg p))
              in if observed < LastFailureAt k then saved M (put_key hash k p)
                 else let p1 = put_key hash (fail_key (p_cfg p) now observed c k) p
                      in if switches now c
                         then case advance hash now p1 of
                             (Panic, p2) \<Rightarrow> (Panic, p2)
                           | (Fail e, p2) \<Rightarrow> (Fail e, p2)
                           | (Ok _, p2) \<Rightarrow> saved M p2
                         else saved M p1)"

definition Observe ::
  "'s stateStore \<Rightarrow> golib \<Rightarrow> time \<Rightarrow> usageRecord \<Rightarrow> 's pool \<Rightarrow> unit result \<times> 's pool" where
  "Observe M G now r p =
     (if p_closed p then (Ok (), p)
      else if p_store p = None then (Fail ErrState, p)
      else case fmlookup (p_byAuthID p) (rec_AuthID r) of
        None \<Rightarrow> (Ok (), p)
      | Some hash \<Rightarrow>
          if rec_BaseURL r \<noteq> [] \<and> TrimRightChar (CHR ''/'') (rec_BaseURL r) \<noteq> zenBaseURL
          then (Ok (), p)
          else case key_of p hash of
            None \<Rightarrow> (Ok (), p)
          | Some k \<Rightarrow>
              if \<not> rec_Failed r
              then saved M (put_key hash (record_success (observed_at now r) k) p)
              else observe_failure M G now r hash k p)"

section \<open>Guard\<close>

text \<open>The loop of \<open>Guard\<close> over the accounts when none is current.\<close>

fun some_unblocked :: "'s pool \<Rightarrow> time \<Rightarrow> account list \<Rightarrow> bool option" where
  "some_unblocked p now [] = Some False"
| "some_unblocked p now (a # as) =
     (case blockedLocked p (Some a) now of
        None \<Rightarrow> None
      | Some r \<Rightarrow> if r = [] then Some True else some_unblocked p now as)"

definition guard_current :: "time \<Rightarrow> 's pool \<Rightarrow> unit result \<times> 's pool" where
  "guard_current now p =
     (case blockedLocked p (accountLocked p (Current (p_state p))) now of
        None \<Rightarrow> (Panic, p)
      | Some r \<Rightarrow>
          if r = [] then (Ok (), p)
          else if r = ''suspended'' \<or> r = ''transient'' then
            (case chooseLocked p (Current (p_state p)) now of
               (Panic, p1) \<Rightarrow> (Panic, p1)
             | (Fail e, p1) \<Rightarrow> (Fail e, p1)
             | (Ok chosen, p1) \<Rightarrow>
                 (if chosen then Ok () else unavailable p1 (''current_'' @ r) now, p1))
          else (unavailable p (''current_'' @ r) now, p))"

definition Guard ::
  "golib \<Rightarrow> time \<Rightarrow> string \<Rightarrow> header \<Rightarrow> 's pool \<Rightarrow> unit result \<times> 's pool" where
  "Guard G now model headers p =
     (if Accounts (p_cfg p) = [] \<or> \<not> managedModel (p_cfg p) model then (Ok (), p)
      else if p_closed p then (unavailable p ''plugin_stopped'' now, p)
      else if p_fault p \<noteq> [] then (unavailable p (p_fault p) now, p)
      else if validateForwarding G (p_cfg p) headers \<noteq> None
      then (unavailable p ''required_session_or_correlation_header_not_configured'' now, p)
      else if Current (p_state p) \<noteq> [] then guard_current now p
      else (case some_unblocked p now (Accounts (p_cfg p)) of
              None \<Rightarrow> Panic
            | Some True \<Rightarrow> Ok ()
            | Some False \<Rightarrow> unavailable p ''all_accounts_exhausted_or_unavailable'' now, p))"

section \<open>Resume, Reconfigure, Close\<close>

definition resume_key :: "time \<Rightarrow> keyState \<Rightarrow> keyState" where
  "resume_key now k =
     k\<lparr>ExhaustedUntil := 0, SuspendedUntil := 0, RateLimitedUntil := 0, TransientUntil := 0,
       IgnoreBefore := now, LastAction := ''manual_resume''\<rparr>"

definition Resume ::
  "'s stateStore \<Rightarrow> time \<Rightarrow> string \<Rightarrow> string \<Rightarrow> 's pool \<Rightarrow> unit result \<times> 's pool" where
  "Resume M now label confirm p =
     (if confirm \<noteq> ''clear-cooldown''
      then (Fail (ErrText ''explicit confirm=clear-cooldown is required''), p)
      else if p_closed p then (Fail (ErrText ''plugin stopped''), p)
      else case find (\<lambda>a. Label a = label) (Accounts (p_cfg p)) of
        None \<Rightarrow> (Fail (ErrText ''unknown account label''), p)
      | Some a \<Rightarrow>
          if Disabled a
          then (Fail (ErrText ''account is disabled in configuration; resume does not enable it''), p)
          else case key_of p (Fingerprint a) of
            None \<Rightarrow> (Panic, p)
          | Some k \<Rightarrow> saved M (put_key (Fingerprint a) (resume_key now k) p))"

definition Reconfigure ::
  "'s stateStore \<Rightarrow> time \<Rightarrow> configuration \<Rightarrow> 's pool \<Rightarrow> unit result \<times> 's pool" where
  "Reconfigure M now cfg p =
     (if p_store p = None then (Fail ErrState, p)
      else if StateDir cfg \<noteq> StateDir (p_cfg p)
      then (Fail (ErrText ''changing state-dir requires a host restart''), p)
      else let p1 = (installAccountsLocked cfg p)\<lparr>p_fault := []\<rparr>;
               a = accountLocked p1 (Current (p_state p1))
           in if a = None \<or> Disabled (the a)
              then case chooseLocked (set_current [] p1) (Cursor (p_state p1)) now of
                  (Panic, p2) \<Rightarrow> (Panic, p2)
                | (Fail e, p2) \<Rightarrow> (Fail e, p2)
                | (Ok _, p2) \<Rightarrow> saved M p2
              else saved M p1)"

definition Close :: "'s stateStore \<Rightarrow> 's pool \<Rightarrow> unit result \<times> 's pool" where
  "Close M p =
     (if p_closed p then (Ok (), p)
      else let p1 = p\<lparr>p_closed := True\<rparr>
           in case p_store p1 of
             None \<Rightarrow> (Ok (), p1)
           | Some _ \<Rightarrow>
               (case saveLocked M p1 of (ok, p2) \<Rightarrow>
                  (case p_store p2 of
                     None \<Rightarrow> (Ok (), p2)
                   | Some s \<Rightarrow>
                       (case CloseStore M s of (cok, s') \<Rightarrow>
                          (if \<not> ok then Fail ErrState else if \<not> cok then Fail ErrClose else Ok (),
                           p2\<lparr>p_store := Some s'\<rparr>)))))"

section \<open>Status\<close>

record accountStatus =
  st_Label :: string
  st_Current :: bool
  st_ProxyPresent :: bool
  st_ProxyLabel :: string
  st_State :: string
  CooldownUntil :: time
  st_SuspendedUntil :: time
  st_RateLimitedUntil :: time
  st_LastFailure :: classification
  st_LastFailureAt :: time
  st_LastSuccessAt :: time
  st_LastAction :: string
  st_Success :: "64 word"
  st_Failed :: "64 word"

record poolStatus =
  PluginID :: string
  st_Version :: string
  CurrentLabel :: string
  Mode :: string
  st_Accounts :: "accountStatus list"
  StorageOK :: bool
  Fault :: string
  st_HostCoolingDisabled :: bool
  Observations :: string

definition status_word :: "string \<Rightarrow> string \<Rightarrow> string" where
  "status_word fault r =
     (if fault \<noteq> [] then ''unavailable''
      else if r = [] then ''healthy''
      else if r = ''disabled'' \<or> r = ''rate_limited'' \<or> r = ''transient'' then ''unavailable''
      else r)"

definition account_status :: "'s pool \<Rightarrow> time \<Rightarrow> account \<Rightarrow> accountStatus option" where
  "account_status p now a =
     (case (blockedLocked p (Some a) now, key_of p (Fingerprint a)) of
        (Some r, Some k) \<Rightarrow>
          Some \<lparr>st_Label = Label a, st_Current = (Current (p_state p) = Fingerprint a),
            st_ProxyPresent = ProxyPresent a, st_ProxyLabel = ProxyLabel a,
            st_State = status_word (p_fault p) r, CooldownUntil = ExhaustedUntil k,
            st_SuspendedUntil = SuspendedUntil k, st_RateLimitedUntil = RateLimitedUntil k,
            st_LastFailure = LastFailure k, st_LastFailureAt = LastFailureAt k,
            st_LastSuccessAt = LastSuccessAt k, st_LastAction = LastAction k,
            st_Success = Success k, st_Failed = Failed k\<rparr>
      | _ \<Rightarrow> None)"

fun account_statuses :: "'s pool \<Rightarrow> time \<Rightarrow> account list \<Rightarrow> accountStatus list option" where
  "account_statuses p now [] = Some []"
| "account_statuses p now (a # as) =
     (case account_status p now a of
        None \<Rightarrow> None
      | Some s \<Rightarrow> map_option (\<lambda>ss. s # ss) (account_statuses p now as))"

text \<open>The label of the last account whose fingerprint is the current one.\<close>

definition current_label :: "'s pool \<Rightarrow> string" where
  "current_label p =
     fold (\<lambda>a l. if Current (p_state p) = Fingerprint a then Label a else l)
       (Accounts (p_cfg p)) []"

definition Status :: "'s pool \<Rightarrow> time \<Rightarrow> poolStatus result" where
  "Status p now =
     (case account_statuses p now (Accounts (p_cfg p)) of
        None \<Rightarrow> Panic
      | Some ss \<Rightarrow>
          Ok \<lparr>PluginID = pluginID, st_Version = pluginVersion, CurrentLabel = current_label p,
              Mode = ''drain-then-switch'', st_Accounts = ss, StorageOK = (p_fault p = []),
              Fault = p_fault p,
              st_HostCoolingDisabled = HostCoolingDisabled (p_cfg p),
              Observations = ''production usage events; no quota polling''\<rparr>)"

end
