(* ===== verification/Zen_Choose.thy ===== *)
theory Zen_Choose
  imports Zen_Pool_Ops
begin

text \<open>
  Facts about the helpers of the pool: what each write leaves unchanged, when a lookup
  cannot meet a nil pointer, and that the search for the next account is the search
  through the configured order, rotated to begin after the given account.
\<close>

section \<open>Frames\<close>

lemma put_key_simps [simp]:
  "p_cfg (put_key h k p) = p_cfg p" "p_byAuthID (put_key h k p) = p_byAuthID p"
  "p_store (put_key h k p) = p_store p" "p_fault (put_key h k p) = p_fault p"
  "p_closed (put_key h k p) = p_closed p"
  "Current (p_state (put_key h k p)) = Current (p_state p)"
  "Cursor (p_state (put_key h k p)) = Cursor (p_state p)"
  "Version (p_state (put_key h k p)) = Version (p_state p)"
  "Keys (p_state (put_key h k p)) = fmupd h k (Keys (p_state p))"
  by (simp_all add: put_key_def)

lemma set_current_simps [simp]:
  "p_cfg (set_current h p) = p_cfg p" "p_byAuthID (set_current h p) = p_byAuthID p"
  "p_store (set_current h p) = p_store p" "p_fault (set_current h p) = p_fault p"
  "p_closed (set_current h p) = p_closed p"
  "Current (p_state (set_current h p)) = h"
  "Cursor (p_state (set_current h p)) = Cursor (p_state p)"
  "Version (p_state (set_current h p)) = Version (p_state p)"
  "Keys (p_state (set_current h p)) = Keys (p_state p)"
  by (simp_all add: set_current_def)

lemma set_cursor_simps [simp]:
  "p_cfg (set_cursor h p) = p_cfg p" "p_byAuthID (set_cursor h p) = p_byAuthID p"
  "p_store (set_cursor h p) = p_store p" "p_fault (set_cursor h p) = p_fault p"
  "p_closed (set_cursor h p) = p_closed p"
  "Current (p_state (set_cursor h p)) = Current (p_state p)"
  "Cursor (p_state (set_cursor h p)) = h"
  "Version (p_state (set_cursor h p)) = Version (p_state p)"
  "Keys (p_state (set_cursor h p)) = Keys (p_state p)"
  by (simp_all add: set_cursor_def)

lemma key_of_put_key [simp]:
  "key_of (put_key h k p) h' = (if h' = h then Some k else key_of p h')"
  by (simp add: key_of_def)

lemma key_of_frame [simp]:
  "key_of (set_current h p) h' = key_of p h'" "key_of (set_cursor h p) h' = key_of p h'"
  by (simp_all add: key_of_def)

lemma accountLocked_frame [simp]:
  "accountLocked (put_key h k p) h' = accountLocked p h'"
  "accountLocked (set_current h p) h' = accountLocked p h'"
  "accountLocked (set_cursor h p) h' = accountLocked p h'"
  by (simp_all add: accountLocked_def)

lemma accountLocked_SomeD:
  "accountLocked p h = Some a \<Longrightarrow> a \<in> set (Accounts (p_cfg p)) \<and> Fingerprint a = h"
  by (auto simp: accountLocked_def dest: find_SomeD)

lemma accountLocked_None:
  "accountLocked p h = None \<longleftrightarrow> (\<forall>a\<in>set (Accounts (p_cfg p)). Fingerprint a \<noteq> h)"
  by (simp add: accountLocked_def find_eq_None)

lemma has_account_iff: "has_account cfg h \<longleftrightarrow> (\<exists>a\<in>set (Accounts cfg). Fingerprint a = h)"
  by (simp add: has_account_def list_ex_iff)

text \<open>Saving touches the store and the fault only.\<close>

lemma saveLocked_frame:
  assumes "saveLocked M p = (ok, p')"
  shows "p_cfg p' = p_cfg p" "p_state p' = p_state p" "p_byAuthID p' = p_byAuthID p"
    "p_closed p' = p_closed p" "p_store p' = None \<longleftrightarrow> p_store p = None"
  using assms by (auto simp: saveLocked_def Let_def split: option.splits prod.splits if_splits)

lemma saved_frame:
  assumes "saved M p = (r, p')"
  shows "p_cfg p' = p_cfg p" "p_state p' = p_state p" "p_byAuthID p' = p_byAuthID p"
    "p_closed p' = p_closed p" "p_store p' = None \<longleftrightarrow> p_store p = None"
  using assms by (auto simp: saved_def split: prod.splits dest: saveLocked_frame)

lemma saved_no_panic [simp]: "fst (saved M p) \<noteq> Panic"
  by (simp add: saved_def split: prod.splits)

lemma saved_snd_simps [simp]:
  "p_cfg (snd (saved M p)) = p_cfg p" "p_state (snd (saved M p)) = p_state p"
  "p_byAuthID (snd (saved M p)) = p_byAuthID p" "p_closed (snd (saved M p)) = p_closed p"
  using saved_frame [of M p "fst (saved M p)" "snd (saved M p)"] by auto

section \<open>No nil key state\<close>

definition keys_ok :: "'s pool \<Rightarrow> bool" where
  "keys_ok p \<longleftrightarrow> list_all (\<lambda>a. key_of p (Fingerprint a) \<noteq> None) (Accounts (p_cfg p))"

text \<open>The state of an account's key, and whether the account may be chosen.\<close>

definition state_of :: "'s pool \<Rightarrow> account \<Rightarrow> keyState" where
  "state_of p a = (case key_of p (Fingerprint a) of Some k \<Rightarrow> k | None \<Rightarrow> zero_key)"

definition eligible :: "'s pool \<Rightarrow> time \<Rightarrow> account \<Rightarrow> bool" where
  "eligible p now a \<longleftrightarrow> \<not> Disabled a \<and> block_reason (state_of p a) now = []"

lemma block_reason_cases:
  "block_reason k now \<in> {[], ''exhausted'', ''suspended'', ''rate_limited'', ''transient''}"
  by (simp add: block_reason_def)

lemma block_reason_Nil:
  "block_reason k now = [] \<longleftrightarrow>
     ExhaustedUntil k \<le> now \<and> SuspendedUntil k \<le> now \<and> RateLimitedUntil k \<le> now
     \<and> TransientUntil k \<le> now"
  by (auto simp: block_reason_def)

lemma eligible_iff:
  "eligible p now a \<longleftrightarrow>
     \<not> Disabled a \<and> ExhaustedUntil (state_of p a) \<le> now \<and> SuspendedUntil (state_of p a) \<le> now
     \<and> RateLimitedUntil (state_of p a) \<le> now \<and> TransientUntil (state_of p a) \<le> now"
  by (simp add: eligible_def block_reason_Nil)

lemma keys_okD:
  "keys_ok p \<Longrightarrow> a \<in> set (Accounts (p_cfg p)) \<Longrightarrow> key_of p (Fingerprint a) = Some (state_of p a)"
  by (auto simp: keys_ok_def list_all_iff state_of_def)

lemma keys_ok_frame [simp]:
  "keys_ok (set_current h p) \<longleftrightarrow> keys_ok p" "keys_ok (set_cursor h p) \<longleftrightarrow> keys_ok p"
  by (simp_all add: keys_ok_def)

lemma keys_ok_put_key: "keys_ok p \<Longrightarrow> keys_ok (put_key h k p)"
  by (auto simp: keys_ok_def list_all_iff)

lemma blockedLocked_account:
  assumes "keys_ok p" "a \<in> set (Accounts (p_cfg p))"
  shows "blockedLocked p (Some a) now =
    Some (if Disabled a then ''disabled'' else block_reason (state_of p a) now)"
  using assms by (simp add: blockedLocked_def keys_okD)

lemma blockedLocked_empty:
  assumes "keys_ok p" "a \<in> set (Accounts (p_cfg p))"
  shows "blockedLocked p (Some a) now = Some [] \<longleftrightarrow> eligible p now a"
  using assms by (simp add: blockedLocked_account eligible_def)

lemma blockedLocked_current_total:
  "keys_ok p \<Longrightarrow> blockedLocked p (accountLocked p h) now \<noteq> None"
  by (cases "accountLocked p h")
    (auto simp: blockedLocked_def dest!: accountLocked_SomeD keys_okD)

lemma eligible_frame [simp]:
  "eligible (set_current h p) now a = eligible p now a"
  "eligible (set_cursor h p) now a = eligible p now a"
  by (simp_all add: eligible_def state_of_def)

lemma blockedLocked_frame [simp]:
  "blockedLocked (set_current h p) a now = blockedLocked p a now"
  "blockedLocked (set_cursor h p) a now = blockedLocked p a now"
  by (simp_all add: blockedLocked_def split: option.split)

section \<open>The search for the next account\<close>

text \<open>The order in which the search visits the accounts.\<close>

definition search_order :: "'s pool \<Rightarrow> string \<Rightarrow> account list" where
  "search_order p after =
     rotate (start_index after (Accounts (p_cfg p))) (Accounts (p_cfg p))"

definition next_eligible :: "'s pool \<Rightarrow> string \<Rightarrow> time \<Rightarrow> account option" where
  "next_eligible p after now = find (eligible p now) (search_order p after)"

definition make_current :: "account \<Rightarrow> 's pool \<Rightarrow> 's pool" where
  "make_current a p = set_cursor (Fingerprint a) (set_current (Fingerprint a) p)"

lemma make_current_simps [simp]:
  "p_cfg (make_current a p) = p_cfg p" "p_byAuthID (make_current a p) = p_byAuthID p"
  "p_store (make_current a p) = p_store p" "p_fault (make_current a p) = p_fault p"
  "p_closed (make_current a p) = p_closed p"
  "Current (p_state (make_current a p)) = Fingerprint a"
  "Cursor (p_state (make_current a p)) = Fingerprint a"
  "Keys (p_state (make_current a p)) = Keys (p_state p)"
  "key_of (make_current a p) h = key_of p h"
  "accountLocked (make_current a p) h = accountLocked p h"
  "keys_ok (make_current a p) = keys_ok p"
  "eligible (make_current a p) now b = eligible p now b"
  "blockedLocked (make_current a p) c now = blockedLocked p c now"
  by (simp_all add: make_current_def)

lemma set_search_order [simp]: "set (search_order p after) = set (Accounts (p_cfg p))"
  by (simp add: search_order_def)

lemma search_order_nth:
  "j < length (Accounts (p_cfg p)) \<Longrightarrow>
   search_order p after ! j =
     Accounts (p_cfg p) ! ((start_index after (Accounts (p_cfg p)) + j) mod length (Accounts (p_cfg p)))"
  by (simp add: search_order_def nth_rotate)

text \<open>
  The same order without indices: what follows the first account with the fingerprint,
  then what precedes it, then that account.
\<close>

definition visit_order :: "account list \<Rightarrow> string \<Rightarrow> account list" where
  "visit_order accs h =
     (case dropWhile (\<lambda>a. Fingerprint a \<noteq> h) accs of
        [] \<Rightarrow> accs
      | a # rest \<Rightarrow> rest @ takeWhile (\<lambda>a. Fingerprint a \<noteq> h) accs @ [a])"

lemma start_after_length:
  "start_after i h accs =
     (if h \<in> Fingerprint ` set accs
      then Some (i + Suc (length (takeWhile (\<lambda>a. Fingerprint a \<noteq> h) accs))) else None)"
  by (induction accs arbitrary: i) auto

lemma search_order_visit: "search_order p h = visit_order (Accounts (p_cfg p)) h"
proof (cases "h \<in> Fingerprint ` set (Accounts (p_cfg p))")
  case False
  then have "dropWhile (\<lambda>a. Fingerprint a \<noteq> h) (Accounts (p_cfg p)) = []" by auto
  then have "visit_order (Accounts (p_cfg p)) h = Accounts (p_cfg p)"
    by (simp only: visit_order_def list.case)
  with False show ?thesis
    by (simp add: search_order_def start_index_def start_after_length)
next
  case True
  let ?as = "Accounts (p_cfg p)" and ?P = "\<lambda>a. Fingerprint a \<noteq> h"
  let ?t = "takeWhile ?P ?as"
  from True have "dropWhile ?P ?as \<noteq> []" by auto
  then obtain a rest where d: "dropWhile ?P ?as = a # rest" by (cases "dropWhile ?P ?as") auto
  have as: "?as = ?t @ a # rest" using takeWhile_dropWhile_id [of ?P ?as] d by simp
  have "rotate (Suc (length ?t) mod length ?as) ?as = rotate (Suc (length ?t)) ?as"
    by (metis rotate_conv_mod)
  also have "\<dots> = rotate (length (?t @ [a])) ((?t @ [a]) @ rest)" using as by simp
  also have "\<dots> = rest @ ?t @ [a]" by (simp only: rotate_append)
  finally show ?thesis
    using True d by (simp add: search_order_def start_index_def start_after_length visit_order_def)
qed

lemma choose_from_spec:
  assumes ok: "keys_ok p" and j: "j + n = length (Accounts (p_cfg p))"
  shows "choose_from p now (start_index after (Accounts (p_cfg p))) j n =
    (case find (eligible p now) (drop j (search_order p after)) of
       Some a \<Rightarrow> (Ok True, make_current a p)
     | None \<Rightarrow> (Ok False, set_current [] p))"
  using j
proof (induction n arbitrary: j)
  case 0
  then show ?case by (simp add: search_order_def)
next
  case (Suc n)
  let ?as = "Accounts (p_cfg p)" and ?s = "start_index after (Accounts (p_cfg p))"
  let ?a = "?as ! ((?s + j) mod length ?as)"
  from Suc.prems have lt: "j < length ?as" by simp
  then have "(?s + j) mod length ?as < length ?as" by (intro mod_less_divisor) linarith
  then have "?a \<in> set ?as" by (rule nth_mem)
  then have blocked: "blockedLocked p (Some ?a) now = Some [] \<longleftrightarrow> eligible p now ?a"
      "blockedLocked p (Some ?a) now \<noteq> None"
    by (rule blockedLocked_empty [OF ok], simp add: blockedLocked_account [OF ok])
  have drop: "drop j (search_order p after) = ?a # drop (Suc j) (search_order p after)"
    using lt by (simp add: Cons_nth_drop_Suc [symmetric] search_order_nth search_order_def nth_rotate)
  from Suc.IH [of "Suc j"] Suc.prems blocked show ?case
    by (auto simp: drop Let_def make_current_def split: option.splits)
qed

lemma chooseLocked_spec:
  assumes "keys_ok p"
  shows "chooseLocked p after now =
    (if Accounts (p_cfg p) = [] then (Ok False, p)
     else case next_eligible p after now of
       Some a \<Rightarrow> (Ok True, make_current a p)
     | None \<Rightarrow> (Ok False, set_current [] p))"
  using assms choose_from_spec [of p 0 "length (Accounts (p_cfg p))" now after]
  by (simp add: chooseLocked_def next_eligible_def)

lemma next_eligible_SomeD:
  "next_eligible p after now = Some a \<Longrightarrow> a \<in> set (Accounts (p_cfg p)) \<and> eligible p now a"
  by (auto simp: next_eligible_def dest: find_SomeD)

lemma next_eligible_None:
  "next_eligible p after now = None \<longleftrightarrow> (\<forall>a\<in>set (Accounts (p_cfg p)). \<not> eligible p now a)"
  by (simp add: next_eligible_def find_eq_None)

lemma chooseLocked_cases:
  assumes "keys_ok p"
  obtains a where "next_eligible p after now = Some a"
      "chooseLocked p after now = (Ok True, make_current a p)"
      "a \<in> set (Accounts (p_cfg p))" "eligible p now a"
  | "\<forall>a\<in>set (Accounts (p_cfg p)). \<not> eligible p now a"
      "chooseLocked p after now =
        (Ok False, if Accounts (p_cfg p) = [] then p else set_current [] p)"
proof (cases "next_eligible p after now")
  case None
  then have "\<forall>a\<in>set (Accounts (p_cfg p)). \<not> eligible p now a"
    by (simp only: next_eligible_None)
  moreover from None assms have "chooseLocked p after now =
      (Ok False, if Accounts (p_cfg p) = [] then p else set_current [] p)"
    by (simp add: chooseLocked_spec)
  ultimately show ?thesis by (rule that(2))
next
  case (Some a)
  then have a: "a \<in> set (Accounts (p_cfg p))" "eligible p now a"
    by (simp_all add: next_eligible_SomeD)
  then have "Accounts (p_cfg p) \<noteq> []" by auto
  with Some assms have "chooseLocked p after now = (Ok True, make_current a p)"
    by (simp add: chooseLocked_spec)
  with Some a show ?thesis by (intro that(1))
qed

end
