(* ===== verification/Zen_Pool_Facts.thy ===== *)
theory Zen_Pool_Facts
  imports Zen_Choose
begin

text \<open>
  The operations of the pool, analysed: the well-formedness every operation keeps, the
  absence of nil dereferences under it, and the cases of \<open>Pick\<close> and \<open>Observe\<close> that the
  properties are read off from.
\<close>

section \<open>The aggregate error\<close>

lemma tally_total:
  "keys_ok p \<Longrightarrow> set as \<subseteq> set (Accounts (p_cfg p)) \<Longrightarrow>
   \<exists>e'. tally p now as e = Some e' \<and> err_Reason e' = err_Reason e"
proof (induction as arbitrary: e)
  case (Cons a as)
  then have a: "a \<in> set (Accounts (p_cfg p))" by simp
  have r: "err_Reason (fold (retry_min now) us (count_reason r e)) = err_Reason e" for us r
    by (induction us arbitrary: e rule: rev_induct) (auto simp: retry_min_def count_reason_def)
  from Cons.IH Cons.prems
  have *: "\<exists>e'. tally p now as (fold (retry_min now) us (count_reason rr e)) = Some e'
      \<and> err_Reason e' = err_Reason e" for us rr
    by (metis r set_subset_Cons subset_trans)
  obtain rr where "blockedLocked p (Some a) now = Some rr" "key_of p (Fingerprint a) = Some (state_of p a)"
    using Cons.prems(1) a by (simp add: blockedLocked_account keys_okD)
  with * show ?case by (simp del: fold_simps fold.simps)
qed simp

lemma unavailableLocked_total:
  "keys_ok p \<Longrightarrow> \<exists>e. unavailableLocked p reason now = Some e \<and> err_Reason e = reason"
  unfolding unavailableLocked_def
  using tally_total [of p "Accounts (p_cfg p)" now
      "\<lparr>err_Reason = reason, err_Eligible = 0, err_Exhausted = 0, err_Suspended = 0,
        err_Unavailable = 0, RetryAt = 0\<rparr>"] by simp

lemma unavailable_Fail:
  "keys_ok p \<Longrightarrow> \<exists>e. unavailable p reason now = Fail (Unavailable e) \<and> err_Reason e = reason"
  using unavailableLocked_total [of p reason now] by (auto simp: unavailable_def)

lemma unavailable_not_Ok [simp]: "unavailable p reason now \<noteq> Ok x"
  by (simp add: unavailable_def split: option.split)

lemma Ok_not_unavailable [simp]: "Ok x \<noteq> unavailable p reason now"
  using unavailable_not_Ok by metis

lemma unavailable_not_Panic [simp]: "keys_ok p \<Longrightarrow> unavailable p reason now \<noteq> Panic"
  by (metis outcome.distinct(5) unavailable_Fail)

section \<open>Well-formed pools\<close>

definition auth_ok :: "'s pool \<Rightarrow> bool" where
  "auth_ok p \<longleftrightarrow>
     fmpred (\<lambda>_. has_account (p_cfg p)) (p_byAuthID p)"

definition current_ok :: "'s pool \<Rightarrow> bool" where
  "current_ok p \<longleftrightarrow> Current (p_state p) = [] \<or> has_account (p_cfg p) (Current (p_state p))"

definition wf_pool :: "'s pool \<Rightarrow> bool" where
  "wf_pool p \<longleftrightarrow> keys_ok p \<and> auth_ok p \<and> current_ok p"

lemma wf_poolD [dest]:
  assumes "wf_pool p"
  shows "keys_ok p" "auth_ok p" "current_ok p"
  using assms by (simp_all add: wf_pool_def)

lemma auth_okD: "auth_ok p \<Longrightarrow> fmlookup (p_byAuthID p) i = Some h \<Longrightarrow> has_account (p_cfg p) h"
  by (auto simp: auth_ok_def)

lemma wf_pool_cong:
  assumes "p_cfg q = p_cfg p" "p_state q = p_state p" "p_byAuthID q = p_byAuthID p"
  shows "wf_pool q \<longleftrightarrow> wf_pool p"
  using assms by (simp add: wf_pool_def keys_ok_def auth_ok_def current_ok_def key_of_def)

lemma wf_pool_put_key: "wf_pool p \<Longrightarrow> wf_pool (put_key h k p)"
  by (simp add: wf_pool_def keys_ok_put_key auth_ok_def current_ok_def)

lemma wf_pool_set_cursor [simp]: "wf_pool (set_cursor h p) \<longleftrightarrow> wf_pool p"
  by (simp add: wf_pool_def auth_ok_def current_ok_def)

lemma wf_pool_clear [intro]: "wf_pool p \<Longrightarrow> wf_pool (set_current [] p)"
  by (simp add: wf_pool_def auth_ok_def current_ok_def)

lemma wf_pool_make_current:
  "wf_pool p \<Longrightarrow> a \<in> set (Accounts (p_cfg p)) \<Longrightarrow> wf_pool (make_current a p)"
  by (auto simp: wf_pool_def auth_ok_def current_ok_def has_account_iff)

lemma wf_pool_saved: "saved M p = (r, q) \<Longrightarrow> wf_pool q \<longleftrightarrow> wf_pool p"
  by (rule wf_pool_cong) (auto dest: saved_frame)

lemma wf_pool_snd_saved [simp]: "wf_pool (snd (saved M p)) \<longleftrightarrow> wf_pool p"
  by (rule wf_pool_cong) auto

lemma wf_pool_saveLocked: "saveLocked M p = (ok, q) \<Longrightarrow> wf_pool q \<longleftrightarrow> wf_pool p"
  by (rule wf_pool_cong) (auto dest: saveLocked_frame)

lemma saved_spec:
  assumes "saved M z = (x, y)" "wf_pool z"
  shows "wf_pool y \<and> x \<noteq> Panic \<and> p_cfg y = p_cfg z \<and> p_closed y = p_closed z"
  using assms saved_frame [OF assms(1)] saved_no_panic [of M z] wf_pool_saved [OF assms(1)] by auto

lemma chooseLocked_wf:
  assumes "wf_pool p" "chooseLocked p after now = (r, q)"
  shows "wf_pool q \<and> r \<noteq> Panic \<and> (\<forall>e. r \<noteq> Fail e)"
proof -
  from assms(1) have ok: "keys_ok p" by (rule wf_poolD)
  show ?thesis
    using assms by (cases rule: chooseLocked_cases [OF ok, of after now])
      (auto simp: wf_pool_make_current)
qed

subsection \<open>Installing a configuration makes the pool well-formed\<close>

lemma fold_add_key_lookup:
  "fmlookup (fold add_key as m) h =
     (case fmlookup m h of Some k \<Rightarrow> Some k
      | None \<Rightarrow> if list_ex (\<lambda>a. Fingerprint a = h) as then Some zero_key else None)"
  by (induction as arbitrary: m) (auto split: option.splits)

lemma installAccountsLocked_simps [simp]:
  "p_cfg (installAccountsLocked cfg p) = cfg"
  "Current (p_state (installAccountsLocked cfg p)) = Current (p_state p)"
  "Cursor (p_state (installAccountsLocked cfg p)) = Cursor (p_state p)"
  "Version (p_state (installAccountsLocked cfg p)) = Version (p_state p)"
  "p_store (installAccountsLocked cfg p) = p_store p"
  "p_fault (installAccountsLocked cfg p) = p_fault p"
  "p_closed (installAccountsLocked cfg p) = p_closed p"
  by (simp_all add: installAccountsLocked_def Let_def)

lemma key_of_install:
  "key_of (installAccountsLocked cfg p) h =
     (case key_of p h of Some k \<Rightarrow> Some k
      | None \<Rightarrow> if has_account cfg h then Some zero_key else None)"
  by (simp add: key_of_def installAccountsLocked_def Let_def fold_add_key_lookup has_account_def)

lemma keys_ok_install: "keys_ok (installAccountsLocked cfg p)"
  by (auto simp: keys_ok_def list_all_iff key_of_install has_account_iff split: option.split)

lemma auth_ok_install: "auth_ok (installAccountsLocked cfg p)"
  by (auto simp: auth_ok_def installAccountsLocked_def Let_def intro!: fmpredI split: if_splits)

lemma auth_ok_frame:
  "p_cfg q = p_cfg p \<Longrightarrow> p_byAuthID q = p_byAuthID p \<Longrightarrow> auth_ok q \<longleftrightarrow> auth_ok p"
  by (simp add: auth_ok_def)

lemma accountLocked_has: "accountLocked p h = None \<longleftrightarrow> \<not> has_account (p_cfg p) h"
  by (simp add: accountLocked_None has_account_iff)

text \<open>The pool \<open>newPool\<close> returns is the one it installed, without a current account that is gone.\<close>

definition opened :: "configuration \<Rightarrow> 's \<Rightarrow> persistedState \<Rightarrow> 's pool" where
  "opened cfg st s =
     installAccountsLocked cfg
       \<lparr>p_cfg = cfg, p_state = s, p_byAuthID = fmempty, p_store = Some st, p_fault = [],
        p_closed = False\<rparr>"

lemma newPool_opened:
  "newPool M cfg st =
     map_option (\<lambda>s. if Current s \<noteq> [] \<and> \<not> has_account cfg (Current s)
                     then set_current [] (opened cfg st s) else opened cfg st s) (Load M st)"
  by (simp add: newPool_def Let_def opened_def accountLocked_has split: option.split)

lemma opened_ok: "keys_ok (opened cfg st s)" "auth_ok (opened cfg st s)"
  by (simp_all add: opened_def keys_ok_install auth_ok_install)

lemma opened_simps [simp]:
  "p_cfg (opened cfg st s) = cfg" "Current (p_state (opened cfg st s)) = Current s"
  "Cursor (p_state (opened cfg st s)) = Cursor s" "p_store (opened cfg st s) = Some st"
  "p_fault (opened cfg st s) = []" "p_closed (opened cfg st s) = False"
  by (simp_all add: opened_def)

lemma newPool_wf: "newPool M cfg st = Some p \<Longrightarrow> wf_pool p"
proof -
  assume "newPool M cfg st = Some p"
  then obtain s where p: "p = (if Current s \<noteq> [] \<and> \<not> has_account cfg (Current s)
      then set_current [] (opened cfg st s) else opened cfg st s)"
    by (auto simp: newPool_opened)
  have "keys_ok (opened cfg st s)" "auth_ok (opened cfg st s)" by (rule opened_ok)+
  then show ?thesis unfolding p wf_pool_def by (simp add: auth_ok_def current_ok_def)
qed

lemma faultedPool_wf: "wf_pool (faultedPool cfg reason)"
  by (simp add: faultedPool_def Let_def wf_pool_def keys_ok_install auth_ok_install current_ok_def
      emptyState_def)

section \<open>Pick\<close>

lemma ensure_current_spec:
  assumes wf: "wf_pool p" and e: "ensure_current M now p = (r, q)"
  shows "wf_pool q \<and> r \<noteq> Panic \<and> p_cfg q = p_cfg p \<and> Keys (p_state q) = Keys (p_state p)
    \<and> p_closed q = p_closed p
    \<and> (r = Ok () \<longrightarrow> (Current (p_state p) \<noteq> [] \<and> q = p)
         \<or> (\<exists>a. Current (p_state p) = [] \<and> next_eligible p (Cursor (p_state p)) now = Some a
               \<and> Current (p_state q) = Fingerprint a \<and> saveLocked M (make_current a p) = (True, q)))"
proof (cases "Current (p_state p) = []")
  case False
  with assms show ?thesis by (auto simp: ensure_current_def)
next
  case True
  from wf have ok: "keys_ok p" by (rule wf_poolD)
  show ?thesis
  proof (cases rule: chooseLocked_cases [OF ok, of "Cursor (p_state p)" now])
    case (1 a)
    obtain b q' where s: "saveLocked M (make_current a p) = (b, q')" by fastforce
    have wf': "wf_pool q'"
      using wf 1(3) by (simp add: wf_pool_saveLocked [OF s] wf_pool_make_current)
    with e True 1 s saveLocked_frame [OF s] show ?thesis
      by (auto simp: ensure_current_def split: if_splits)
  next
    case 2
    with e True wf show ?thesis
      by (auto simp: ensure_current_def split: if_splits)
  qed
qed

lemma pick_answer_Ok:
  "pick_answer p req a now = Ok r \<longleftrightarrow>
     candidate_present req a \<and> r = \<lparr>Handled = True, resp_AuthID = AuthID a\<rparr>"
  by (auto simp: pick_answer_def)

lemma pick_answer_no_panic [simp]: "keys_ok p \<Longrightarrow> pick_answer p req a now \<noteq> Panic"
  by (simp add: pick_answer_def)

definition picked :: "schedulerRequest \<Rightarrow> time \<Rightarrow> 's pool \<Rightarrow> schedulerResponse \<Rightarrow> 's pool \<Rightarrow> bool" where
  "picked req now p r q \<longleftrightarrow>
     list_ex (\<lambda>a. r = \<lparr>Handled = True, resp_AuthID = AuthID a\<rparr> \<and> eligible p now a
                \<and> candidate_present req a \<and> Current (p_state q) = Fingerprint a)
       (Accounts (p_cfg p))"

lemma pickedI:
  "a \<in> set (Accounts (p_cfg p)) \<Longrightarrow> r = \<lparr>Handled = True, resp_AuthID = AuthID a\<rparr> \<Longrightarrow>
   eligible p now a \<Longrightarrow> candidate_present req a \<Longrightarrow> Current (p_state q) = Fingerprint a \<Longrightarrow>
   picked req now p r q"
  by (auto simp: picked_def list_ex_iff)

lemma pick_failover_spec:
  assumes wf: "wf_pool p" and f: "pick_failover req now a reason p = (r, q)"
  shows "wf_pool q \<and> r \<noteq> Panic \<and> p_cfg q = p_cfg p \<and> Keys (p_state q) = Keys (p_state p)
    \<and> p_store q = p_store p \<and> p_closed q = p_closed p \<and> p_fault q = p_fault p
    \<and> (\<forall>x. r = Ok x \<longrightarrow> picked req now p x q)"
proof -
  from wf have ok: "keys_ok p" by (rule wf_poolD)
  show ?thesis
  proof (cases rule: chooseLocked_cases [OF ok, of "Fingerprint a" now])
    case (1 b)
    let ?p1 = "make_current b p"
    have wf1: "wf_pool ?p1" using wf 1(3) by (rule wf_pool_make_current)
    obtain b' where b': "accountLocked ?p1 (Fingerprint b) = Some b'"
      using 1(3) by (cases "accountLocked ?p1 (Fingerprint b)") (auto simp: accountLocked_None)
    then have mem: "b' \<in> set (Accounts (p_cfg p))" and fp: "Fingerprint b' = Fingerprint b"
      by (auto dest: accountLocked_SomeD)
    from 1(2) f b' wf1 ok mem fp show ?thesis
      by (auto simp: pick_failover_def blockedLocked_account blockedLocked_empty pick_answer_Ok
          Let_def split: if_splits intro!: pickedI [of b'] dest: wf_poolD)
        (auto simp: eligible_def)
  next
    case 2
    with f wf show ?thesis by (auto simp: pick_failover_def split: if_splits)
  qed
qed

lemma pick_current_spec:
  assumes wf: "wf_pool p" and f: "pick_current req now p = (r, q)"
  shows "wf_pool q \<and> r \<noteq> Panic \<and> p_cfg q = p_cfg p \<and> Keys (p_state q) = Keys (p_state p)
    \<and> p_store q = p_store p \<and> p_closed q = p_closed p \<and> p_fault q = p_fault p
    \<and> (\<forall>x. r = Ok x \<longrightarrow> picked req now p x q)"
proof (cases "accountLocked p (Current (p_state p))")
  case None
  with f wf show ?thesis by (auto simp: pick_current_def)
next
  case (Some a)
  then have a: "a \<in> set (Accounts (p_cfg p))" "Fingerprint a = Current (p_state p)"
    by (auto dest: accountLocked_SomeD)
  from wf have ok: "keys_ok p" by (rule wf_poolD)
  obtain rr where rr: "blockedLocked p (Some a) now = Some rr"
    using blockedLocked_account [OF ok a(1)] by blast
  show ?thesis
  proof (cases "rr = ''suspended'' \<or> rr = ''transient''")
    case True
    then have "pick_failover req now a rr p = (r, q)"
      using f Some rr by (auto simp: pick_current_def)
    with wf show ?thesis by (rule pick_failover_spec)
  next
    case False
    with f Some rr wf ok a blockedLocked_empty [OF ok a(1), of now] show ?thesis
      by (auto simp: pick_current_def pick_answer_Ok intro!: pickedI [of a] split: if_splits)
  qed
qed

text \<open>
  What \<open>Pick\<close> does: it keeps the pool well-formed and the keys as they are, does not
  panic, and what it hands out is the ID of an eligible account that is then current.
\<close>

lemma Pick_spec:
  assumes wf: "wf_pool p" and f: "Pick M now req p = (r, q)"
  shows "wf_pool q \<and> r \<noteq> Panic \<and> p_cfg q = p_cfg p \<and> Keys (p_state q) = Keys (p_state p)
    \<and> p_closed q = p_closed p
    \<and> (\<forall>x. r = Ok x \<longrightarrow>
          (\<not> managedLocked p req \<and> \<not> Handled x \<and> q = p)
        \<or> (managedLocked p req \<and> \<not> p_closed p \<and> p_fault p = [] \<and> picked req now p x q))"
proof (cases "managedLocked p req \<and> \<not> p_closed p \<and> p_fault p = []")
  case False
  with wf f show ?thesis by (auto simp: Pick_def split: if_splits)
next
  case True
  obtain r1 p1 where e: "ensure_current M now p = (r1, p1)" by fastforce
  note e1 = ensure_current_spec [OF wf e]
  show ?thesis
  proof (cases "r1 = Ok ()")
    case r1: True
    with f e True have f1: "pick_current req now p1 = (r, q)" by (simp add: Pick_def)
    from e1 have wf1: "wf_pool p1" by blast
    have el: "eligible p1 now a = eligible p now a" for a
      using e1 by (simp add: eligible_def state_of_def key_of_def)
    from pick_current_spec [OF wf1 f1] e1 True show ?thesis
      by (auto simp: picked_def el list_ex_iff)
  next
    case r1: False
    with e1 have "r1 \<noteq> Panic" "\<exists>x. r1 = Fail x" by (cases r1; auto)+
    with f e True e1 show ?thesis by (auto simp: Pick_def)
  qed
qed

section \<open>Observe\<close>

text \<open>The key an outcome is counted for, and its state.\<close>

definition attributed :: "'s pool \<Rightarrow> usageRecord \<Rightarrow> (string \<times> keyState) option" where
  "attributed p r =
     (if p_closed p \<or> p_store p = None then None
      else case fmlookup (p_byAuthID p) (rec_AuthID r) of
        None \<Rightarrow> None
      | Some h \<Rightarrow>
          if rec_BaseURL r \<noteq> [] \<and> TrimRightChar (CHR ''/'') (rec_BaseURL r) \<noteq> zenBaseURL then None
          else map_option (\<lambda>k. (h, k)) (key_of p h))"

lemma Observe_not_attributed:
  "attributed p r = None \<Longrightarrow>
   Observe M G now r p =
     (if \<not> p_closed p \<and> p_store p = None then Fail ErrState else Ok (), p)"
  by (auto simp: attributed_def Observe_def split: if_splits option.splits)

lemma Observe_attributed:
  "attributed p r = Some (h, k) \<Longrightarrow>
   Observe M G now r p =
     (if \<not> rec_Failed r then saved M (put_key h (record_success (observed_at now r) k) p)
      else observe_failure M G now r h k p)"
  by (auto simp: attributed_def Observe_def split: if_splits option.splits)

lemma attributed_key: "attributed p r = Some (h, k) \<Longrightarrow> key_of p h = Some k"
  by (auto simp: attributed_def split: if_splits option.splits)

lemma advance_spec:
  assumes wf: "wf_pool p" and f: "advance h now p = (r, q)"
  shows "wf_pool q \<and> r = Ok () \<and> p_cfg q = p_cfg p \<and> Keys (p_state q) = Keys (p_state p)
    \<and> p_closed q = p_closed p \<and> p_store q = p_store p
    \<and> (Current (p_state p) \<noteq> h \<longrightarrow> q = p)"
proof (cases "Current (p_state p) = h")
  case False
  with assms show ?thesis by (auto simp: advance_def)
next
  case True
  let ?p = "set_cursor h p"
  from wf have wf': "wf_pool ?p" by simp
  then have ok: "keys_ok ?p" by (rule wf_poolD)
  show ?thesis
  proof (cases rule: chooseLocked_cases [OF ok, of h now])
    case (1 a)
    with True f wf' show ?thesis by (auto simp: advance_def intro!: wf_pool_make_current)
  next
    case 2
    with True f wf' show ?thesis
      by (auto simp: advance_def wf_pool_clear split: if_splits)
  qed
qed

lemma observe_failure_spec:
  assumes wf: "wf_pool p" and f: "observe_failure M G now r h k p = (res, q)"
  shows "wf_pool q \<and> res \<noteq> Panic \<and> p_cfg q = p_cfg p \<and> p_closed q = p_closed p"
proof -
  let ?k = "k\<lparr>Failed := Failed k + 1\<rparr>" and ?o = "observed_at now r"
  let ?c = "classify G (StatusCode r) (ResponseHeaders r) (Body r) ?o (Fallback (p_cfg p))"
  let ?p1 = "put_key h (fail_key (p_cfg p) now ?o ?c ?k) p"
  show ?thesis
  proof (cases "\<not> stale_record ?k r \<and> \<not> ?o < LastFailureAt ?k \<and> switches now ?c")
    case True
    obtain r2 p2 where a: "advance h now ?p1 = (r2, p2)" by fastforce
    have "wf_pool ?p1" using wf by (rule wf_pool_put_key)
    note a1 = advance_spec [OF this a]
    with True f a have "saved M p2 = (res, q)" by (simp add: observe_failure_def Let_def)
    from saved_spec [OF this] a1 show ?thesis by simp
  next
    case False
    with f have "\<exists>k'. saved M (put_key h k' p) = (res, q)"
      by (auto simp: observe_failure_def Let_def split: if_splits)
    with saved_spec wf_pool_put_key [OF wf] show ?thesis by fastforce
  qed
qed

lemma Observe_spec:
  assumes wf: "wf_pool p" and f: "Observe M G now r p = (res, q)"
  shows "wf_pool q \<and> res \<noteq> Panic \<and> p_cfg q = p_cfg p \<and> p_closed q = p_closed p"
proof (cases "attributed p r")
  case None
  with assms show ?thesis by (auto simp: Observe_not_attributed split: if_splits)
next
  case (Some hk)
  then obtain h k where hk: "attributed p r = Some (h, k)" by (cases hk) auto
  show ?thesis
  proof (cases "rec_Failed r")
    case True
    with f hk have "observe_failure M G now r h k p = (res, q)" by (simp add: Observe_attributed)
    with wf show ?thesis by (rule observe_failure_spec)
  next
    case False
    with f hk have s: "saved M (put_key h (record_success (observed_at now r) k) p) = (res, q)"
      by (simp add: Observe_attributed)
    from saved_spec [OF s] wf show ?thesis by (simp add: wf_pool_put_key)
  qed
qed

section \<open>Guard, Resume, Reconfigure, Close, Status\<close>

lemma some_unblocked_spec:
  "keys_ok p \<Longrightarrow> set as \<subseteq> set (Accounts (p_cfg p)) \<Longrightarrow>
   some_unblocked p now as = Some (\<exists>a\<in>set as. eligible p now a)"
proof (induction as)
  case (Cons a as)
  then have a: "a \<in> set (Accounts (p_cfg p))" by simp
  from blockedLocked_empty [OF Cons.prems(1) a] blockedLocked_account [OF Cons.prems(1) a] Cons
  show ?case by auto
qed simp

lemma guard_current_spec:
  assumes wf: "wf_pool p" and f: "guard_current now p = (r, q)"
  shows "wf_pool q \<and> r \<noteq> Panic \<and> p_cfg q = p_cfg p \<and> Keys (p_state q) = Keys (p_state p)
    \<and> p_store q = p_store p \<and> p_closed q = p_closed p \<and> p_fault q = p_fault p"
proof -
  from wf have ok: "keys_ok p" by (rule wf_poolD)
  obtain rr where rr: "blockedLocked p (accountLocked p (Current (p_state p))) now = Some rr"
    using blockedLocked_current_total [OF ok] by blast
  show ?thesis
  proof (cases rule: chooseLocked_cases [OF ok, of "Current (p_state p)" now])
    case (1 a)
    with f rr wf show ?thesis
      by (auto simp: guard_current_def wf_pool_make_current split: if_splits)
  next
    case 2
    with f rr wf show ?thesis by (auto simp: guard_current_def split: if_splits)
  qed
qed

lemma Guard_spec:
  assumes wf: "wf_pool p" and f: "Guard G now model headers p = (r, q)"
  shows "wf_pool q \<and> r \<noteq> Panic \<and> p_cfg q = p_cfg p \<and> Keys (p_state q) = Keys (p_state p)
    \<and> p_store q = p_store p \<and> p_closed q = p_closed p \<and> p_fault q = p_fault p"
proof (cases "guard_current now p = (r, q)")
  case True
  with wf show ?thesis by (rule guard_current_spec)
next
  case False
  from wf have ok: "keys_ok p" by (rule wf_poolD)
  have "some_unblocked p now (Accounts (p_cfg p)) =
      Some (\<exists>a\<in>set (Accounts (p_cfg p)). eligible p now a)"
    by (rule some_unblocked_spec [OF ok]) simp
  with False f wf ok show ?thesis
    by (auto simp: Guard_def split: if_splits bool.splits)
qed

lemma Resume_spec:
  assumes wf: "wf_pool p" and f: "Resume M now label confirm p = (r, q)"
  shows "wf_pool q \<and> r \<noteq> Panic \<and> p_cfg q = p_cfg p \<and> p_closed q = p_closed p"
proof -
  from wf have ok: "keys_ok p" by (rule wf_poolD)
  have k: "key_of p (Fingerprint a) \<noteq> None"
    if "find (\<lambda>a. Label a = label) (Accounts (p_cfg p)) = Some a" for a
    using find_SomeD [OF that] keys_okD [OF ok] by auto
  consider "r \<noteq> Panic" "q = p" | h k' where "saved M (put_key h k' p) = (r, q)"
    using f k by (auto simp: Resume_def split: if_splits option.splits)
  then show ?thesis
  proof cases
    case 1
    with wf show ?thesis by simp
  next
    case (2 h k')
    from saved_spec [OF 2] wf show ?thesis by (simp add: wf_pool_put_key)
  qed
qed

lemma wf_pool_fault [simp]: "wf_pool (p\<lparr>p_fault := f\<rparr>) \<longleftrightarrow> wf_pool p"
  "wf_pool (p\<lparr>p_closed := b\<rparr>) \<longleftrightarrow> wf_pool p" "wf_pool (p\<lparr>p_store := st\<rparr>) \<longleftrightarrow> wf_pool p"
  by (rule wf_pool_cong; simp)+

lemma Reconfigure_spec:
  assumes wf: "wf_pool p" and f: "Reconfigure M now cfg p = (r, q)"
  shows "wf_pool q \<and> r \<noteq> Panic"
proof -
  let ?p1 = "(installAccountsLocked cfg p)\<lparr>p_fault := []\<rparr>"
  have ok: "keys_ok ?p1" "auth_ok ?p1"
    using keys_ok_install [of cfg p] auth_ok_install [of cfg p]
    by (simp_all add: keys_ok_def auth_ok_def key_of_def)
  have wf0: "wf_pool (set_current [] ?p1)"
    using ok by (simp add: wf_pool_def auth_ok_def current_ok_def)
  consider "r \<noteq> Panic" "q = p"
    | r2 p2 where "chooseLocked (set_current [] ?p1) (Cursor (p_state ?p1)) now = (r2, p2)"
        "r2 = Panic \<and> r = Panic \<or> (\<exists>e. r2 = Fail e) \<or> saved M p2 = (r, q)"
    | "accountLocked ?p1 (Current (p_state ?p1)) \<noteq> None" "saved M ?p1 = (r, q)"
    using f by (auto simp: Reconfigure_def Let_def split: if_splits prod.splits outcome.splits)
  then show ?thesis
  proof cases
    case 1
    with wf show ?thesis by simp
  next
    case (2 r2 p2)
    from chooseLocked_wf [OF wf0 2(1)] 2(2) show ?thesis by (auto dest: saved_spec)
  next
    case 3
    then have "wf_pool ?p1"
      using ok by (simp add: wf_pool_def current_ok_def accountLocked_has)
    with 3(2) show ?thesis by (auto dest: saved_spec)
  qed
qed

lemma Close_spec:
  assumes wf: "wf_pool p" and f: "Close M p = (r, q)"
  shows "wf_pool q \<and> r \<noteq> Panic \<and> p_cfg q = p_cfg p \<and> p_state q = p_state p \<and> p_closed q"
proof -
  obtain ok p2 where s: "saveLocked M (p\<lparr>p_closed := True\<rparr>) = (ok, p2)" by fastforce
  have wf2: "wf_pool p2" using wf by (simp add: wf_pool_saveLocked [OF s])
  note fr = saveLocked_frame [OF s]
  from f wf wf2 fr s show ?thesis
    by (auto simp: Close_def Let_def split: if_splits option.splits prod.splits)
qed

lemma account_statuses_total:
  "keys_ok p \<Longrightarrow> set as \<subseteq> set (Accounts (p_cfg p)) \<Longrightarrow>
   \<exists>ss. account_statuses p now as = Some ss \<and> map st_Label ss = map Label as"
  by (induction as) (auto simp: account_status_def blockedLocked_account keys_okD)

lemma Status_total: "wf_pool p \<Longrightarrow> is_Ok (Status p now)"
  using account_statuses_total [OF wf_poolD(1), of p "Accounts (p_cfg p)" now]
  by (auto simp: Status_def)

end
