(* ===== verification/Zen_Pool_Steps.thy ===== *)
theory Zen_Pool_Steps
  imports Zen_Pool_Facts
begin

text \<open>
  The pool as a state machine. The mutex makes every operation one step, so concurrent
  callers are a sequence of steps in some order, at readings of the clock that do not
  go back. \<open>EFault\<close> is what the application writes into a pool directly (\<open>failClosed\<close>,
  and \<open>configure\<close> after an error).
\<close>

datatype pool_event =
    EPick schedulerRequest
  | EObserve usageRecord
  | EGuard string header
  | EResume string string
  | EReconfigure configuration
  | EClose
  | EStatus
  | EFault string

text \<open>Whether the operation panicked, and the pool after it.\<close>

fun pool_step ::
  "'s stateStore \<Rightarrow> golib \<Rightarrow> time \<Rightarrow> pool_event \<Rightarrow> 's pool \<Rightarrow> bool \<times> 's pool" where
  "pool_step M G now (EPick req) p = map_prod is_Panic id (Pick M now req p)"
| "pool_step M G now (EObserve r) p = map_prod is_Panic id (Observe M G now r p)"
| "pool_step M G now (EGuard m h) p = map_prod is_Panic id (Guard G now m h p)"
| "pool_step M G now (EResume l c) p = map_prod is_Panic id (Resume M now l c p)"
| "pool_step M G now (EReconfigure cfg) p = map_prod is_Panic id (Reconfigure M now cfg p)"
| "pool_step M G now EClose p = map_prod is_Panic id (Close M p)"
| "pool_step M G now EStatus p = (is_Panic (Status p now), p)"
| "pool_step M G now (EFault f) p = (False, p\<lparr>p_fault := f\<rparr>)"

inductive pool_reach :: "'s stateStore \<Rightarrow> golib \<Rightarrow> time \<Rightarrow> 's pool \<Rightarrow> bool" for M G where
  opened_pool: "newPool M cfg st = Some p \<Longrightarrow> pool_reach M G t p"
| faulted_pool: "pool_reach M G t (faultedPool cfg reason)"
| event: "pool_reach M G t p \<Longrightarrow> t \<le> t' \<Longrightarrow> pool_step M G t' e p = (b, q) \<Longrightarrow>
    pool_reach M G t' q"

section \<open>Well-formedness\<close>

lemma pool_step_wf:
  assumes "wf_pool p" "pool_step M G now e p = (b, q)"
  shows "wf_pool q \<and> \<not> b"
proof (cases e)
  case (EPick req)
  with assms show ?thesis
    by (cases "Pick M now req p") (auto dest: Pick_spec)
next
  case (EObserve r)
  with assms show ?thesis
    by (cases "Observe M G now r p") (auto dest: Observe_spec)
next
  case (EGuard m h)
  with assms show ?thesis
    by (cases "Guard G now m h p") (auto dest: Guard_spec)
next
  case (EResume l c)
  with assms show ?thesis
    by (cases "Resume M now l c p") (auto dest: Resume_spec)
next
  case (EReconfigure cfg)
  with assms show ?thesis
    by (cases "Reconfigure M now cfg p") (auto dest: Reconfigure_spec)
next
  case EClose
  with assms show ?thesis
    by (cases "Close M p") (auto dest: Close_spec)
next
  case EStatus
  with assms Status_total [of p now] show ?thesis by (auto simp: is_Ok_iff)
next
  case (EFault f)
  with assms show ?thesis by auto
qed

lemma pool_reach_wf: "pool_reach M G t p \<Longrightarrow> wf_pool p"
  by (induction rule: pool_reach.induct) (auto dest: newPool_wf pool_step_wf intro: faultedPool_wf)

section \<open>The current account is not one that failed\<close>

text \<open>The instant until which a key is exhausted, suspended or quarantined.\<close>

definition failed_until :: "keyState \<Rightarrow> time" where
  "failed_until k = max (ExhaustedUntil k) (max (SuspendedUntil k) (TransientUntil k))"

definition current_fresh :: "time \<Rightarrow> 's pool \<Rightarrow> bool" where
  "current_fresh t p \<longleftrightarrow>
     Current (p_state p) = [] \<or>
     (case key_of p (Current (p_state p)) of None \<Rightarrow> True | Some k \<Rightarrow> failed_until k \<le> t)"

lemma current_fresh_cong:
  assumes "p_state q = p_state p"
  shows "current_fresh t q \<longleftrightarrow> current_fresh t p"
  using assms by (simp add: current_fresh_def key_of_def)

lemma current_fresh_later: "current_fresh t p \<Longrightarrow> t \<le> t' \<Longrightarrow> current_fresh t' p"
  by (auto simp: current_fresh_def split: option.splits)

lemma current_fresh_clear [simp]: "current_fresh t (set_current [] p)"
  by (simp add: current_fresh_def)

lemma current_fresh_make_current: "eligible p t a \<Longrightarrow> current_fresh t (make_current a p)"
  by (auto simp: current_fresh_def failed_until_def eligible_iff state_of_def split: option.splits)

lemma current_fresh_saved [simp]: "current_fresh t (snd (saved M p)) \<longleftrightarrow> current_fresh t p"
  by (rule current_fresh_cong) simp

lemma saved_fresh: "saved M p = (r, q) \<Longrightarrow> current_fresh t q \<longleftrightarrow> current_fresh t p"
  by (rule current_fresh_cong) (rule saved_frame)

lemma current_fresh_saveLocked:
  "saveLocked M p = (ok, q) \<Longrightarrow> current_fresh t q \<longleftrightarrow> current_fresh t p"
  by (rule current_fresh_cong) (rule saveLocked_frame)

lemma chooseLocked_fresh:
  assumes "keys_ok p" "chooseLocked p after now = (r, q)"
    and "Accounts (p_cfg p) = [] \<Longrightarrow> current_fresh now p"
  shows "current_fresh now q"
  using assms
  by (cases rule: chooseLocked_cases [OF assms(1), of after now])
    (auto intro: current_fresh_make_current split: if_splits)

text \<open>A write to a key keeps the invariant unless it moves these deadlines of the current account.\<close>

lemma current_fresh_put_key:
  assumes "current_fresh t p" "key_of p h = Some k"
    and "Current (p_state p) = h \<Longrightarrow> failed_until k' \<le> t \<or> failed_until k' = failed_until k"
  shows "current_fresh t (put_key h k' p)"
  using assms by (auto simp: current_fresh_def)

lemma fail_key_quiet:
  "\<not> switches now c \<Longrightarrow> failed_until (fail_key cfg now o' c k) = failed_until k"
  by (auto simp: fail_key_def switches_def rate_limited_def failed_until_def Let_def)

lemma failed_until_simps [simp]:
  "failed_until (record_success t k) = failed_until k"
  "failed_until (k\<lparr>Failed := n\<rparr>) = failed_until k"
  "failed_until (resume_key t k) = 0" "failed_until zero_key = 0"
  by (simp_all add: record_success_def failed_until_def resume_key_def zero_key_def Let_def)

lemma wf_current_empty: "wf_pool p \<Longrightarrow> Accounts (p_cfg p) = [] \<Longrightarrow> current_fresh t p"
  by (auto simp: wf_pool_def current_ok_def has_account_iff current_fresh_def)

lemma Pick_fresh:
  assumes wf: "wf_pool p" and fr: "current_fresh now p" and f: "Pick M now req p = (r, q)"
  shows "current_fresh now q"
proof (cases "managedLocked p req \<and> \<not> p_closed p \<and> p_fault p = []")
  case False
  with f fr show ?thesis by (auto simp: Pick_def split: if_splits)
next
  case True
  obtain r1 p1 where e: "ensure_current M now p = (r1, p1)" by fastforce
  from ensure_current_spec [OF wf e] have wf1: "wf_pool p1" by blast
  have ch: "current_fresh now z" if "wf_pool y" "chooseLocked y a now = (x, z)" for x y z a
    using chooseLocked_fresh [of y a now x z] that wf_current_empty by blast
  from e fr wf have fr1: "current_fresh now p1"
    by (auto simp: ensure_current_def current_fresh_saveLocked dest: ch
        split: if_splits prod.splits outcome.splits)
  have "current_fresh now q" if "pick_current req now p1 = (r, q)"
    using that fr1 wf1 by (auto simp: pick_current_def pick_failover_def Let_def dest: ch
        split: if_splits prod.splits outcome.splits option.splits)
  with f e True fr1 show ?thesis
    by (auto simp: Pick_def split: outcome.splits)
qed

lemma Guard_fresh:
  assumes wf: "wf_pool p" and fr: "current_fresh now p" and f: "Guard G now m h p = (r, q)"
  shows "current_fresh now q"
proof -
  have ch: "current_fresh now z" if "wf_pool y" "chooseLocked y a now = (x, z)" for x y z a
    using chooseLocked_fresh [of y a now x z] that wf_current_empty by blast
  from assms show ?thesis
    by (auto simp: Guard_def guard_current_def dest: ch
        split: if_splits prod.splits outcome.splits option.splits)
qed

lemma advance_fresh:
  assumes wf: "wf_pool p" and f: "advance h now p = (r, q)"
    and other: "Current (p_state p) \<noteq> h \<Longrightarrow> current_fresh now p"
  shows "current_fresh now q"
proof (cases "Current (p_state p) = h")
  case False
  with f other show ?thesis by (simp add: advance_def)
next
  case True
  obtain r1 where "chooseLocked (set_cursor h p) h now = (r1, q)"
    using f True by (auto simp: advance_def split: prod.splits outcome.splits)
  moreover have "wf_pool (set_cursor h p)" using wf by simp
  ultimately show ?thesis
    using chooseLocked_fresh wf_current_empty by (metis wf_poolD(1))
qed

lemma Observe_fresh:
  assumes wf: "wf_pool p" and fr: "current_fresh now p" and f: "Observe M G now r p = (res, q)"
  shows "current_fresh now q"
proof (cases "attributed p r")
  case None
  with f fr show ?thesis by (auto simp: Observe_not_attributed split: if_splits)
next
  case (Some hk)
  then obtain h k where hk: "attributed p r = Some (h, k)" by (cases hk) auto
  note key = attributed_key [OF hk]
  let ?k = "k\<lparr>Failed := Failed k + 1\<rparr>" and ?o = "observed_at now r"
  let ?c = "classify G (StatusCode r) (ResponseHeaders r) (Body r) ?o (Fallback (p_cfg p))"
  let ?p1 = "put_key h (fail_key (p_cfg p) now ?o ?c ?k) p"
  have put: "current_fresh now (put_key h k' p)"
    if "Current (p_state p) = h \<Longrightarrow> failed_until k' = failed_until k" for k'
    using current_fresh_put_key [OF fr key] that by blast
  show ?thesis
  proof (cases "rec_Failed r \<and> \<not> stale_record ?k r \<and> \<not> ?o < LastFailureAt ?k \<and> switches now ?c")
    case True
    obtain r2 p2 where a: "advance h now ?p1 = (r2, p2)" by fastforce
    have wf1: "wf_pool ?p1" using wf by (rule wf_pool_put_key)
    note a1 = advance_spec [OF wf1 a]
    with True f hk a have s: "saved M p2 = (res, q)"
      by (simp add: Observe_attributed observe_failure_def Let_def)
    have "current_fresh now p2"
    proof (rule advance_fresh [OF wf1 a])
      assume "Current (p_state ?p1) \<noteq> h"
      then have "Current (p_state p) \<noteq> h" by simp
      then show "current_fresh now ?p1" by (intro put) simp
    qed
    then show ?thesis using saved_fresh [OF s] by simp
  next
    case False
    with f hk have "\<exists>k'. saved M (put_key h k' p) = (res, q) \<and> failed_until k' = failed_until k"
      by (auto simp: Observe_attributed observe_failure_def Let_def fail_key_quiet
          split: if_splits)
    then obtain k' where s: "saved M (put_key h k' p) = (res, q)"
      and k': "failed_until k' = failed_until k" by blast
    have "current_fresh now (put_key h k' p)" by (rule put) (rule k')
    then show ?thesis using saved_fresh [OF s] by simp
  qed
qed

lemma Resume_fresh:
  assumes wf: "wf_pool p" and fr: "current_fresh now p" and t: "0 \<le> now"
    and f: "Resume M now l c p = (r, q)"
  shows "current_fresh now q"
proof -
  consider "q = p" | h k where "key_of p h = Some k" "saved M (put_key h (resume_key now k) p) = (r, q)"
    using f by (auto simp: Resume_def split: if_splits option.splits)
  then show ?thesis
  proof cases
    case 1
    with fr show ?thesis by simp
  next
    case (2 h k)
    have "current_fresh now (put_key h (resume_key now k) p)"
      by (rule current_fresh_put_key [OF fr 2(1)]) (simp add: t)
    then show ?thesis using saved_fresh [OF 2(2)] by simp
  qed
qed

lemma current_fresh_install:
  assumes "wf_pool p" "current_fresh t p" "0 \<le> t"
  shows "current_fresh t ((installAccountsLocked cfg p)\<lparr>p_fault := f\<rparr>)"
proof -
  let ?q = "installAccountsLocked cfg p"
  have "current_fresh t ?q"
    using assms by (auto simp: current_fresh_def key_of_install split: option.splits)
  then show ?thesis by (simp add: current_fresh_def key_of_def)
qed

lemma Reconfigure_fresh:
  assumes wf: "wf_pool p" and fr: "current_fresh now p" and t: "0 \<le> now"
    and f: "Reconfigure M now cfg p = (r, q)"
  shows "current_fresh now q"
proof -
  let ?p1 = "(installAccountsLocked cfg p)\<lparr>p_fault := []\<rparr>"
  have fr1: "current_fresh now ?p1" by (rule current_fresh_install [OF wf fr t])
  have ok: "keys_ok (set_current [] ?p1)"
    using keys_ok_install [of cfg p] by (simp add: keys_ok_def key_of_def)
  have ch: "current_fresh now z" if "chooseLocked (set_current [] ?p1) a now = (x, z)" for x z a
    using chooseLocked_fresh [OF ok that] by simp
  from f fr fr1 show ?thesis
    by (auto simp: Reconfigure_def Let_def saved_fresh dest: ch
        split: if_splits prod.splits outcome.splits)
qed

lemma Close_fresh:
  assumes "wf_pool p" "current_fresh t p" "Close M p = (r, q)"
  shows "current_fresh t q"
  using Close_spec [OF assms(1,3)] assms(2) by (simp add: current_fresh_cong [of q p])

lemma pool_step_fresh:
  assumes "wf_pool p" "current_fresh now p" "0 \<le> now" "pool_step M G now e p = (b, q)"
  shows "current_fresh now q"
  using assms
  by (cases e) (auto simp: map_prod_def intro: current_fresh_cong [THEN iffD2]
      dest: Pick_fresh Observe_fresh Guard_fresh Resume_fresh Reconfigure_fresh Close_fresh
      split: prod.splits)

text \<open>
  Runs that start from a pool whose stored current account, if any, is not exhausted,
  suspended or quarantined at that moment (the empty store in particular). The clock never shows the zero instant.
\<close>

inductive fresh_reach :: "'s stateStore \<Rightarrow> golib \<Rightarrow> time \<Rightarrow> 's pool \<Rightarrow> bool" for M G where
  start: "0 \<le> t \<Longrightarrow> newPool M cfg st = Some p \<Longrightarrow> current_fresh t p \<Longrightarrow> fresh_reach M G t p"
| event: "fresh_reach M G t p \<Longrightarrow> t \<le> t' \<Longrightarrow> pool_step M G t' e p = (b, q) \<Longrightarrow>
    fresh_reach M G t' q"

lemma fresh_reach_inv: "fresh_reach M G t p \<Longrightarrow> 0 \<le> t \<and> wf_pool p \<and> current_fresh t p"
proof (induction rule: fresh_reach.induct)
  case (start t cfg st p)
  then show ?case by (simp add: newPool_wf)
next
  case (event t p t' e b q)
  then have "current_fresh t' p" "0 \<le> t'" by (auto intro: current_fresh_later)
  with event show ?case by (auto dest: pool_step_wf pool_step_fresh)
qed

lemma fresh_reach_reach: "fresh_reach M G t p \<Longrightarrow> pool_reach M G t p"
  by (induction rule: fresh_reach.induct) (auto intro: pool_reach.intros)

inductive_cases pool_reachE: "pool_reach M G t p"

end
