(* ===== verification/Go_Json_Print.thy ===== *)
theory Go_Json_Print
  imports Go_Json
begin

text \<open>
  The writing half of \<open>encoding/json\<close>: strings, decimal numbers, and values, in the
  compact form of \<open>Marshal\<close> and the indented form of \<open>MarshalIndent\<close>. A value that is
  written is read back unchanged by the readers of \<open>Go_Json\<close>.
\<close>

section \<open>Strings\<close>

definition hex_char :: "int \<Rightarrow> char" where
  "hex_char n = char_of (if n < 10 then 48 + n else 87 + n)"

definition u_escape :: "int \<Rightarrow> string" where
  "u_escape n =
     [CHR 0x5C, CHR ''u'', hex_char (n div 4096), hex_char (n div 256 mod 16),
      hex_char (n div 16 mod 16), hex_char (n mod 16)]"

text \<open>
  One ASCII character: quotes, backslashes and control characters are escaped, and so
  are the three characters that matter in HTML.
\<close>

definition escape_ascii :: "char \<Rightarrow> string" where
  "escape_ascii c =
     (if c = CHR 0x22 \<or> c = CHR 0x5C then [CHR 0x5C, c]
      else if c = CHR 0x08 then [CHR 0x5C, CHR ''b'']
      else if c = CHR 0x0C then [CHR 0x5C, CHR ''f'']
      else if c = CHR 0x0A then [CHR 0x5C, CHR ''n'']
      else if c = CHR 0x0D then [CHR 0x5C, CHR ''r'']
      else if c = CHR 0x09 then [CHR 0x5C, CHR ''t'']
      else if byte c < 32 \<or> c = CHR ''<'' \<or> c = CHR ''>'' \<or> c = CHR ''&''
      then u_escape (byte c)
      else [c])"

text \<open>The first argument bounds the steps by the length of the string.\<close>

fun json_escape :: "nat \<Rightarrow> string \<Rightarrow> string" where
  "json_escape 0 s = []"
| "json_escape (Suc n) [] = []"
| "json_escape (Suc n) (c # cs) =
     (if byte c < 128 then escape_ascii c @ json_escape n cs
      else case utf8_width (c # cs) of
        None \<Rightarrow> u_escape 0xFFFD @ json_escape n cs
      | Some w \<Rightarrow>
          (let t = take w (c # cs)
           in (if t = utf8_encode 0x2028 then u_escape 0x2028
               else if t = utf8_encode 0x2029 then u_escape 0x2029 else t)
              @ json_escape n (drop w (c # cs))))"

definition json_quote :: "string \<Rightarrow> json" where
  "json_quote s = JStr (json_escape (length s) s) s"

text \<open>The strings that are written as they are.\<close>

definition plain_char :: "char \<Rightarrow> bool" where
  "plain_char c \<longleftrightarrow>
     32 \<le> byte c \<and> byte c < 128 \<and> \<not> List.member [CHR 0x22, CHR 0x5C, CHR ''<'', CHR ''>'', CHR ''&''] c"

definition plain :: "string \<Rightarrow> bool" where
  "plain s \<longleftrightarrow> list_all plain_char s"

lemma escape_plain:
  assumes "plain_char c"
  shows "escape_ascii c = [c]"
proof -
  from assms have "\<not> byte c < 32" "c \<noteq> CHR 0x22" "c \<noteq> CHR 0x5C" "c \<noteq> CHR ''<''"
      "c \<noteq> CHR ''>''" "c \<noteq> CHR ''&''"
    by (simp_all add: plain_char_def)
  moreover from this(1) have "c \<noteq> CHR 0x08" "c \<noteq> CHR 0x0C" "c \<noteq> CHR 0x0A" "c \<noteq> CHR 0x0D"
      "c \<noteq> CHR 0x09"
    by (rule contrapos_nn, simp add: byte_def)+
  ultimately show ?thesis unfolding escape_ascii_def by (simp only: if_False simp_thms)
qed

lemma json_escape_plain: "plain s \<Longrightarrow> length s \<le> n \<Longrightarrow> json_escape n s = s"
proof (induction n s rule: json_escape.induct)
  case (3 n c cs)
  then have "plain_char c" "plain cs" by (simp_all add: plain_def)
  moreover have "byte c < 128" using \<open>plain_char c\<close> by (simp add: plain_char_def)
  ultimately show ?case using 3 by (simp add: escape_plain)
qed auto

lemma json_quote_plain: "plain s \<Longrightarrow> json_quote s = JStr s s"
  by (simp add: json_quote_def json_escape_plain)

text \<open>A text \<open>raw\<close> between quotes reads as \<open>s\<close>, whatever follows.\<close>

definition reads_as :: "string \<Rightarrow> string \<Rightarrow> bool" where
  "reads_as raw s \<longleftrightarrow>
     (\<forall>n rest. length raw < n \<longrightarrow> json_string n (raw @ CHR 0x22 # rest) = Some (s, rest))"

lemma plain_reads_as: "plain s \<Longrightarrow> reads_as s s"
  unfolding reads_as_def
proof (intro allI impI)
  fix n rest
  assume "plain s" "length s < n"
  then show "json_string n (s @ CHR 0x22 # rest) = Some (s, rest)"
  proof (induction s arbitrary: n)
    case Nil
    then show ?case by (cases n) auto
  next
    case (Cons c s)
    then obtain m where n: "n = Suc m" "length s < m" by (cases n) auto
    from Cons.prems have c: "plain_char c" and s: "plain s" by (simp_all add: plain_def)
    have "utf8_width (c # s @ CHR 0x22 # rest) = Some 1"
      using c by (simp add: plain_char_def)
    moreover have "c \<noteq> CHR 0x22" "c \<noteq> CHR 0x5C" "\<not> byte c < 32"
      using c by (auto simp: plain_char_def)
    ultimately show ?case
      using Cons.IH [OF s n(2)] n by (simp add: prepend_def)
  qed
qed

section \<open>Decimal numbers\<close>

definition digit_char :: "int \<Rightarrow> char" where
  "digit_char d = char_of (48 + d)"

text \<open>For a number that is not negative.\<close>

function show_uint :: "int \<Rightarrow> string" where
  "show_uint n = (if n < 10 then [digit_char n] else show_uint (n div 10) @ [digit_char (n mod 10)])"
  by pat_completeness auto
termination by (relation "measure nat") auto

declare show_uint.simps [simp del]

definition show_int :: "int \<Rightarrow> string" where
  "show_int n = (if n < 0 then CHR ''-'' # show_uint (- n) else show_uint n)"

lemma digit_char_code: "0 \<le> d \<Longrightarrow> d < 10 \<Longrightarrow> (of_char (digit_char d) :: int) = 48 + d"
  by (simp add: digit_char_def of_char_of take_bit_eq_mod)

lemma digit_char_props:
  "0 \<le> d \<Longrightarrow> d < 10 \<Longrightarrow> is_digit (digit_char d) \<and> digit_val (digit_char d) = d"
  by (simp add: digit_char_code is_digit_def digit_val_def)

lemma show_uint_digits: "0 \<le> n \<Longrightarrow> list_all is_digit (show_uint n) \<and> show_uint n \<noteq> []"
proof (induction n rule: show_uint.induct)
  case (1 n)
  then show ?case
    by (subst (1 2) show_uint.simps) (auto simp: digit_char_props)
qed

lemma show_uint_hd: "0 < n \<Longrightarrow> hd (show_uint n) \<noteq> CHR ''0''"
proof (induction n rule: show_uint.induct)
  case (1 n)
  show ?case
  proof (cases "n < 10")
    case True
    have "(of_char (CHR ''0'') :: int) = 48" by simp
    with True 1 digit_char_code [of n] show ?thesis
      by (subst show_uint.simps) auto
  next
    case False
    with 1 show_uint_digits [of "n div 10"] show ?thesis
      by (subst show_uint.simps) (simp add: hd_append)
  qed
qed

definition num_end :: "string \<Rightarrow> bool" where
  "num_end rest \<longleftrightarrow>
     rest = [] \<or> \<not> is_digit (hd rest) \<and> \<not> List.member [CHR ''.'', CHR ''e'', CHR ''E''] (hd rest)"

text \<open>A text that reads as a number when it ends where the number ends.\<close>

definition num_text :: "string \<Rightarrow> bool" where
  "num_text t \<longleftrightarrow>
     t \<noteq> [] \<and> (hd t = CHR ''-'' \<or> is_digit (hd t)) \<and>
     (\<forall>rest. num_end rest \<longrightarrow> json_number (t @ rest) = Some (t, rest))"

lemma digits_span:
  assumes "list_all is_digit t" "num_end rest"
  shows "takeWhile is_digit (t @ rest) = t" "dropWhile is_digit (t @ rest) = rest"
proof -
  have "takeWhile is_digit rest = [] \<and> dropWhile is_digit rest = rest"
    using assms(2) by (cases rest) (auto simp: num_end_def)
  moreover have "\<forall>x\<in>set t. is_digit x" using assms(1) by (simp add: list_all_iff)
  ultimately show "takeWhile is_digit (t @ rest) = t" "dropWhile is_digit (t @ rest) = rest"
    by (simp_all add: takeWhile_append2 dropWhile_append2)
qed

lemma digits_num_text:
  assumes "list_all is_digit t" "t \<noteq> []" "hd t \<noteq> CHR ''0'' \<or> t = ''0''"
  shows "num_text t"
  unfolding num_text_def
proof (intro conjI allI impI)
  from assms(1,2) have h: "is_digit (hd t)" by (cases t) auto
  then show "hd t = CHR ''-'' \<or> is_digit (hd t)" by simp
  fix rest assume rest: "num_end rest"
  have "json_frac rest = Some ([], rest)" "json_exp rest = Some ([], rest)"
    using rest by (auto simp: json_frac_def json_exp_def num_end_def split: list.split)
  moreover have "json_int (t @ rest) = Some (t, rest)"
    using assms h digits_span [OF assms(1) rest]
    by (cases t) (auto simp: json_int_def)
  moreover have "hd t \<noteq> CHR ''-''" using h by (auto simp: is_digit_def)
  ultimately show "json_number (t @ rest) = Some (t, rest)"
    using assms(2) by (simp add: json_number_def hd_append)
qed (use assms in auto)

lemma show_uint_num_text:
  assumes "0 \<le> n"
  shows "num_text (show_uint n)"
proof (rule digits_num_text)
  show "hd (show_uint n) \<noteq> CHR ''0'' \<or> show_uint n = ''0''"
  proof (cases "n = 0")
    case True
    have "digit_char 0 = CHR ''0''" by (simp add: digit_char_def char_of_def)
    with True show ?thesis by (simp add: show_uint.simps)
  next
    case False
    with assms show ?thesis by (simp add: show_uint_hd)
  qed
qed (use assms show_uint_digits in auto)

section \<open>Values\<close>

text \<open>
  \<open>nl k\<close> is what separates the parts of a value nested \<open>k\<close> deep, and \<open>sp\<close> what follows a
  colon: nothing in the compact form, a new line with indentation and a blank in the
  indented one.
\<close>

definition key_text :: "string \<Rightarrow> string" where
  "key_text k = json_escape (length k) k"

fun json_print :: "(nat \<Rightarrow> string) \<Rightarrow> string \<Rightarrow> nat \<Rightarrow> json \<Rightarrow> string"
and print_elems :: "(nat \<Rightarrow> string) \<Rightarrow> string \<Rightarrow> nat \<Rightarrow> json list \<Rightarrow> string"
and print_members :: "(nat \<Rightarrow> string) \<Rightarrow> string \<Rightarrow> nat \<Rightarrow> (string \<times> json) list \<Rightarrow> string"
where
  "json_print nl sp k JNull = ''null''"
| "json_print nl sp k (JBool b) = (if b then ''true'' else ''false'')"
| "json_print nl sp k (JNum s) = s"
| "json_print nl sp k (JStr raw _) = CHR 0x22 # raw @ [CHR 0x22]"
| "json_print nl sp k (JArr vs) =
     (if vs = [] then ''[]''
      else CHR ''['' # print_elems nl sp (Suc k) vs @ nl k @ '']'')"
| "json_print nl sp k (JObj ms) =
     (if ms = [] then ''{}''
      else CHR ''{'' # print_members nl sp (Suc k) ms @ nl k @ ''}'')"
| "print_elems nl sp k [] = []"
| "print_elems nl sp k (v # vs) =
     nl k @ json_print nl sp k v @ (if vs = [] then [] else CHR '','' # print_elems nl sp k vs)"
| "print_members nl sp k [] = []"
| "print_members nl sp k ((key, v) # ms) =
     nl k @ CHR 0x22 # key_text key @ CHR 0x22 # CHR '':'' # sp @ json_print nl sp k v
     @ (if ms = [] then [] else CHR '','' # print_members nl sp k ms)"

definition compact :: "json \<Rightarrow> string" where
  "compact v = json_print (\<lambda>_. []) [] 0 v"

definition indent2 :: "nat \<Rightarrow> string" where
  "indent2 k = CHR 0x0A # concat (replicate k ''  '')"

definition indented :: "json \<Rightarrow> string" where
  "indented v = json_print indent2 '' '' 0 v"

text \<open>Values whose parts read back, and how deep they nest.\<close>

fun printable :: "json \<Rightarrow> bool" where
  "printable JNull \<longleftrightarrow> True"
| "printable (JBool _) \<longleftrightarrow> True"
| "printable (JNum s) \<longleftrightarrow> num_text s"
| "printable (JStr raw s) \<longleftrightarrow> reads_as raw s"
| "printable (JArr vs) \<longleftrightarrow> list_all printable vs"
| "printable (JObj ms) \<longleftrightarrow> list_all (\<lambda>(k, v). reads_as (key_text k) k \<and> printable v) ms"

fun json_height :: "json \<Rightarrow> int" where
  "json_height (JArr vs) = 1 + foldr (\<lambda>v h. max (json_height v) h) vs 0"
| "json_height (JObj ms) = 1 + foldr (\<lambda>(k, v) h. max (json_height v) h) ms 0"
| "json_height _ = 0"

lemma skip_space_append: "list_all json_space w \<Longrightarrow> skip_space (w @ s) = skip_space s"
  by (induction w) (auto simp: skip_space_def)

lemma skip_space_Cons: "\<not> json_space c \<Longrightarrow> skip_space (c # s) = c # s"
  by (simp add: skip_space_def)

lemma json_value_space:
  "list_all json_space w \<Longrightarrow> json_value n d (w @ s) = json_value n d s"
  by (cases n) (simp_all add: skip_space_append)

lemma not_space [simp]:
  "\<not> json_space (CHR ''['')" "\<not> json_space (CHR ''{'')" "\<not> json_space (CHR '']'')"
  "\<not> json_space (CHR ''}'')" "\<not> json_space (CHR '','')" "\<not> json_space (CHR '':'')"
  "\<not> json_space (CHR 0x22)" "\<not> json_space (CHR ''n'')" "\<not> json_space (CHR ''t'')"
  "\<not> json_space (CHR ''f'')"
  by (simp_all add: json_space_def)

lemma num_start_not_space: "c = CHR ''-'' \<or> is_digit c \<Longrightarrow> \<not> json_space c"
  by (auto simp: json_space_def is_digit_def)

lemma num_end_simps [simp]:
  "num_end (CHR '','' # r)" "num_end (CHR '']'' # r)" "num_end (CHR ''}'' # r)" "num_end []"
  by (simp_all add: num_end_def is_digit_def)

lemma num_end_space: "list_all json_space w \<Longrightarrow> num_end s \<Longrightarrow> num_end (w @ s)"
  by (cases w) (auto simp: num_end_def json_space_def is_digit_def)

lemma reads_asD:
  "reads_as raw s \<Longrightarrow> length raw < n \<Longrightarrow> json_string n (raw @ CHR 0x22 # rest) = Some (s, rest)"
  by (simp add: reads_as_def)

text \<open>The first character of a written value.\<close>

lemma num_text_start:
  assumes "num_text t"
  shows "\<exists>c r. t = c # r \<and> \<not> json_space c \<and> c \<noteq> CHR '']'' \<and> (c = CHR ''-'' \<or> is_digit c)"
proof -
  from assms obtain c r where t: "t = c # r" and c: "c = CHR ''-'' \<or> is_digit c"
    by (cases t) (auto simp: num_text_def)
  from c have "\<not> json_space c" by (rule num_start_not_space)
  moreover have "c \<noteq> CHR '']''" using c by (auto simp: is_digit_def)
  ultimately show ?thesis using t c by blast
qed

lemma json_print_start:
  assumes "printable v"
  shows "\<exists>c r. json_print nl sp k v = c # r \<and> \<not> json_space c \<and> c \<noteq> CHR '']''"
proof (cases v)
  case (JNum t)
  with assms num_text_start [of t] show ?thesis by auto
qed auto

lemma json_print_length: "printable v \<Longrightarrow> 0 < length (json_print nl sp k v)"
  using json_print_start [of v nl sp k] by fastforce

text \<open>The round trip, for any separators made of white space.\<close>

lemma json_value_num:
  assumes "num_text t" "num_end rest"
  shows "json_value (Suc n) d (t @ rest) = Some (JNum t, rest)"
proof -
  from num_text_start [OF assms(1)] obtain c r where
    t: "t = c # r" and c: "\<not> json_space c" "c = CHR ''-'' \<or> is_digit c" by blast
  from assms have "json_number (t @ rest) = Some (t, rest)" by (simp add: num_text_def)
  moreover have "c \<noteq> CHR ''{''" "c \<noteq> CHR ''[''" "c \<noteq> CHR 0x22"
    using c(2) by (auto simp: is_digit_def)
  ultimately show ?thesis
    using t c by (simp add: skip_space_Cons)
qed

lemma json_value_str:
  assumes "reads_as raw s"
  shows "json_value (Suc n) d (CHR 0x22 # raw @ CHR 0x22 # rest) = Some (JStr raw s, rest)"
  using reads_asD [OF assms, of "length (raw @ CHR 0x22 # rest)" rest]
  by (simp add: skip_space_Cons is_digit_def)

lemma json_value_const:
  "json_value (Suc n) d (''null'' @ rest) = Some (JNull, rest)"
  "json_value (Suc n) d (''true'' @ rest) = Some (JBool True, rest)"
  "json_value (Suc n) d (''false'' @ rest) = Some (JBool False, rest)"
  by (simp_all add: skip_space_Cons is_digit_def)

lemma foldr_max_nonneg:
  "0 \<le> foldr (\<lambda>v h. max (json_height v) h) vs 0"
  "0 \<le> foldr (\<lambda>(k, v) h. max (json_height v) h) ms 0"
proof -
  show "0 \<le> foldr (\<lambda>v h. max (json_height v) h) vs 0" by (induction vs) auto
  show "0 \<le> foldr (\<lambda>(k, v) h. max (json_height v) h) ms 0" by (induction ms) auto
qed

lemma elems_start:
  assumes "vs \<noteq> []" "list_all printable vs" "list_all json_space (nl k)"
  shows "\<exists>c r. skip_space (print_elems nl sp k vs @ x) = c # r \<and> c \<noteq> CHR '']''"
proof -
  from assms(1,2) obtain v ws where vs: "vs = v # ws" and v: "printable v"
    by (cases vs) auto
  from json_print_start [OF v, of nl sp k] obtain c r where
    "json_print nl sp k v = c # r" "\<not> json_space c" "c \<noteq> CHR '']''" by blast
  then show ?thesis
    by (simp add: vs skip_space_append [OF assms(3)] skip_space_Cons)
qed

lemma members_start:
  assumes "ms \<noteq> []" "list_all json_space (nl k)"
  shows "\<exists>r. skip_space (print_members nl sp k ms @ x) = CHR 0x22 # r"
proof -
  from assms(1) obtain key v ms' where "ms = (key, v) # ms'" by (cases ms) auto
  then show ?thesis by (simp add: skip_space_append [OF assms(2)] skip_space_Cons)
qed

lemma json_read_print:
  assumes "\<And>k. list_all json_space (nl k)" "list_all json_space sp"
  shows "printable v \<Longrightarrow> d + json_height v \<le> max_nesting \<Longrightarrow> num_end rest \<Longrightarrow>
      2 * length (json_print nl sp k v) \<le> n \<Longrightarrow>
      json_value n d (json_print nl sp k v @ rest) = Some (v, rest)"
    and "vs \<noteq> [] \<Longrightarrow> list_all printable vs \<Longrightarrow>
      d + foldr (\<lambda>v h. max (json_height v) h) vs 0 \<le> max_nesting \<Longrightarrow>
      2 * length (print_elems nl sp k vs) < n \<Longrightarrow> list_all json_space w \<Longrightarrow>
      json_elems n d (print_elems nl sp k vs @ w @ CHR '']'' # rest) = Some (vs, rest)"
    and "ms \<noteq> [] \<Longrightarrow> list_all (\<lambda>(k, v). reads_as (key_text k) k \<and> printable v) ms \<Longrightarrow>
      d + foldr (\<lambda>(k, v) h. max (json_height v) h) ms 0 \<le> max_nesting \<Longrightarrow>
      2 * length (print_members nl sp k ms) < n \<Longrightarrow> list_all json_space w \<Longrightarrow>
      json_members n d (print_members nl sp k ms @ w @ CHR ''}'' # rest) = Some (ms, rest)"
  using assms
proof (induction nl sp k v and nl sp k vs and nl sp k ms arbitrary: d n rest and d n rest w
    and d n rest w rule: json_print_print_elems_print_members.induct)
  case (1 nl sp k)
  then obtain m where "n = Suc m" by (cases n) auto
  then show ?case using json_value_const [of m d rest] by simp
next
  case (2 nl sp k b)
  then obtain m where "n = Suc m" by (cases n) (auto split: if_splits)
  then show ?case using json_value_const [of m d rest] by simp
next
  case (3 nl sp k s)
  then have s: "num_text s" by simp
  then have "s \<noteq> []" by (simp add: num_text_def)
  with 3 obtain m where "n = Suc m" by (cases n) auto
  then show ?case using json_value_num [OF s "3.prems"(3)] by simp
next
  case (4 nl sp k raw s)
  then obtain m where "n = Suc m" by (cases n) auto
  with 4 json_value_str [of raw s m d rest] show ?case by simp
next
  case (5 nl sp k vs)
  then obtain m where n: "n = Suc m" by (cases n) (auto split: if_splits)
  have d: "\<not> max_nesting \<le> d" using "5.prems"(2) foldr_max_nonneg(1) [of vs] by simp
  show ?case
  proof (cases "vs = []")
    case True
    with n d show ?thesis by (simp add: skip_space_Cons is_digit_def)
  next
    case False
    let ?t = "print_elems nl sp (Suc k) vs @ nl k @ CHR '']'' # rest"
    have vs: "list_all printable vs" using "5.prems"(1) by simp
    obtain c r where st: "skip_space ?t = c # r" "c \<noteq> CHR '']''"
      using elems_start [OF False vs, of nl "Suc k"] "5.prems"(5) by blast
    have "json_elems m (d + 1) ?t = Some (vs, rest)"
      by (rule "5.IH" [OF False False vs]) (use "5.prems" n False in auto)
    with st n d False show ?thesis by (simp add: skip_space_Cons is_digit_def)
  qed
next
  case (6 nl sp k ms)
  then obtain m where n: "n = Suc m" by (cases n) (auto split: if_splits)
  have d: "\<not> max_nesting \<le> d" using "6.prems"(2) foldr_max_nonneg(2) [of ms] by simp
  show ?case
  proof (cases "ms = []")
    case True
    with n d show ?thesis by (simp add: skip_space_Cons is_digit_def)
  next
    case False
    let ?t = "print_members nl sp (Suc k) ms @ nl k @ CHR ''}'' # rest"
    obtain r where st: "skip_space ?t = CHR 0x22 # r"
      using members_start [OF False, of nl "Suc k"] "6.prems"(5) by blast
    have "json_members m (d + 1) ?t = Some (ms, rest)"
      by (rule "6.IH" [OF False False]) (use "6.prems" n False in auto)
    with st n d False show ?thesis by (simp add: skip_space_Cons is_digit_def)
  qed
next
  case (7 nl sp k)
  then show ?case by simp
next
  case (8 nl sp k v vs)
  then obtain m where n: "n = Suc m" by (cases n) auto
  let ?rest = "(if vs = [] then [] else CHR '','' # print_elems nl sp k vs) @ w @ CHR '']'' # rest"
  have e: "num_end ?rest" using "8.prems"(5) by (simp add: num_end_space)
  have v: "json_value m d (nl k @ json_print nl sp k v @ ?rest) = Some (v, ?rest)"
    unfolding json_value_space [OF "8.prems"(6)]
    by (rule "8.IH"(1)) (use "8.prems" n e in auto)
  show ?case
  proof (cases "vs = []")
    case True
    with v n show ?thesis by (simp add: skip_space_append [OF "8.prems"(5)] skip_space_Cons)
  next
    case False
    have "json_elems m d (print_elems nl sp k vs @ w @ CHR '']'' # rest) = Some (vs, rest)"
      by (rule "8.IH"(2) [OF False False]) (use "8.prems" n False in auto)
    with v n False show ?thesis by (simp add: skip_space_Cons)
  qed
next
  case (9 nl sp k)
  then show ?case by simp
next
  case (10 nl sp k key v ms)
  then obtain m where n: "n = Suc m" by (cases n) auto
  let ?rest = "(if ms = [] then [] else CHR '','' # print_members nl sp k ms) @ w @ CHR ''}'' # rest"
  let ?val = "sp @ json_print nl sp k v @ ?rest"
  have key: "reads_as (key_text key) key" using "10.prems"(2) by simp
  have k: "json_string (length (key_text key @ CHR 0x22 # CHR '':'' # ?val))
      (key_text key @ CHR 0x22 # CHR '':'' # ?val) = Some (key, CHR '':'' # ?val)"
    by (rule reads_asD [OF key]) simp
  have e: "num_end ?rest" using "10.prems"(5) by (simp add: num_end_space)
  have v: "json_value m d ?val = Some (v, ?rest)"
    unfolding json_value_space [OF "10.prems"(7)]
    by (rule "10.IH"(1)) (use "10.prems" n e in auto)
  show ?case
  proof (cases "ms = []")
    case True
    with v k n show ?thesis
      by (simp add: skip_space_append [OF "10.prems"(5)] skip_space_append [OF "10.prems"(6)]
          skip_space_Cons)
  next
    case False
    have "json_members m d (print_members nl sp k ms @ w @ CHR ''}'' # rest) = Some (ms, rest)"
      by (rule "10.IH"(2) [OF False False]) (use "10.prems" n False in auto)
    with v k n False show ?thesis
      by (simp add: skip_space_append [OF "10.prems"(6)] skip_space_Cons)
  qed
qed

lemma indent2_space: "list_all json_space (indent2 k)"
  by (auto simp: indent2_def list_all_iff json_space_def)

lemma json_unmarshal_print:
  assumes "\<And>k. list_all json_space (nl k)" "list_all json_space sp" "printable v"
    "json_height v \<le> max_nesting" "list_all json_space w"
  shows "json_unmarshal (json_print nl sp 0 v @ w) = Some v"
proof -
  have "num_end w" using num_end_space [OF assms(5), of "[]"] by simp
  then have "json_decode_first (json_print nl sp 0 v @ w) = Some (v, w)"
    unfolding json_decode_first_def using assms by (intro json_read_print(1)) auto
  moreover have "skip_space w = []" using skip_space_append [OF assms(5), of "[]"]
    by (simp add: skip_space_def)
  ultimately show ?thesis by (simp add: json_unmarshal_def)
qed

lemma json_unmarshal_compact:
  "printable v \<Longrightarrow> json_height v \<le> max_nesting \<Longrightarrow> json_unmarshal (compact v) = Some v"
  using json_unmarshal_print [of "\<lambda>_. []" "[]" v "[]"] by (simp add: compact_def)

lemma json_unmarshal_indented:
  "printable v \<Longrightarrow> json_height v \<le> max_nesting \<Longrightarrow>
   json_unmarshal (indented v @ [CHR 0x0A]) = Some v"
  unfolding indented_def
  by (rule json_unmarshal_print) (auto simp: indent2_space json_space_def)

end
