(* ===== verification/Zen_Store.thy ===== *)
theory Zen_Store
  imports Zen_State Go_Json_Print "HOL-Library.Char_ord" "HOL-Library.List_Lexorder"
begin

text \<open>
  The stores of \<open>src/state.go\<close>: the state written as JSON, \<open>memoryStore\<close> and \<open>fileStore\<close>.
  Each system call of a save of the file store is a function of its own, on the bytes and
  the mode of the temporary file and on the directory.
\<close>

section \<open>Writing the state as JSON\<close>

definition time_json :: "timelib \<Rightarrow> time \<Rightarrow> json" where
  "time_json T t = (case time_Marshal T t of Some raw \<Rightarrow> JStr raw raw | None \<Rightarrow> JNull)"

text \<open>\<open>omitempty\<close> on a string.\<close>

definition opt_member :: "string \<Rightarrow> string \<Rightarrow> json_object" where
  "opt_member name s = (if s = [] then [] else [(name, json_quote s)])"

definition class_json :: "timelib \<Rightarrow> classification \<Rightarrow> json" where
  "class_json T c =
     JObj ([(''kind'', json_quote (Kind c)), (''reason'', json_quote (Reason c))]
       @ opt_member ''window'' (Window c) @ [(''until'', time_json T (Until c))]
       @ opt_member ''reset_source'' (ResetSource c)
       @ opt_member ''fallback_reason'' (FallbackReason c))"

definition key_json :: "timelib \<Rightarrow> keyState \<Rightarrow> json" where
  "key_json T k =
     JObj ([(''cooldown_until'', time_json T (ExhaustedUntil k)),
            (''suspended_until'', time_json T (SuspendedUntil k)),
            (''rate_limited_until'', time_json T (RateLimitedUntil k)),
            (''transient_until'', time_json T (TransientUntil k)),
            (''ignore_results_before'', time_json T (IgnoreBefore k)),
            (''last_failure'', class_json T (LastFailure k)),
            (''last_failure_at'', time_json T (LastFailureAt k)),
            (''last_success_at'', time_json T (LastSuccessAt k))]
       @ opt_member ''last_action'' (LastAction k)
       @ [(''success'', JNum (show_uint (uint (Success k)))),
          (''failed'', JNum (show_uint (uint (Failed k))))])"

text \<open>The keys of a map are written in the order of their bytes.\<close>

definition keys_json :: "timelib \<Rightarrow> (string, keyState) fmap \<Rightarrow> json" where
  "keys_json T m =
     JObj (map (\<lambda>i. (i, key_json T (the (fmlookup m i)))) (sorted_list_of_fset (fmdom m)))"

definition state_json :: "timelib \<Rightarrow> persistedState \<Rightarrow> json" where
  "state_json T s =
     JObj ([(''version'', JNum (show_int (Version s)))]
       @ opt_member ''current'' (Current s) @ opt_member ''cursor'' (Cursor s)
       @ [(''keys'', keys_json T (Keys s))])"

definition key_times :: "keyState \<Rightarrow> time list" where
  "key_times k =
     [ExhaustedUntil k, SuspendedUntil k, RateLimitedUntil k, TransientUntil k, IgnoreBefore k,
      Until (LastFailure k), LastFailureAt k, LastSuccessAt k]"

definition times_ok :: "timelib \<Rightarrow> persistedState \<Rightarrow> bool" where
  "times_ok T s \<longleftrightarrow>
     fmpred (\<lambda>_ k. list_all (\<lambda>t. time_Marshal T t \<noteq> None) (key_times k)) (Keys s)"

text \<open>Both forms fail when an instant cannot be written.\<close>

definition Marshal :: "timelib \<Rightarrow> persistedState \<Rightarrow> string option" where
  "Marshal T s = (if times_ok T s then Some (compact (state_json T s)) else None)"

definition MarshalIndent :: "timelib \<Rightarrow> persistedState \<Rightarrow> string option" where
  "MarshalIndent T s = (if times_ok T s then Some (indented (state_json T s)) else None)"

section \<open>memoryStore\<close>

record memoryStore =
  mem_raw :: string

definition memory_Load :: "timelib \<Rightarrow> memoryStore \<Rightarrow> persistedState option" where
  "memory_Load T m = (if mem_raw m = [] then Some emptyState else decodeState T (mem_raw m))"

definition memory_Save :: "timelib \<Rightarrow> persistedState \<Rightarrow> memoryStore \<Rightarrow> bool \<times> memoryStore" where
  "memory_Save T v m =
     (case Marshal T v of Some b \<Rightarrow> (True, m\<lparr>mem_raw := b\<rparr>) | None \<Rightarrow> (False, m))"

definition memory_ops :: "timelib \<Rightarrow> memoryStore stateStore" where
  "memory_ops T =
     \<lparr>Load = memory_Load T, Save = memory_Save T, CloseStore = (\<lambda>m. (True, m))\<rparr>"

section \<open>fileStore\<close>

text \<open>
  A file has bytes that are read from it while the system runs (\<open>f_seen\<close>), bytes that are
  left of it after a power failure (\<open>f_disk\<close>), and a mode.
\<close>

record statefile =
  f_seen :: string
  f_disk :: string
  f_mode :: int

text \<open>\<open>0600\<close>: the owner may read and write.\<close>

definition private_mode :: int where
  "private_mode = 6 * 8 ^ 2"

text \<open>
  How the operating system answers the calls of one \<open>Save\<close>, and what a call that fails, or
  that is not made, leaves behind: the mode of a new file, the number of bytes a failed
  write has written, the number of bytes that are on the disk after a failed sync, the
  number of bytes that are left after a failed close (which may report a write that was
  delayed), and whether a rename outlasts a power failure although the directory was not
  synced.
\<close>

record os_verdicts =
  ok_create :: bool
  created_mode :: int
  ok_chmod :: bool
  ok_write :: bool
  written :: nat
  ok_sync :: bool
  synced :: nat
  ok_close :: bool
  kept :: nat
  ok_rename :: bool
  rename_lasts :: bool
  ok_opendir :: bool
  ok_dirsync :: bool

definition all_ok :: os_verdicts where
  "all_ok = \<lparr>ok_create = True, created_mode = private_mode, ok_chmod = True, ok_write = True,
     written = 0, ok_sync = True, synced = 0, ok_close = True, kept = 0, ok_rename = True,
     rename_lasts = False, ok_opendir = True, ok_dirsync = True\<rparr>"

text \<open>
  The directory as the store sees it: \<open>state.json\<close>, if it exists, as the running system
  shows it (\<open>fs_state\<close>) and as the directory on the disk has it (\<open>fs_disk\<close>); whether it may
  be read, whether the store holds the lock file, how the lock file closes, and the
  answers to the saves to come. Once these run out every call succeeds.
\<close>

record fileStore =
  fs_state :: "statefile option"
  fs_disk :: "statefile option"
  fs_readable :: bool
  fs_lock :: bool
  fs_close_ok :: bool
  fs_future :: "os_verdicts list"

text \<open>The directory after the machine lost its power and came up again.\<close>

definition power_failure :: "fileStore \<Rightarrow> fileStore" where
  "power_failure f =
     f\<lparr>fs_state := map_option (\<lambda>t. t\<lparr>f_seen := f_disk t\<rparr>) (fs_disk f), fs_lock := False\<rparr>"

definition max_state :: int where
  "max_state = 8 * 1024 * 1024"

definition file_Load :: "timelib \<Rightarrow> fileStore \<Rightarrow> persistedState option" where
  "file_Load T f =
     (case fs_state f of
        None \<Rightarrow> Some emptyState
      | Some t \<Rightarrow>
          if \<not> fs_readable f \<or> max_state < int (length (f_seen t)) then None
          else decodeState T (f_seen t))"

text \<open>
  The calls on the temporary file, each with what it returns and the file after it. The
  deferred \<open>os.Remove\<close> of the temporary file is not seen from \<open>state.json\<close>.
\<close>

definition CreateTemp :: "os_verdicts \<Rightarrow> statefile" where
  "CreateTemp v = \<lparr>f_seen = [], f_disk = [], f_mode = created_mode v\<rparr>"

definition Chmod :: "os_verdicts \<Rightarrow> int \<Rightarrow> statefile \<Rightarrow> bool \<times> statefile" where
  "Chmod v m t = (ok_chmod v, if ok_chmod v then t\<lparr>f_mode := m\<rparr> else t)"

definition Write :: "os_verdicts \<Rightarrow> string \<Rightarrow> statefile \<Rightarrow> bool \<times> statefile" where
  "Write v b t =
     (ok_write v, t\<lparr>f_seen := f_seen t @ (if ok_write v then b else take (written v) b)\<rparr>)"

definition Sync :: "os_verdicts \<Rightarrow> statefile \<Rightarrow> bool \<times> statefile" where
  "Sync v t =
     (ok_sync v, t\<lparr>f_disk := if ok_sync v then f_seen t else take (synced v) (f_seen t)\<rparr>)"

definition CloseTemp :: "os_verdicts \<Rightarrow> statefile \<Rightarrow> bool \<times> statefile" where
  "CloseTemp v t =
     (ok_close v, if ok_close v then t
        else t\<lparr>f_seen := take (kept v) (f_seen t), f_disk := take (kept v) (f_disk t)\<rparr>)"

text \<open>The calls up to the rename, with the file they leave if none of them fails.\<close>

definition write_steps :: "os_verdicts \<Rightarrow> string \<Rightarrow> statefile option" where
  "write_steps v b =
     (if \<not> ok_create v then None
      else case Chmod v private_mode (CreateTemp v) of (c, t1) \<Rightarrow>
        if \<not> c then None
        else case Write v (b @ [CHR 0x0A]) t1 of (w, t2) \<Rightarrow>
          if \<not> w then None
          else case Sync v t2 of (s, t3) \<Rightarrow>
            if \<not> s then None
            else case CloseTemp v t3 of (x, t4) \<Rightarrow>
              if \<not> x then None else Some t4)"

text \<open>A rename that fails changes nothing; syncing the directory writes its entry to the disk.\<close>

definition Rename :: "os_verdicts \<Rightarrow> statefile \<Rightarrow> fileStore \<Rightarrow> bool \<times> fileStore" where
  "Rename v t f =
     (ok_rename v, if \<not> ok_rename v then f
        else f\<lparr>fs_state := Some t, fs_disk := if rename_lasts v then Some t else fs_disk f\<rparr>)"

definition SyncDir :: "os_verdicts \<Rightarrow> fileStore \<Rightarrow> bool \<times> fileStore" where
  "SyncDir v f = (ok_dirsync v, if ok_dirsync v then f\<lparr>fs_disk := fs_state f\<rparr> else f)"

definition file_Save :: "timelib \<Rightarrow> persistedState \<Rightarrow> fileStore \<Rightarrow> bool \<times> fileStore" where
  "file_Save T s f0 =
     (case MarshalIndent T s of
        None \<Rightarrow> (False, f0)
      | Some b \<Rightarrow>
          (let v = (case fs_future f0 of [] \<Rightarrow> all_ok | v # _ \<Rightarrow> v);
               f = f0\<lparr>fs_future := tl (fs_future f0)\<rparr>
           in case write_steps v b of
                None \<Rightarrow> (False, f)
              | Some t \<Rightarrow>
                  (case Rename v t f of (r, f') \<Rightarrow>
                     if \<not> r then (False, f')
                     else if \<not> ok_opendir v then (False, f')
                     else SyncDir v f')))"

definition file_Close :: "fileStore \<Rightarrow> bool \<times> fileStore" where
  "file_Close f = (if \<not> fs_lock f then (True, f) else (fs_close_ok f, f\<lparr>fs_lock := False\<rparr>))"

definition file_ops :: "timelib \<Rightarrow> fileStore stateStore" where
  "file_ops T = \<lparr>Load = file_Load T, Save = file_Save T, CloseStore = file_Close\<rparr>"

text \<open>
  \<open>newFileStore\<close>: the directory and the lock file are made, and the advisory lock is
  taken without waiting. The directory is given as a store without a lock.
\<close>

definition newFileStore :: "bool \<Rightarrow> bool \<Rightarrow> bool \<Rightarrow> fileStore \<Rightarrow> fileStore option" where
  "newFileStore ok_mkdir ok_open locked dir =
     (if \<not> ok_mkdir then None
      else if \<not> ok_open then None
      else if locked then None
      else Some (dir\<lparr>fs_lock := True\<rparr>))"

end
