(* ===== verification/Zen_Examples.thy ===== *)
theory Zen_Examples
  imports Zen_Pool_Steps Zen_Store
begin

text \<open>
  Concrete inputs on which the properties are instantiated: a library whose date parsers
  reject everything, a configuration with two accounts, a codec for single instants, an
  empty memory store, and the requests and outcomes that are played on the pool.
\<close>

definition demo_lib :: golib where
  "demo_lib = \<lparr>uni_lower = id, time_Parse_RFC3339Nano = (\<lambda>_. 0), http_ParseTime = (\<lambda>_. 0)\<rparr>"

text \<open>An instant that is not before the zero instant, written as a number.\<close>

definition demo_times :: timelib where
  "demo_times = \<lparr>time_Unmarshal = parse_uint,
     time_Marshal = (\<lambda>t. if 0 \<le> t then Some (show_uint t) else None)\<rparr>"

definition demo_account :: "string \<Rightarrow> account" where
  "demo_account n = \<lparr>Fingerprint = n, AuthID = ''id-'' @ n, Label = ''label-'' @ n,
     Disabled = False, ProxyPresent = False, ProxyLabel = []\<rparr>"

definition demo_cfg :: configuration where
  "demo_cfg = \<lparr>ConfigPath = ''config.yaml'', StateDir = ''state'', Provider = ''zen'',
     Accounts = [demo_account ''a'', demo_account ''b''], Models = {|''big''|},
     ForwardHeaders = fmempty, Fallback = 500, AuthSuspension = 300, RateFallback = 20,
     TransientFallback = 40, HostCoolingDisabled = True\<rparr>"

definition demo_pool :: "memoryStore pool" where
  "demo_pool = opened demo_cfg \<lparr>mem_raw = []\<rparr> emptyState"

definition demo_request :: schedulerRequest where
  "demo_request = \<lparr>req_Provider = ''zen'', req_Providers = [], req_Model = ''big'',
     req_Candidates =
       [\<lparr>cand_ID = ''id-b'', cand_Provider = [], cand_Status = []\<rparr>,
        \<lparr>cand_ID = ''id-a'', cand_Provider = [], cand_Status = []\<rparr>]\<rparr>"

definition demo_outcome :: "string \<Rightarrow> time \<Rightarrow> bool \<Rightarrow> int \<Rightarrow> string \<Rightarrow> usageRecord" where
  "demo_outcome auth sent failed status body =
     \<lparr>rec_Provider = ''zen'', rec_BaseURL = [], rec_AuthID = auth, RequestedAt = sent,
      Latency = 0, rec_Failed = failed, StatusCode = status, Body = body,
      ResponseHeaders = []\<rparr>"

text \<open>A fingerprint.\<close>

definition hash_a :: string where
  "hash_a = replicate 64 (CHR ''a'')"

lemma hash_a_hash: "hashID hash_a"
  by code_simp

text \<open>The methods of a memory store with that codec.\<close>

definition demo_ops :: "memoryStore stateStore" where
  "demo_ops = memory_ops demo_times"

lemma demo_pool_new: "newPool demo_ops demo_cfg \<lparr>mem_raw = []\<rparr> = Some demo_pool"
  by (simp add: newPool_opened demo_ops_def memory_ops_def memory_Load_def demo_pool_def
      emptyState_def)

lemma demo_pool_fresh: "fresh_reach demo_ops G 1000 demo_pool"
  by (rule fresh_reach.start [OF _ demo_pool_new])
    (simp_all add: demo_pool_def current_fresh_def emptyState_def)

lemma demo_pool_reach: "pool_reach demo_ops G 1000 demo_pool"
  by (rule fresh_reach_reach) (rule demo_pool_fresh)

lemma demo_pool_wf: "wf_pool demo_pool"
  by (rule pool_reach_wf) (rule demo_pool_reach)

end
