(* ===== verification/Zen_Pool_Props.thy ===== *)
theory Zen_Pool_Props
  imports Zen_Examples
begin

text \<open>
  The properties of the pool: what is selected, when it is given up, what each outcome
  and each management operation changes, and how the pool fails closed. Every property
  with a hypothesis is followed by a witness at a concrete input.
\<close>

section \<open>Safety of every run\<close>

text \<open>
  C1: No operation of the pool panics (dereferences a nil key state), in any order of
  operations, on any pool \<open>newPool\<close> or \<open>faultedPool\<close> made; every account keeps a key
  state, every known auth ID and the current selection belong to configured accounts.
\<close>

theorem pool_never_panics:
  assumes "pool_reach M G t p" "t \<le> now" "pool_step M G now e p = (panicked, q)"
  shows "\<not> panicked \<and> wf_pool q \<and> pool_reach M G now q"
  using assms pool_step_wf [OF pool_reach_wf [OF assms(1)] assms(3)]
  by (auto intro: pool_reach.event)

theorem pool_never_panics_witness:
  "\<not> fst (pool_step demo_ops demo_lib 1010 (EGuard ''big'' []) demo_pool)"
  using pool_never_panics [OF demo_pool_reach, of 1010 demo_lib "EGuard ''big'' []"]
  by (cases "pool_step demo_ops demo_lib 1010 (EGuard ''big'' []) demo_pool")
    (simp del: pool_step.simps)

section \<open>Selection\<close>

text \<open>
  C2: What \<open>Pick\<close> hands out is the auth ID of a configured, enabled account none of whose
  four deadlines lies in the future, which the host offers as a candidate that is not
  disabled, and which is then the current account; and a pool that is closed or has a
  fault hands out nothing.
\<close>

theorem pick_sound:
  assumes "pool_reach M G t p" "Pick M now req p = (Ok x, q)" "Handled x"
  shows "\<exists>a\<in>set (Accounts (p_cfg p)).
      resp_AuthID x = AuthID a \<and> \<not> Disabled a
    \<and> ExhaustedUntil (state_of p a) \<le> now \<and> SuspendedUntil (state_of p a) \<le> now
    \<and> RateLimitedUntil (state_of p a) \<le> now \<and> TransientUntil (state_of p a) \<le> now
    \<and> (\<exists>c\<in>set (req_Candidates req). cand_ID c = AuthID a \<and> cand_Status c \<noteq> ''disabled'')
    \<and> Current (p_state q) = Fingerprint a \<and> \<not> p_closed p \<and> p_fault p = []"
proof -
  from Pick_spec [OF pool_reach_wf [OF assms(1)] assms(2)] assms(3)
  have "\<not> p_closed p" "p_fault p = []" "picked req now p x q" by auto
  then show ?thesis
    by (auto simp: picked_def list_ex_iff eligible_iff candidate_present_def)
qed

lemma demo_pick:
  "fst (Pick demo_ops 1000 demo_request demo_pool) = Ok \<lparr>Handled = True, resp_AuthID = ''id-a''\<rparr>"
  by code_simp

theorem pick_sound_witness:
  "\<exists>a\<in>set (Accounts demo_cfg). ''id-a'' = AuthID a \<and> \<not> Disabled a"
  using pick_sound [OF demo_pool_reach [of demo_lib], of 1000 demo_request
      "\<lparr>Handled = True, resp_AuthID = ''id-a''\<rparr>" "snd (Pick demo_ops 1000 demo_request demo_pool)"]
    demo_pick
  by (auto simp: prod_eq_iff demo_pool_def)

text \<open>
  C6: The search for the next account visits the configured accounts in their order,
  beginning after the first account with the given fingerprint and wrapping round, and
  takes the first one that is enabled and past all its deadlines; it becomes current and
  the cursor. If there is none, no account is current.
\<close>

theorem choose_is_first_eligible:
  assumes "pool_reach M G t p" "Accounts (p_cfg p) \<noteq> []"
  shows "chooseLocked p h now =
    (case find (eligible p now) (visit_order (Accounts (p_cfg p)) h) of
       Some a \<Rightarrow> (Ok True, set_cursor (Fingerprint a) (set_current (Fingerprint a) p))
     | None \<Rightarrow> (Ok False, set_current [] p))"
  using chooseLocked_spec [OF wf_poolD(1) [OF pool_reach_wf [OF assms(1)]], of h now] assms(2)
  by (simp add: next_eligible_def search_order_visit make_current_def cong: option.case_cong)

theorem choose_is_first_eligible_witness:
  "chooseLocked demo_pool ''a'' 1000 =
     (Ok True, set_cursor ''b'' (set_current ''b'' demo_pool))"
proof -
  have "find (eligible demo_pool 1000) (visit_order (Accounts (p_cfg demo_pool)) ''a'') =
      Some (demo_account ''b'')" by code_simp
  moreover have "Accounts (p_cfg demo_pool) \<noteq> []" by code_simp
  ultimately show ?thesis
    using choose_is_first_eligible [OF demo_pool_reach [of demo_lib], of "''a''" 1000]
    by (simp add: demo_account_def)
qed

text \<open>
  C15: While the current account is enabled and past all its deadlines, \<open>Pick\<close> keeps
  draining it: the pool does not change, and no other account is handed out, even if the
  host does not offer the current one.
\<close>

theorem pick_drains_current:
  assumes "Current (p_state p) \<noteq> []" "accountLocked p (Current (p_state p)) = Some a"
    and "pool_reach M G t p" "eligible p now a"
  shows "snd (Pick M now req p) = p
    \<and> (fst (Pick M now req p) = Ok x \<longrightarrow> Handled x \<longrightarrow>
         resp_AuthID x = AuthID a \<and> candidate_present req a)"
proof -
  have ok: "keys_ok p" by (rule wf_poolD(1)) (rule pool_reach_wf [OF assms(3)])
  have mem: "a \<in> set (Accounts (p_cfg p))" using accountLocked_SomeD [OF assms(2)] by simp
  have "blockedLocked p (Some a) now = Some []"
    using blockedLocked_empty [OF ok mem] assms(4) by simp
  with assms(1,2) show ?thesis
    by (simp add: Pick_def ensure_current_def pick_current_def pick_answer_Ok)
      (auto simp: pick_answer_def)
qed

definition demo_picked :: "memoryStore pool" where
  "demo_picked = snd (Pick demo_ops 1000 demo_request demo_pool)"

lemma demo_picked_step:
  "pool_step demo_ops G 1000 (EPick demo_request) demo_pool = (False, demo_picked)"
  using demo_pick by (simp add: demo_picked_def prod_eq_iff)

lemma demo_picked_fresh: "fresh_reach demo_ops G 1000 demo_picked"
  by (rule fresh_reach.event [OF demo_pool_fresh _ demo_picked_step]) simp

lemma demo_picked_reach: "pool_reach demo_ops G 1000 demo_picked"
  by (rule fresh_reach_reach) (rule demo_picked_fresh)

lemma demo_picked_eval:
  "Current (p_state demo_picked) = ''a''"
  "accountLocked demo_picked ''a'' = Some (demo_account ''a'')"
  "eligible demo_picked 1005 (demo_account ''a'')"
  unfolding demo_picked_def by code_simp+

theorem pick_drains_current_witness:
  "snd (Pick demo_ops 1005 demo_request demo_picked) = demo_picked"
  using pick_drains_current [of demo_picked "demo_account ''a''" demo_ops demo_lib 1000 1005]
    demo_picked_eval demo_picked_reach [of demo_lib] by simp

definition outcome_class :: "golib \<Rightarrow> time \<Rightarrow> usageRecord \<Rightarrow> 's pool \<Rightarrow> classification" where
  "outcome_class G now r p =
     classify G (StatusCode r) (ResponseHeaders r) (Body r) (observed_at now r)
       (Fallback (p_cfg p))"

fun gives_up :: "golib \<Rightarrow> time \<Rightarrow> 's pool \<Rightarrow> string \<Rightarrow> pool_event \<Rightarrow> bool" where
  "gives_up G now p h (EObserve r) \<longleftrightarrow>
     (case attributed p r of None \<Rightarrow> False
      | Some (h', k) \<Rightarrow> h' = h \<and> rec_Failed r \<and> switches now (outcome_class G now r p))"
| "gives_up G now p h (EReconfigure cfg) \<longleftrightarrow>
     (case find (\<lambda>a. Fingerprint a = h) (Accounts cfg) of None \<Rightarrow> True | Some a \<Rightarrow> Disabled a)"
| "gives_up G now p h (EPick _) \<longleftrightarrow>
     blockedLocked p (accountLocked p h) now \<in> {Some ''suspended'', Some ''transient''}"
| "gives_up G now p h (EGuard _ _) \<longleftrightarrow>
     blockedLocked p (accountLocked p h) now \<in> {Some ''suspended'', Some ''transient''}"
| "gives_up G now p h _ \<longleftrightarrow> False"

lemma Pick_gives_up:
  assumes "Pick M now req p = (r, q)" "Current (p_state p) \<noteq> []"
    and "Current (p_state q) \<noteq> Current (p_state p)"
  shows "gives_up G now p (Current (p_state p)) (EPick req)"
proof -
  from assms have "pick_current req now p = (r, q)"
    by (auto simp: Pick_def ensure_current_def split: if_splits)
  with assms(3) show ?thesis
    by (auto simp: pick_current_def split: option.splits if_splits)
qed

lemma Guard_gives_up:
  assumes "Guard G now m h p = (r, q)" "Current (p_state q) \<noteq> Current (p_state p)"
  shows "gives_up G now p (Current (p_state p)) (EGuard m h)"
  using assms
  by (auto simp: Guard_def guard_current_def split: option.splits if_splits)

lemma Observe_decisive:
  assumes "wf_pool p" "attributed p r = Some (h, k)" "rec_Failed r" "\<not> stale_record k r"
    and "\<not> observed_at now r < LastFailureAt k" "switches now (outcome_class G now r p)"
    and "Observe M G now r p = (res, q)"
  obtains p1 where
    "advance h now (put_key h (fail_key (p_cfg p) now (observed_at now r)
        (outcome_class G now r p) (k\<lparr>Failed := Failed k + 1\<rparr>)) p) = (Ok (), p1)"
    "saved M p1 = (res, q)"
proof -
  let ?p0 = "put_key h (fail_key (p_cfg p) now (observed_at now r) (outcome_class G now r p)
      (k\<lparr>Failed := Failed k + 1\<rparr>)) p"
  obtain r1 p1 where a: "advance h now ?p0 = (r1, p1)" by fastforce
  have "r1 = Ok ()" using advance_spec [OF wf_pool_put_key [OF assms(1)] a] by simp
  moreover have "\<not> stale_record (k\<lparr>Failed := Failed k + 1\<rparr>) r"
    using assms(4) by (simp add: stale_record_def)
  ultimately have "saved M p1 = (res, q)"
    using assms a by (simp add: Observe_attributed observe_failure_def outcome_class_def Let_def)
  with a \<open>r1 = Ok ()\<close> show ?thesis by (auto intro: that)
qed

text \<open>Every other outcome writes the state of its own key and nothing else.\<close>

lemma Observe_quiet:
  assumes "Observe M G now r p = (res, q)" "attributed p r = Some (h, k)"
    and "\<not> (rec_Failed r \<and> \<not> stale_record k r \<and> \<not> observed_at now r < LastFailureAt k
            \<and> switches now (outcome_class G now r p))"
  obtains k' where "saved M (put_key h k' p) = (res, q)"
    "k' = (if \<not> rec_Failed r then record_success (observed_at now r) k
           else if stale_record k r \<or> observed_at now r < LastFailureAt k
           then k\<lparr>Failed := Failed k + 1\<rparr>
           else fail_key (p_cfg p) now (observed_at now r) (outcome_class G now r p)
                  (k\<lparr>Failed := Failed k + 1\<rparr>))"
  using assms
  by (auto simp: Observe_attributed observe_failure_def outcome_class_def Let_def
      stale_record_def split: if_splits)

lemma Observe_gives_up:
  assumes "wf_pool p" "Observe M G now r p = (res, q)" "Current (p_state q) \<noteq> Current (p_state p)"
  shows "gives_up G now p (Current (p_state p)) (EObserve r)"
proof (cases "attributed p r")
  case None
  with assms show ?thesis by (auto simp: Observe_not_attributed split: if_splits)
next
  case (Some hk)
  then obtain h k where hk: "attributed p r = Some (h, k)" by (cases hk) auto
  show ?thesis
  proof (cases "rec_Failed r \<and> \<not> stale_record k r \<and> \<not> observed_at now r < LastFailureAt k
      \<and> switches now (outcome_class G now r p)")
    case True
    then obtain p1 where a: "advance h now (put_key h (fail_key (p_cfg p) now (observed_at now r)
        (outcome_class G now r p) (k\<lparr>Failed := Failed k + 1\<rparr>)) p) = (Ok (), p1)"
      and s: "saved M p1 = (res, q)"
      using Observe_decisive [OF assms(1) hk] assms(2) by metis
    have "Current (p_state p) = h"
      using advance_spec [OF wf_pool_put_key [OF assms(1)] a] saved_frame [OF s] assms(3) by auto
    with True hk show ?thesis by simp
  next
    case False
    then obtain k' where "saved M (put_key h k' p) = (res, q)"
      using Observe_quiet [OF assms(2) hk] by metis
    from saved_frame(2) [OF this] assms(3) show ?thesis by simp
  qed
qed

lemma Reconfigure_gives_up:
  assumes "Reconfigure M now cfg p = (r, q)" "Current (p_state q) \<noteq> Current (p_state p)"
  shows "gives_up G now p (Current (p_state p)) (EReconfigure cfg)"
proof (rule ccontr)
  assume "\<not> ?thesis"
  then obtain a where "find (\<lambda>a. Fingerprint a = Current (p_state p)) (Accounts cfg) = Some a"
    and "\<not> Disabled a"
    by (auto split: option.splits)
  with assms show False
    by (auto simp: Reconfigure_def accountLocked_def Let_def dest: saved_frame split: if_splits)
qed

text \<open>
  C4: The current account is given up only for a cause: an outcome of that very account
  classified as quota (with a reset in the future), authentication or transient; a
  selection that finds it suspended or quarantined; or a configuration that drops or
  disables it. No success, rate limit, other failure, resume, status or close does it.
\<close>

theorem current_given_up_for_cause:
  assumes "pool_reach M G t p" "pool_step M G now e p = (b, q)"
    and "Current (p_state p) \<noteq> []" "Current (p_state q) \<noteq> Current (p_state p)"
  shows "gives_up G now p (Current (p_state p)) e"
proof (cases e)
  case (EPick req)
  with assms show ?thesis
    by (cases "Pick M now req p") (auto simp del: gives_up.simps intro: Pick_gives_up)
next
  case (EGuard m h)
  with assms show ?thesis
    by (cases "Guard G now m h p") (auto simp del: gives_up.simps intro: Guard_gives_up)
next
  case (EObserve r)
  with assms pool_reach_wf [OF assms(1)] show ?thesis
    by (cases "Observe M G now r p") (auto simp del: gives_up.simps intro: Observe_gives_up)
next
  case (EReconfigure cfg)
  with assms show ?thesis
    by (cases "Reconfigure M now cfg p") (auto simp del: gives_up.simps intro: Reconfigure_gives_up)
next
  case (EResume l c)
  with assms show ?thesis
    by (auto simp: Resume_def map_prod_def dest: saved_frame
        split: prod.splits if_splits option.splits)
next
  case EClose
  with assms Close_spec [OF pool_reach_wf [OF assms(1)]] show ?thesis
    by (cases "Close M p") auto
qed (use assms in auto)

definition demo_failure :: usageRecord where
  "demo_failure = demo_outcome ''id-a'' 1001 True 503 []"

definition demo_switched :: "memoryStore pool" where
  "demo_switched = snd (Observe demo_ops demo_lib 1010 demo_failure demo_picked)"

lemma demo_switched_eval:
  "Current (p_state demo_switched) = ''b''" "Cursor (p_state demo_switched) = ''b''"
  "fst (Observe demo_ops demo_lib 1010 demo_failure demo_picked) = Ok ()"
  unfolding demo_switched_def demo_picked_def by code_simp+

lemma demo_switched_step:
  "pool_step demo_ops demo_lib 1010 (EObserve demo_failure) demo_picked = (False, demo_switched)"
  using demo_switched_eval(3) by (simp add: demo_switched_def prod_eq_iff)

lemma demo_switched_reach: "pool_reach demo_ops demo_lib 1010 demo_switched"
  by (rule pool_reach.event [OF demo_picked_reach _ demo_switched_step]) simp

theorem current_given_up_for_cause_witness:
  "gives_up demo_lib 1010 demo_picked ''a'' (EObserve demo_failure)"
  using current_given_up_for_cause [OF demo_picked_reach demo_switched_step]
  by (simp add: demo_picked_eval demo_switched_eval del: gives_up.simps)

text \<open>
  C5: On a pool that began without a failed current account, no sequence of operations
  ever leaves an account current that is still exhausted, suspended or quarantined: at
  every moment only a rate limit, or being disabled, can block the current account.
\<close>

theorem current_never_failed:
  assumes "fresh_reach M G t p" "Current (p_state p) \<noteq> []"
  shows "\<exists>k. key_of p (Current (p_state p)) = Some k
    \<and> ExhaustedUntil k \<le> t \<and> SuspendedUntil k \<le> t \<and> TransientUntil k \<le> t"
proof -
  from fresh_reach_inv [OF assms(1)] have wf: "wf_pool p" and fr: "current_fresh t p" by auto
  from wf assms(2) obtain a where "a \<in> set (Accounts (p_cfg p))" "Fingerprint a = Current (p_state p)"
    by (auto simp: wf_pool_def current_ok_def has_account_iff)
  with keys_okD [OF wf_poolD(1) [OF wf]] fr assms(2) show ?thesis
    by (force simp: current_fresh_def failed_until_def)
qed

theorem current_never_failed_witness:
  "\<exists>k. key_of demo_picked ''a'' = Some k \<and> TransientUntil k \<le> 1000"
  using current_never_failed [OF demo_picked_fresh [of demo_lib]] by (auto simp: demo_picked_eval)

section \<open>Outcomes\<close>

text \<open>
  A success counts one more success for its key (modulo \<open>2 ^ 64\<close>), moves the last
  success forward if it is later, and changes nothing else: no deadline, barrier or
  failure of any key, not the current account and not the cursor.
\<close>

theorem success_only_counts:
  assumes "attributed p r = Some (h, k)" "\<not> rec_Failed r"
  shows "p_state (snd (Observe M G now r p)) =
    (p_state p)\<lparr>Keys := fmupd h
       (k\<lparr>Success := Success k + 1, LastSuccessAt := max (LastSuccessAt k) (observed_at now r)\<rparr>)
       (Keys (p_state p))\<rparr>"
  using assms by (simp add: Observe_attributed put_key_def record_success_def Let_def max_def)

definition demo_success :: usageRecord where
  "demo_success = demo_outcome ''id-a'' 1001 False 200 []"

lemma demo_attributed:
  "attributed demo_picked demo_success = Some (''a'', zero_key)"
  "attributed demo_picked demo_failure = Some (''a'', zero_key)"
  unfolding demo_picked_def by code_simp+

theorem success_only_counts_witness:
  "Current (p_state (snd (Observe demo_ops demo_lib 1010 demo_success demo_picked))) = ''a''"
  using success_only_counts [OF demo_attributed(1), of demo_ops demo_lib 1010]
  by (simp add: demo_picked_eval demo_success_def demo_outcome_def)

text \<open>
  A failure of a request that was sent before the results of its key count again, and
  a failure older than the last one recorded, is only counted.
\<close>

theorem late_failure_only_counted:
  assumes "attributed p r = Some (h, k)" "rec_Failed r"
    and "stale_record k r \<or> observed_at now r < LastFailureAt k"
  shows "p_state (snd (Observe M G now r p)) =
    (p_state p)\<lparr>Keys := fmupd h (k\<lparr>Failed := Failed k + 1\<rparr>) (Keys (p_state p))\<rparr>"
  using assms
  by (auto simp: Observe_attributed observe_failure_def put_key_def stale_record_def Let_def)

definition demo_late :: usageRecord where
  "demo_late = demo_outcome ''id-a'' 900 True 401 []"

lemma demo_late_attributed:
  "map_option fst (attributed demo_switched demo_late) = Some ''a''"
  "map_option (\<lambda>x. stale_record (snd x) demo_late \<or> observed_at 1020 demo_late < LastFailureAt (snd x))
     (attributed demo_switched demo_late) = Some True"
  unfolding demo_switched_def demo_picked_def by code_simp+

theorem late_failure_only_counted_witness:
  "Current (p_state (snd (Observe demo_ops demo_lib 1020 demo_late demo_switched))) = ''b''"
proof -
  obtain k where k: "attributed demo_switched demo_late = Some (''a'', k)"
    "stale_record k demo_late \<or> observed_at 1020 demo_late < LastFailureAt k"
    using demo_late_attributed by (cases "attributed demo_switched demo_late") auto
  from late_failure_only_counted [OF k(1) _ k(2), of demo_ops demo_lib] show ?thesis
    by (simp add: demo_switched_eval demo_late_def demo_outcome_def)
qed

section \<open>What an outcome leaves alone\<close>

lemma advance_auth_frame:
  assumes "wf_pool p" "advance h now p = (r, q)"
  shows "p_byAuthID q = p_byAuthID p"
proof (cases "Current (p_state p) = h")
  case True
  from assms(1) have "keys_ok (set_cursor h p)" by auto
  then show ?thesis
    using assms True by (cases rule: chooseLocked_cases [of "set_cursor h p" h now])
      (auto simp: advance_def)
qed (use assms in \<open>auto simp: advance_def\<close>)

lemma Observe_frame:
  assumes wf: "wf_pool p" and f: "Observe M G now r p = (res, q)"
  shows "p_byAuthID q = p_byAuthID p" "p_store q = None \<longleftrightarrow> p_store p = None"
proof -
  have "p_byAuthID q = p_byAuthID p \<and> (p_store q = None \<longleftrightarrow> p_store p = None)"
  proof (cases "attributed p r")
    case None
    with f show ?thesis by (auto simp: Observe_not_attributed)
  next
    case (Some hk)
    obtain h k where hk: "attributed p r = Some (h, k)" using Some by (cases hk) auto
    show ?thesis
    proof (cases "rec_Failed r \<and> \<not> stale_record k r \<and> \<not> observed_at now r < LastFailureAt k
        \<and> switches now (outcome_class G now r p)")
      case True
      then obtain p0 p1 where "wf_pool p0" "p_byAuthID p0 = p_byAuthID p" "p_store p0 = p_store p"
        and a: "advance h now p0 = (Ok (), p1)" and s: "saved M p1 = (res, q)"
        using Observe_decisive [OF wf hk _ _ _ _ f] wf_pool_put_key [OF wf] by (metis put_key_simps)
      with advance_auth_frame [OF \<open>wf_pool p0\<close> a] advance_spec [OF \<open>wf_pool p0\<close> a]
        saved_frame(3,5) [OF s] show ?thesis by simp
    next
      case False
      then obtain k' where s: "saved M (put_key h k' p) = (res, q)"
        using Observe_quiet [OF f hk] by metis
      from saved_frame(3,5) [OF s] show ?thesis by simp
    qed
  qed
  then show "p_byAuthID q = p_byAuthID p" "p_store q = None \<longleftrightarrow> p_store p = None" by auto
qed

end
