(* ===== verification/Zen_Failure_Props.thy ===== *)
theory Zen_Failure_Props
  imports Zen_Pool_Props
begin

text \<open>
  The properties of failures: how long each kind blocks its key, when and where the pool
  moves on, and that one exhaustion moves it on once, however many outcomes of requests
  that were in flight arrive later.
\<close>

section \<open>The outcome that counts\<close>

text \<open>A failure that is neither stale nor older than the last one recorded.\<close>

definition decisive :: "time \<Rightarrow> usageRecord \<Rightarrow> keyState \<Rightarrow> bool" where
  "decisive now r k \<longleftrightarrow>
     rec_Failed r \<and> \<not> stale_record k r \<and> \<not> observed_at now r < LastFailureAt k"

definition failed_state :: "golib \<Rightarrow> time \<Rightarrow> usageRecord \<Rightarrow> 's pool \<Rightarrow> keyState \<Rightarrow> keyState" where
  "failed_state G now r p k =
     fail_key (p_cfg p) now (observed_at now r) (outcome_class G now r p)
       (k\<lparr>Failed := Failed k + 1\<rparr>)"

lemma state_of_cong: "key_of p (Fingerprint a) = key_of q (Fingerprint a) \<Longrightarrow> state_of p a = state_of q a"
  by (simp add: state_of_def)

lemma eligible_cong: "key_of p (Fingerprint a) = key_of q (Fingerprint a) \<Longrightarrow>
   eligible p now a = eligible q now a"
  by (simp add: eligible_def state_of_def)

text \<open>The pool after such an outcome.\<close>

lemma Observe_decisive_state:
  assumes "wf_pool p" "attributed p r = Some (h, k)" "decisive now r k"
  shows "p_cfg (snd (Observe M G now r p)) = p_cfg p"
    "Keys (p_state (snd (Observe M G now r p))) = fmupd h (failed_state G now r p k) (Keys (p_state p))"
    "\<not> (switches now (outcome_class G now r p) \<and> Current (p_state p) = h) \<Longrightarrow>
     Current (p_state (snd (Observe M G now r p))) = Current (p_state p) \<and>
     Cursor (p_state (snd (Observe M G now r p))) = Cursor (p_state p)"
    "switches now (outcome_class G now r p) \<Longrightarrow> Current (p_state p) = h \<Longrightarrow>
     Accounts (p_cfg p) \<noteq> [] \<Longrightarrow>
     (case next_eligible (put_key h (failed_state G now r p k) p) h now of
        Some a \<Rightarrow> Current (p_state (snd (Observe M G now r p))) = Fingerprint a
                \<and> Cursor (p_state (snd (Observe M G now r p))) = Fingerprint a
      | None \<Rightarrow> Current (p_state (snd (Observe M G now r p))) = []
                \<and> Cursor (p_state (snd (Observe M G now r p))) = h)"
proof -
  let ?p0 = "put_key h (failed_state G now r p k) p" and ?q = "snd (Observe M G now r p)"
  let ?sw = "switches now (outcome_class G now r p)"
  obtain res q where q: "Observe M G now r p = (res, q)" by fastforce
  have wf0: "wf_pool ?p0" by (rule wf_pool_put_key [OF assms(1)])
  have all: "p_cfg q = p_cfg p \<and> Keys (p_state q) = Keys (p_state ?p0)
    \<and> (\<not> (?sw \<and> Current (p_state p) = h) \<longrightarrow> Current (p_state q) = Current (p_state p)
         \<and> Cursor (p_state q) = Cursor (p_state p))
    \<and> (?sw \<and> Current (p_state p) = h \<and> Accounts (p_cfg p) \<noteq> [] \<longrightarrow>
         (case next_eligible ?p0 h now of
            Some a \<Rightarrow> Current (p_state q) = Fingerprint a \<and> Cursor (p_state q) = Fingerprint a
          | None \<Rightarrow> Current (p_state q) = [] \<and> Cursor (p_state q) = h))"
  proof (cases ?sw)
    case True
    then obtain p1 where a: "advance h now ?p0 = (Ok (), p1)" and s: "saved M p1 = (res, q)"
      using Observe_decisive [OF assms(1,2) _ _ _ True q] assms(3)
      unfolding decisive_def failed_state_def by metis
    note fr = saved_frame(1,2) [OF s] and sp = advance_spec [OF wf0 a]
    have "eligible (set_cursor h ?p0) now = eligible ?p0 now" by (rule ext) simp
    then have "next_eligible (set_cursor h ?p0) h now = next_eligible ?p0 h now"
      by (simp add: next_eligible_def search_order_def)
    moreover have "keys_ok (set_cursor h ?p0)" using wf0 by auto
    ultimately show ?thesis
      using a fr sp True
      by (auto simp: advance_def chooseLocked_spec split: option.splits if_splits)
  next
    case False
    then have "saved M ?p0 = (res, q)"
      using Observe_quiet [OF q assms(2)] assms(3) unfolding decisive_def failed_state_def by metis
    from saved_frame(1,2) [OF this] False show ?thesis by simp
  qed
  then show "p_cfg ?q = p_cfg p" "Keys (p_state ?q) = fmupd h (failed_state G now r p k) (Keys (p_state p))"
    "\<not> (?sw \<and> Current (p_state p) = h) \<Longrightarrow> Current (p_state ?q) = Current (p_state p) \<and>
       Cursor (p_state ?q) = Cursor (p_state p)"
    "?sw \<Longrightarrow> Current (p_state p) = h \<Longrightarrow> Accounts (p_cfg p) \<noteq> [] \<Longrightarrow>
     (case next_eligible ?p0 h now of
        Some a \<Rightarrow> Current (p_state ?q) = Fingerprint a \<and> Cursor (p_state ?q) = Fingerprint a
      | None \<Rightarrow> Current (p_state ?q) = [] \<and> Cursor (p_state ?q) = h)"
    by (simp_all add: q cong: option.case_cong)
qed

lemma fail_key_deadlines:
  "Kind c = ''quota'' \<Longrightarrow> now < Until c \<Longrightarrow> ExhaustedUntil (fail_key cfg now t c k) = Until c"
  "Kind c = ''auth'' \<Longrightarrow> SuspendedUntil (fail_key cfg now t c k) = t + AuthSuspension cfg"
  "Kind c = ''transient'' \<Longrightarrow> TransientUntil (fail_key cfg now t c k) = t + TransientFallback cfg"
  "Kind c = ''rate_limit'' \<Longrightarrow> RateLimitedUntil (fail_key cfg now t c k) =
     max (RateLimitedUntil k) (if Until c = 0 then t + RateFallback cfg else Until c)"
  by (auto simp: fail_key_def rate_limited_def quarantined_def Let_def)

section \<open>What a failure does\<close>

text \<open>
  C8: A failure that counts blocks its own account until a deadline that depends on its
  class: the reset of the quota, the configured suspension or quarantine after the
  outcome, or the reset (or fallback) of the rate limit. No other account is affected.
\<close>

theorem failure_blocks_its_account:
  assumes "pool_reach M G t p" "attributed p r = Some (h, k)" "decisive now r k"
    and "a \<in> set (Accounts (p_cfg p))"
  shows "let c = outcome_class G now r p; q = snd (Observe M G now r p); obs = observed_at now r
    in (Fingerprint a \<noteq> h \<longrightarrow> eligible q t' a = eligible p t' a) \<and>
       (Fingerprint a = h \<and> eligible q t' a \<longrightarrow>
          (Kind c = ''quota'' \<and> now < Until c \<longrightarrow> Until c \<le> t') \<and>
          (Kind c = ''auth'' \<longrightarrow> obs + AuthSuspension (p_cfg p) \<le> t') \<and>
          (Kind c = ''transient'' \<longrightarrow> obs + TransientFallback (p_cfg p) \<le> t') \<and>
          (Kind c = ''rate_limit'' \<longrightarrow>
             (if Until c = 0 then obs + RateFallback (p_cfg p) else Until c) \<le> t'))"
proof -
  note st = Observe_decisive_state(1,2) [OF pool_reach_wf [OF assms(1)] assms(2,3), where G = G and M = M]
  let ?q = "snd (Observe M G now r p)"
  have "key_of ?q (Fingerprint a) =
      (if Fingerprint a = h then Some (failed_state G now r p k) else key_of p (Fingerprint a))"
    by (simp add: key_of_def st)
  then show ?thesis
    using fail_key_deadlines
    by (auto simp: Let_def eligible_iff state_of_def failed_state_def split: option.splits)
qed

lemma demo_decisive: "decisive 1010 demo_failure zero_key" by code_simp

lemma demo_class: "Kind (outcome_class demo_lib 1010 demo_failure demo_picked) = ''transient''"
  unfolding demo_picked_def by code_simp

theorem failure_blocks_its_account_witness:
  "\<not> eligible demo_switched 1040 (demo_account ''a'')"
proof -
  have a: "demo_account ''a'' \<in> set (Accounts (p_cfg demo_picked))"
    using demo_picked_eval(2) accountLocked_SomeD by blast
  have "observed_at 1010 demo_failure + TransientFallback (p_cfg demo_picked) = 1041"
    unfolding demo_picked_def by code_simp
  with failure_blocks_its_account [OF demo_picked_reach [of demo_lib] demo_attributed(2)
      demo_decisive a, of 1040] demo_class
  show ?thesis by (auto simp: Let_def demo_switched_def demo_account_def)
qed

text \<open>
  C7: When the failure of the current account makes the pool move on, the next current
  account is the first one, in the configured order after the failed account and wrapping
  round, that may be used now; it is the cursor too. If there is none, no account is
  current, and the search will go on after the failed account.
\<close>

theorem failure_moves_on:
  assumes "pool_reach M G t p" "attributed p r = Some (h, k)" "decisive now r k"
    and "switches now (outcome_class G now r p)" "Current (p_state p) = h" "h \<noteq> []"
  defines "q \<equiv> snd (Observe M G now r p)"
  shows "case find (eligible q now) (visit_order (Accounts (p_cfg p)) h) of
      Some a \<Rightarrow> Current (p_state q) = Fingerprint a \<and> Cursor (p_state q) = Fingerprint a
    | None \<Rightarrow> Current (p_state q) = [] \<and> Cursor (p_state q) = h"
proof -
  have wf: "wf_pool p" by (rule pool_reach_wf [OF assms(1)])
  note st = Observe_decisive_state [OF wf assms(2,3), where G = G and M = M, folded q_def]
  have "Accounts (p_cfg p) \<noteq> []"
    using wf assms(5,6) by (auto simp: wf_pool_def current_ok_def has_account_iff)
  note sw = st(4) [OF assms(4,5) this]
  have "eligible (put_key h (failed_state G now r p k) p) now = eligible q now"
    by (rule ext, rule eligible_cong) (simp add: key_of_def st(2))
  with sw show ?thesis by (simp add: next_eligible_def search_order_visit)
qed

theorem failure_moves_on_witness:
  "Current (p_state (snd (Observe demo_ops demo_lib 1010 demo_failure demo_picked))) = ''b''"
proof -
  have "find (eligible (snd (Observe demo_ops demo_lib 1010 demo_failure demo_picked)) 1010)
      (visit_order (Accounts (p_cfg demo_picked)) ''a'') = Some (demo_account ''b'')"
    unfolding demo_picked_def by code_simp
  moreover have "switches 1010 (outcome_class demo_lib 1010 demo_failure demo_picked)"
    by (simp add: switches_def demo_class)
  ultimately show ?thesis
    using failure_moves_on [OF demo_picked_reach [of demo_lib] demo_attributed(2) demo_decisive]
    by (simp add: demo_picked_eval demo_account_def)
qed

text \<open>
  C9: A rate limit, and a failure of no recognised class, never moves the pool on: the
  current account and the cursor stay, whichever account failed. The account waits for the
  later of the deadline it had and the new one.
\<close>

theorem rate_limit_never_fails_over:
  assumes "pool_reach M G t p" "attributed p r = Some (h, k)" "decisive now r k"
    and "Kind (outcome_class G now r p) \<in> {''rate_limit'', ''failure'', ''success''}"
  defines "q \<equiv> snd (Observe M G now r p)" and "c \<equiv> outcome_class G now r p"
  shows "Current (p_state q) = Current (p_state p) \<and> Cursor (p_state q) = Cursor (p_state p)
    \<and> (Kind c = ''rate_limit'' \<longrightarrow> map_option RateLimitedUntil (key_of q h) =
         Some (max (RateLimitedUntil k)
           (if Until c = 0 then observed_at now r + RateFallback (p_cfg p) else Until c)))"
proof -
  note st = Observe_decisive_state(1-3) [OF pool_reach_wf [OF assms(1)] assms(2,3),
      where G = G and M = M, folded q_def c_def]
  have "\<not> switches now c" using assms(4) by (auto simp: switches_def c_def)
  with st show ?thesis
    by (simp add: key_of_def failed_state_def fail_key_deadlines c_def [symmetric])
qed

definition demo_limited :: usageRecord where
  "demo_limited = demo_outcome ''id-a'' 1001 True 429 []"

lemma demo_limited_eval:
  "attributed demo_picked demo_limited = Some (''a'', zero_key)"
  "decisive 1010 demo_limited zero_key"
  "Kind (outcome_class demo_lib 1010 demo_limited demo_picked) = ''rate_limit''"
  unfolding demo_picked_def by code_simp+

theorem rate_limit_never_fails_over_witness:
  "Current (p_state (snd (Observe demo_ops demo_lib 1010 demo_limited demo_picked))) = ''a''"
  using rate_limit_never_fails_over [OF demo_picked_reach [of demo_lib] demo_limited_eval(1,2)]
    demo_limited_eval(3) by (simp add: demo_picked_eval)

fun observe_all ::
  "'s stateStore \<Rightarrow> golib \<Rightarrow> (time \<times> usageRecord) list \<Rightarrow> 's pool \<Rightarrow> 's pool" where
  "observe_all M G [] p = p"
| "observe_all M G ((now, r) # rs) p = observe_all M G rs (snd (Observe M G now r p))"

lemma fmupd_same: "fmlookup m h = Some k \<Longrightarrow> fmupd h k m = m"
  by (rule fmap_ext) auto

lemma fmupd_twice [simp]: "fmupd h a (fmupd h b m) = fmupd h a m"
  by (rule fmap_ext) simp

lemma Failed_as_is:
  "key_of p h = Some k \<Longrightarrow>
   \<exists>n. p_state p = (p_state p)\<lparr>Keys := fmupd h (k\<lparr>Failed := n\<rparr>) (Keys (p_state p))\<rparr>"
  by (rule exI [of _ "Failed k"]) (simp add: key_of_def fmupd_same)

text \<open>One stale failure of that account, or one that is not attributed at all.\<close>

lemma Observe_stale:
  assumes "fmlookup (p_byAuthID p) (rec_AuthID r) = Some h" "key_of p h = Some k"
    and "rec_Failed r" "stale_record k r"
  shows "\<exists>n. p_state (snd (Observe M G now r p)) =
      (p_state p)\<lparr>Keys := fmupd h (k\<lparr>Failed := n\<rparr>) (Keys (p_state p))\<rparr>"
proof (cases "attributed p r")
  case None
  with Failed_as_is [OF assms(2)] show ?thesis by (simp add: Observe_not_attributed)
next
  case (Some hk)
  with assms(1,2) have hk: "attributed p r = Some (h, k)"
    by (auto simp: attributed_def split: if_splits option.splits)
  with assms(3,4) show ?thesis
    by (auto simp: Observe_attributed observe_failure_def put_key_def stale_record_def Let_def)
qed

lemma observe_all_stale:
  assumes "wf_pool p" "key_of p h = Some k" "IgnoreBefore k = u" "u \<noteq> 0"
    and "\<forall>(t, r)\<in>set rs. fmlookup (p_byAuthID p) (rec_AuthID r) = Some h \<and> rec_Failed r
           \<and> RequestedAt r < u"
  shows "\<exists>n. p_state (observe_all M G rs p) =
      (p_state p)\<lparr>Keys := fmupd h (k\<lparr>Failed := n\<rparr>) (Keys (p_state p))\<rparr>"
  using assms
proof (induction rs arbitrary: p k)
  case Nil
  then show ?case using Failed_as_is by simp
next
  case (Cons tr rs)
  obtain t r where tr: "tr = (t, r)" by (cases tr)
  let ?q = "snd (Observe M G t r p)"
  have "stale_record k r" using Cons.prems tr by (auto simp: stale_record_def)
  with Cons.prems tr obtain n where
    n: "p_state ?q = (p_state p)\<lparr>Keys := fmupd h (k\<lparr>Failed := n\<rparr>) (Keys (p_state p))\<rparr>"
    using Observe_stale [of p r h k M G t] by auto
  have wf: "wf_pool ?q" using Observe_spec [OF Cons.prems(1), of M G t r] by (simp add: prod_eq_iff)
  have auth: "p_byAuthID ?q = p_byAuthID p" using Observe_frame(1) [OF Cons.prems(1), of M G t r]
    by (simp add: prod_eq_iff)
  have "\<exists>n'. p_state (observe_all M G rs ?q) =
      (p_state ?q)\<lparr>Keys := fmupd h (k\<lparr>Failed := n, Failed := n'\<rparr>) (Keys (p_state ?q))\<rparr>"
    by (rule Cons.IH [OF wf]) (use n Cons.prems in \<open>auto simp: key_of_def auth\<close>)
  with n tr show ?case by auto
qed

text \<open>
  C3: One exhaustion moves the pool on at most once. After an account ran out of quota,
  any number of failures of requests that were sent before its reset, observed at any
  later times, changes nothing but the failure counter of that account: the current
  account, the cursor and every deadline stay as the first outcome left them.
\<close>

theorem exhausted_once:
  assumes "pool_reach M G t p" "0 \<le> now" "attributed p r = Some (h, k)" "decisive now r k"
  defines "c \<equiv> outcome_class G now r p" and "q \<equiv> snd (Observe M G now r p)"
  assumes "Kind c = ''quota''" "now < Until c"
    and "\<forall>(t', r')\<in>set later. rec_AuthID r' = rec_AuthID r \<and> rec_Failed r' \<and> RequestedAt r' < Until c"
  shows "\<exists>k' n. key_of q h = Some k' \<and> p_state (observe_all M G later q) =
      (p_state q)\<lparr>Keys := fmupd h (k'\<lparr>Failed := n\<rparr>) (Keys (p_state q))\<rparr>"
proof -
  have wf: "wf_pool p" by (rule pool_reach_wf [OF assms(1)])
  note st = Observe_decisive_state(1,2) [OF wf assms(3,4), where G = G and M = M, folded q_def c_def]
  let ?k = "failed_state G now r p k"
  have "IgnoreBefore ?k = Until c"
    using assms(7,8) by (simp add: failed_state_def fail_key_def c_def [symmetric])
  moreover have "fmlookup (p_byAuthID q) (rec_AuthID r) = Some h"
    using assms(3) Observe_frame(1) [OF wf, of M G now r] unfolding q_def
    by (auto simp: attributed_def prod_eq_iff split: if_splits option.splits)
  moreover have "wf_pool q"
    using Observe_spec [OF wf, of M G now r] unfolding q_def by (simp add: prod_eq_iff)
  moreover have key: "key_of q h = Some ?k" by (simp add: key_of_def st)
  ultimately have "\<exists>n. p_state (observe_all M G later q) =
      (p_state q)\<lparr>Keys := fmupd h (?k\<lparr>Failed := n\<rparr>) (Keys (p_state q))\<rparr>"
    using assms(2,8,9) by (intro observe_all_stale [where u = "Until c"]) auto
  with key show ?thesis by blast
qed

definition demo_quota :: usageRecord where
  \<open>demo_quota = demo_outcome ''id-a'' 1001 True 402 ''{"type":"CreditsError"}''\<close>

lemma demo_quota_eval:
  "attributed demo_picked demo_quota = Some (''a'', zero_key)"
  "decisive 1010 demo_quota zero_key"
  unfolding demo_picked_def by code_simp+

lemma demo_quota_class:
  "outcome_class demo_lib 1010 demo_quota demo_picked =
     \<lparr>Kind = ''quota'', Reason = ''credits_exhausted'', Window = ''credit_balance'', Until = 1501,
      ResetSource = ''fallback'', FallbackReason = ''no_reset_provided''\<rparr>"
  unfolding demo_picked_def by code_simp

text \<open>Two more failures that were in flight arrive at 1020 and 1600.\<close>

theorem exhausted_once_witness:
  "Current (p_state (observe_all demo_ops demo_lib
       [(1020, demo_outcome ''id-a'' 1002 True 402 []), (1600, demo_outcome ''id-a'' 1003 True 401 [])]
       (snd (Observe demo_ops demo_lib 1010 demo_quota demo_picked)))) =
   Current (p_state (snd (Observe demo_ops demo_lib 1010 demo_quota demo_picked)))"
proof -
  have "rec_AuthID demo_quota = ''id-a''" by (simp add: demo_quota_def demo_outcome_def)
  then show ?thesis
    using exhausted_once [OF demo_picked_reach [of demo_lib] _ demo_quota_eval,
        where later = "[(1020, demo_outcome ''id-a'' 1002 True 402 []),
                        (1600, demo_outcome ''id-a'' 1003 True 401 [])]"]
    by (auto simp: demo_quota_class demo_outcome_def)
qed

end
