(* ===== verification/Zen_Manage_Props.thy ===== *)
theory Zen_Manage_Props
  imports Zen_Failure_Props
begin

text \<open>
  The properties of the rest of the pool: the aggregate error, failing closed, the guard,
  and the management operations \<open>Resume\<close>, \<open>Reconfigure\<close>, \<open>Close\<close> and \<open>Status\<close>.
\<close>

section \<open>The aggregate error\<close>

definition reason_of :: "'s pool \<Rightarrow> time \<Rightarrow> account \<Rightarrow> string" where
  "reason_of p now a = (if Disabled a then ''disabled'' else block_reason (state_of p a) now)"

definition retry_deadlines :: "'s pool \<Rightarrow> account \<Rightarrow> time list" where
  "retry_deadlines p a =
     [ExhaustedUntil (state_of p a), SuspendedUntil (state_of p a), RateLimitedUntil (state_of p a)]"

lemma tally_fold:
  "keys_ok p \<Longrightarrow> set accs \<subseteq> set (Accounts (p_cfg p)) \<Longrightarrow>
   tally p now accs e =
     Some (fold (\<lambda>a e. fold (retry_min now) (retry_deadlines p a) (count_reason (reason_of p now a) e))
             accs e)"
proof (induction accs arbitrary: e)
  case (Cons a accs)
  then have a: "a \<in> set (Accounts (p_cfg p))" by simp
  from Cons blockedLocked_account [OF Cons.prems(1) a] keys_okD [OF Cons.prems(1) a] show ?case
    by (simp add: reason_of_def retry_deadlines_def)
qed simp

lemma retry_min_counts [simp]:
  "err_Eligible (fold (retry_min now) us e) = err_Eligible e"
  "err_Exhausted (fold (retry_min now) us e) = err_Exhausted e"
  "err_Suspended (fold (retry_min now) us e) = err_Suspended e"
  "err_Unavailable (fold (retry_min now) us e) = err_Unavailable e"
  by (induction us arbitrary: e) (auto simp: retry_min_def)

lemma count_reason_RetryAt [simp]: "RetryAt (count_reason r e) = RetryAt e"
  by (simp add: count_reason_def)

definition tallied :: "'s pool \<Rightarrow> time \<Rightarrow> account list \<Rightarrow> unavailableError \<Rightarrow> unavailableError" where
  "tallied p now accs e =
     fold (\<lambda>a e. fold (retry_min now) (retry_deadlines p a) (count_reason (reason_of p now a) e)) accs e"

lemma tallied_Cons: "tallied p now (a # accs) e =
    tallied p now accs (fold (retry_min now) (retry_deadlines p a) (count_reason (reason_of p now a) e))"
  by (simp add: tallied_def)

lemma reason_of_cases:
  "reason_of p now a \<in>
     {[], ''disabled'', ''exhausted'', ''suspended'', ''rate_limited'', ''transient''}"
  using block_reason_cases [of "state_of p a" now] by (auto simp: reason_of_def)

lemma eligible_reason: "eligible p now a \<longleftrightarrow> reason_of p now a = []"
  by (simp add: eligible_def reason_of_def)

lemma count_reason_counts:
  "err_Eligible (count_reason r e) = err_Eligible e + (if r = [] then 1 else 0)"
  "err_Exhausted (count_reason r e) = err_Exhausted e + (if r = ''exhausted'' then 1 else 0)"
  "err_Suspended (count_reason r e) = err_Suspended e + (if r = ''suspended'' then 1 else 0)"
  "err_Unavailable (count_reason r e) =
     err_Unavailable e + (if r \<in> {[], ''exhausted'', ''suspended''} then 0 else 1)"
  by (simp_all add: count_reason_def)

lemma tallied_counts:
  "err_Eligible (tallied p now accs e) = err_Eligible e + length (filter (eligible p now) accs)"
  "err_Exhausted (tallied p now accs e) =
     err_Exhausted e + length (filter (\<lambda>a. reason_of p now a = ''exhausted'') accs)"
  "err_Suspended (tallied p now accs e) =
     err_Suspended e + length (filter (\<lambda>a. reason_of p now a = ''suspended'') accs)"
  "err_Unavailable (tallied p now accs e) = err_Unavailable e +
     length (filter (\<lambda>a. reason_of p now a \<in> {''disabled'', ''rate_limited'', ''transient''}) accs)"
proof (induction accs arbitrary: e)
  case (Cons a accs)
  {
    case 1
    show ?case by (simp add: tallied_Cons Cons count_reason_counts eligible_reason)
  next
    case 2
    show ?case by (simp add: tallied_Cons Cons count_reason_counts)
  next
    case 3
    show ?case by (simp add: tallied_Cons Cons count_reason_counts)
  next
    case 4
    show ?case using reason_of_cases [of p now a]
      by (auto simp add: tallied_Cons Cons count_reason_counts)
  }
qed (simp_all add: tallied_def)

text \<open>The first instant after now in a list, or the zero instant.\<close>

definition earliest :: "time \<Rightarrow> time list \<Rightarrow> time" where
  "earliest now us = (case filter (\<lambda>u. now < u) us of [] \<Rightarrow> 0 | d # ds \<Rightarrow> fold min ds d)"

lemma fold_min_gt: "now < d \<Longrightarrow> \<forall>x\<in>set ds. now < x \<Longrightarrow> now < fold min ds (d::time)"
  by (induction ds arbitrary: d) auto

lemma earliest_zero: "0 \<le> now \<Longrightarrow> earliest now us = 0 \<longleftrightarrow> filter (\<lambda>u. now < u) us = []"
proof (cases "filter (\<lambda>u. now < u) us")
  case (Cons d ds)
  assume "0 \<le> now"
  have "\<forall>x\<in>set (filter (\<lambda>u. now < u) us). now < x" by simp
  then have "\<forall>x\<in>set (d # ds). now < x" by (simp only: Cons)
  with fold_min_gt [of now d ds] have "now < earliest now us" by (simp add: earliest_def Cons)
  with \<open>0 \<le> now\<close> Cons show ?thesis by simp
qed (simp add: earliest_def)

lemma earliest_snoc:
  "0 \<le> now \<Longrightarrow> earliest now (us @ [u]) =
     (if now < u \<and> (earliest now us = 0 \<or> u < earliest now us) then u else earliest now us)"
  using earliest_zero [of now us] by (auto simp: earliest_def min_def split: list.splits)

lemma RetryAt_fold:
  "0 \<le> now \<Longrightarrow> RetryAt e = earliest now pre \<Longrightarrow>
   RetryAt (fold (retry_min now) us e) = earliest now (pre @ us)"
proof (induction us arbitrary: e pre)
  case (Cons u us)
  have "RetryAt (retry_min now u e) = earliest now (pre @ [u])"
    using Cons.prems by (auto simp: earliest_snoc retry_min_def)
  from Cons.IH [OF Cons.prems(1) this] show ?case by simp
qed simp

lemma tallied_RetryAt:
  "0 \<le> now \<Longrightarrow> RetryAt e = earliest now pre \<Longrightarrow>
   RetryAt (tallied p now accs e) = earliest now (pre @ concat (map (retry_deadlines p) accs))"
proof (induction accs arbitrary: e pre)
  case (Cons a accs)
  have "RetryAt (fold (retry_min now) (retry_deadlines p a) (count_reason (reason_of p now a) e)) =
      earliest now (pre @ retry_deadlines p a)"
    by (rule RetryAt_fold) (use Cons.prems in simp_all)
  from Cons.IH [OF Cons.prems(1) this] show ?case by (simp add: tallied_Cons)
qed (simp add: tallied_def)

lemma earliest_Min:
  "earliest now us = (if \<forall>u\<in>set us. u \<le> now then 0 else Min {u \<in> set us. now < u})"
proof (cases "filter (\<lambda>u. now < u) us")
  case Nil
  then have "\<forall>u\<in>set us. u \<le> now" by (auto simp: filter_empty_conv)
  with Nil show ?thesis by (simp add: earliest_def)
next
  case (Cons d ds)
  then have s: "{u \<in> set us. now < u} = set (d # ds)" by (metis set_filter)
  then have "\<not> (\<forall>u\<in>set us. u \<le> now)" by force
  moreover have "earliest now us = Min (set (d # ds))"
    by (simp only: earliest_def Cons list.case Min.set_eq_fold)
  ultimately show ?thesis by (simp only: s if_False)
qed

lemma unavailableLocked_tallied:
  "keys_ok p \<Longrightarrow> unavailableLocked p reason now =
     Some (tallied p now (Accounts (p_cfg p))
       \<lparr>err_Reason = reason, err_Eligible = 0, err_Exhausted = 0, err_Suspended = 0,
        err_Unavailable = 0, RetryAt = 0\<rparr>)"
  by (simp add: unavailableLocked_def tally_fold tallied_def)

text \<open>
  C16: The aggregate error counts every configured account exactly once: as eligible, as
  exhausted, as suspended, or as unavailable (disabled, rate limited or quarantined).
\<close>

theorem unavailable_counts:
  assumes "pool_reach M G t p" "unavailableLocked p reason now = Some e"
  shows "err_Eligible e = length (filter (eligible p now) (Accounts (p_cfg p)))
    \<and> err_Exhausted e =
        length (filter (\<lambda>a. reason_of p now a = ''exhausted'') (Accounts (p_cfg p)))
    \<and> err_Suspended e =
        length (filter (\<lambda>a. reason_of p now a = ''suspended'') (Accounts (p_cfg p)))
    \<and> err_Eligible e + err_Exhausted e + err_Suspended e + err_Unavailable e =
        length (Accounts (p_cfg p))"
proof -
  have "keys_ok p" by (rule wf_poolD(1)) (rule pool_reach_wf [OF assms(1)])
  with assms(2) have e: "e = tallied p now (Accounts (p_cfg p))
       \<lparr>err_Reason = reason, err_Eligible = 0, err_Exhausted = 0, err_Suspended = 0,
        err_Unavailable = 0, RetryAt = 0\<rparr>"
    by (simp add: unavailableLocked_tallied)
  have sum: "length (filter (eligible p now) accs)
      + length (filter (\<lambda>a. reason_of p now a = ''exhausted'') accs)
      + length (filter (\<lambda>a. reason_of p now a = ''suspended'') accs)
      + length (filter (\<lambda>a. reason_of p now a \<in> {''disabled'', ''rate_limited'', ''transient''}) accs)
      = length accs" for accs
  proof (induction accs)
    case (Cons a accs)
    with reason_of_cases [of p now a] show ?case by (auto simp: eligible_reason)
  qed simp
  show ?thesis using sum [of "Accounts (p_cfg p)"] by (simp add: e tallied_counts)
qed

definition demo_error :: unavailableError where
  "demo_error = \<lparr>err_Reason = ''x'', err_Eligible = 1, err_Exhausted = 0, err_Suspended = 0,
     err_Unavailable = 1, RetryAt = 0\<rparr>"

lemma demo_error_eval: "unavailableLocked demo_switched ''x'' 1020 = Some demo_error"
  unfolding demo_switched_def demo_picked_def by code_simp

theorem unavailable_counts_witness:
  "length (filter (eligible demo_switched 1020) (Accounts (p_cfg demo_switched))) = 1
   \<and> length (Accounts (p_cfg demo_switched)) = 2"
  using unavailable_counts [OF demo_switched_reach demo_error_eval] by (simp add: demo_error_def)

text \<open>
  C17: The retry time of the aggregate error is the earliest exhaustion, suspension or
  rate limit deadline that lies in the future, over all accounts, and the zero instant if
  there is none. Quarantines after a transient failure do not enter it.
\<close>

theorem retry_at_is_earliest:
  assumes "pool_reach M G t p" "unavailableLocked p reason now = Some e" "0 \<le> now"
  defines "future \<equiv> {d. now < d \<and> (\<exists>a\<in>set (Accounts (p_cfg p)).
      d \<in> {ExhaustedUntil (state_of p a), SuspendedUntil (state_of p a), RateLimitedUntil (state_of p a)})}"
  shows "RetryAt e = (if future = {} then 0 else Min future)"
proof -
  let ?us = "concat (map (retry_deadlines p) (Accounts (p_cfg p)))"
  have "keys_ok p" by (rule wf_poolD(1)) (rule pool_reach_wf [OF assms(1)])
  with assms(2) have e: "e = tallied p now (Accounts (p_cfg p))
       \<lparr>err_Reason = reason, err_Eligible = 0, err_Exhausted = 0, err_Suspended = 0,
        err_Unavailable = 0, RetryAt = 0\<rparr>"
    by (simp add: unavailableLocked_tallied)
  have "RetryAt e = earliest now ([] @ ?us)"
    unfolding e by (rule tallied_RetryAt) (simp_all add: assms(3) earliest_def)
  moreover have "future = {u \<in> set ?us. now < u}"
    by (auto simp: future_def retry_deadlines_def)
  moreover have "(\<forall>u\<in>set ?us. u \<le> now) \<longleftrightarrow> {u \<in> set ?us. now < u} = {}"
    by force
  ultimately show ?thesis by (simp only: append_Nil earliest_Min)
qed

theorem retry_at_is_earliest_witness:
  "TransientUntil (state_of demo_switched (demo_account ''a'')) = 1041 \<and>
   {d. 1020 < d \<and> (\<exists>a\<in>set (Accounts (p_cfg demo_switched)).
      d \<in> {ExhaustedUntil (state_of demo_switched a), SuspendedUntil (state_of demo_switched a),
           RateLimitedUntil (state_of demo_switched a)})} = {}"
proof
  show "TransientUntil (state_of demo_switched (demo_account ''a'')) = 1041"
    unfolding demo_switched_def demo_picked_def by code_simp
  let ?D = "{d. 1020 < d \<and> (\<exists>a\<in>set (Accounts (p_cfg demo_switched)).
      d \<in> {ExhaustedUntil (state_of demo_switched a), SuspendedUntil (state_of demo_switched a),
           RateLimitedUntil (state_of demo_switched a)})}"
  have gen: "D = {}"
    if "finite D" "\<forall>d\<in>D. 1020 < d" "(if D = {} then 0 else Min D) = 0" for D :: "time set"
    using that Min_in [of D] by (cases "D = {}") auto
  show "?D = {}"
  proof (rule gen)
    show "finite ?D" by (rule finite_subset [of _ "\<Union>a\<in>set (Accounts (p_cfg demo_switched)).
        {ExhaustedUntil (state_of demo_switched a), SuspendedUntil (state_of demo_switched a),
         RateLimitedUntil (state_of demo_switched a)}"]) auto
    show "\<forall>d\<in>?D. 1020 < d" by blast
    have "(0::time) \<le> 1020" by simp
    from retry_at_is_earliest [OF demo_switched_reach demo_error_eval this]
    show "(if ?D = {} then 0 else Min ?D) = 0" by (simp only: demo_error_def) simp
  qed
qed

section \<open>Failing closed\<close>

text \<open>
  C12: A pool that was stopped or has a fault hands out nothing and lets nothing pass: for
  every managed request and model, \<open>Pick\<close> and \<open>Guard\<close> return the aggregate error with
  the reason, and the pool stays as it is.
\<close>

theorem fails_closed:
  assumes "pool_reach M G t p" "p_closed p \<or> p_fault p \<noteq> []"
  shows "(managedLocked p req \<longrightarrow> (\<exists>e. Pick M now req p = (Fail (Unavailable e), p)
           \<and> err_Reason e = (if p_closed p then ''plugin_stopped'' else p_fault p)))
    \<and> (Accounts (p_cfg p) \<noteq> [] \<longrightarrow> managedModel (p_cfg p) model \<longrightarrow>
         (\<exists>e. Guard G now model headers p = (Fail (Unavailable e), p)
           \<and> err_Reason e = (if p_closed p then ''plugin_stopped'' else p_fault p)))"
proof -
  have "keys_ok p" by (rule wf_poolD(1)) (rule pool_reach_wf [OF assms(1)])
  note u = unavailable_Fail [OF this]
  show ?thesis using assms(2) by (auto simp: Pick_def Guard_def intro: u)
qed

definition demo_faulted :: "memoryStore pool" where
  "demo_faulted = faultedPool demo_cfg ''configuration_invalid''"

theorem fails_closed_witness:
  "\<exists>e. Pick demo_ops 1000 demo_request demo_faulted = (Fail (Unavailable e), demo_faulted)
     \<and> err_Reason e = ''configuration_invalid''"
proof -
  have "managedLocked demo_faulted demo_request" "p_fault demo_faulted = ''configuration_invalid''"
    "\<not> p_closed demo_faulted" by code_simp+
  moreover have "pool_reach demo_ops demo_lib 1000 demo_faulted"
    unfolding demo_faulted_def by (rule pool_reach.faulted_pool)
  ultimately show ?thesis using fails_closed by (metis list.distinct(1))
qed

text \<open>
  C13: A state that cannot be saved stops selection. When the store refuses a save after an
  outcome, the pool reports it and keeps the fault \<open>state_write_failed\<close>, and every later
  managed request is refused until a save succeeds.
\<close>

theorem write_failure_stops_selection:
  assumes "pool_reach M G t p" "p_store p \<noteq> None" "Observe M G now r p = (Fail e, q)"
  shows "e = ErrState \<and> p_fault q = ''state_write_failed''
    \<and> (managedLocked q req \<longrightarrow>
         (\<exists>x. Pick M t' req q = (Fail (Unavailable x), q)))"
proof -
  have wf: "wf_pool p" by (rule pool_reach_wf [OF assms(1)])
  then have wfq: "wf_pool q" using Observe_spec [OF wf assms(3)] by simp
  obtain h k where hk: "attributed p r = Some (h, k)"
    using assms(2,3) by (cases "attributed p r") (auto simp: Observe_not_attributed)
  have "\<exists>z. saved M z = (Fail e, q)"
    using assms(3) hk wf_pool_put_key [OF wf] advance_spec
    by (auto simp: Observe_attributed observe_failure_def Let_def
        split: if_splits prod.splits outcome.splits) blast+
  moreover have "p_store q \<noteq> None"
    using assms(2) Observe_frame(2) [OF wf assms(3)] by simp
  ultimately have f: "e = ErrState" "p_fault q = ''state_write_failed''"
    by (auto simp: saved_def saveLocked_def Let_def split: if_splits prod.splits option.splits)
  have "keys_ok q" using wfq by (rule wf_poolD)
  from unavailable_Fail [OF this] f show ?thesis by (auto simp: Pick_def)
qed

text \<open>A store that reads as empty and refuses every save.\<close>

definition broken_ops :: "unit stateStore" where
  "broken_ops = \<lparr>Load = (\<lambda>_. Some emptyState), Save = (\<lambda>_ s. (False, s)),
     CloseStore = (\<lambda>s. (True, s))\<rparr>"

definition broken_pool :: "unit pool" where
  "broken_pool = opened demo_cfg () emptyState"

lemma broken_pool_reach: "pool_reach broken_ops G 1000 broken_pool"
  by (rule pool_reach.opened_pool [where cfg = demo_cfg and st = "()"])
    (simp add: newPool_opened broken_ops_def broken_pool_def emptyState_def)

lemma broken_observe:
  "Observe broken_ops demo_lib 1010 demo_success broken_pool =
     (Fail ErrState, snd (Observe broken_ops demo_lib 1010 demo_success broken_pool))"
  "p_store broken_pool \<noteq> None"
  "managedLocked (snd (Observe broken_ops demo_lib 1010 demo_success broken_pool)) demo_request"
  by code_simp+

theorem write_failure_stops_selection_witness:
  "\<exists>x. Pick broken_ops 1020 demo_request (snd (Observe broken_ops demo_lib 1010 demo_success broken_pool))
     = (Fail (Unavailable x), snd (Observe broken_ops demo_lib 1010 demo_success broken_pool))"
  using write_failure_stops_selection [OF broken_pool_reach broken_observe(2,1)] broken_observe(3)
  by blast

section \<open>The guard and the selection\<close>

lemma find_distinct:
  "distinct (map f xs) \<Longrightarrow> x \<in> set xs \<Longrightarrow> find (\<lambda>y. f y = f x) xs = Some x"
  by (induction xs) auto

lemma accountLocked_distinct:
  "distinct (map Fingerprint (Accounts (p_cfg p))) \<Longrightarrow> a \<in> set (Accounts (p_cfg p)) \<Longrightarrow>
   accountLocked p (Fingerprint a) = Some a"
  by (simp add: accountLocked_def find_distinct)

text \<open>How \<open>Guard\<close> comes to admit a managed model.\<close>

lemma Guard_admits:
  assumes "wf_pool p" "Guard G now model headers p = (Ok (), q)"
    and "managedModel (p_cfg p) model" "Accounts (p_cfg p) \<noteq> []"
  shows "\<not> p_closed p \<and> p_fault p = [] \<and> p_byAuthID q = p_byAuthID p \<and>
    (if Current (p_state p) = [] then q = p \<and> (\<exists>a\<in>set (Accounts (p_cfg p)). eligible p now a)
     else \<exists>a\<in>set (Accounts (p_cfg p)). eligible p now a \<and> Current (p_state q) = Fingerprint a)"
proof -
  from assms(1) have ok: "keys_ok p" by (rule wf_poolD)
  have su: "some_unblocked p now (Accounts (p_cfg p)) =
      Some (\<exists>a\<in>set (Accounts (p_cfg p)). eligible p now a)"
    by (rule some_unblocked_spec [OF ok]) simp
  show ?thesis
  proof (cases "Current (p_state p) = []")
    case True
    with assms(2-4) su show ?thesis by (auto simp: Guard_def split: if_splits bool.splits)
  next
    case False
    with assms(1) obtain b where "b \<in> set (Accounts (p_cfg p))" "Fingerprint b = Current (p_state p)"
      by (auto simp: wf_pool_def current_ok_def has_account_iff)
    then obtain a where a: "accountLocked p (Current (p_state p)) = Some a"
      by (cases "accountLocked p (Current (p_state p))") (auto simp: accountLocked_None)
    note mem = accountLocked_SomeD [OF a]
    from False assms(2-4) have g: "guard_current now p = (Ok (), q)" "\<not> p_closed p" "p_fault p = []"
      by (auto simp: Guard_def split: if_splits)
    show ?thesis
    proof (cases "eligible p now a")
      case True
      with g a mem False blockedLocked_empty [OF ok, of a now] show ?thesis
        by (auto simp: guard_current_def)
    next
      case el: False
      then have "blockedLocked p (Some a) now \<noteq> Some []"
        using blockedLocked_empty [OF ok, of a now] mem by simp
      with g a False show ?thesis
        by (cases rule: chooseLocked_cases [OF ok, of "Current (p_state p)" now])
          (auto simp: guard_current_def split: option.splits if_splits)
    qed
  qed
qed

lemma eligible_key_cong:
  "key_of p (Fingerprint a) = key_of q (Fingerprint a) \<Longrightarrow> eligible p now a = eligible q now a"
  by (simp add: eligible_def state_of_def)

lemma pick_current_eligible:
  assumes "keys_ok p" "accountLocked p (Current (p_state p)) = Some a" "eligible p now a"
  shows "pick_current req now p = (pick_answer p req a now, p)"
  using assms blockedLocked_empty [OF assms(1), of a now] accountLocked_SomeD [OF assms(2)]
  by (simp add: pick_current_def)

lemma Pick_first_choice:
  assumes "wf_pool p" "Current (p_state p) = []" "managedLocked p req"
    and "\<not> p_closed p" "p_fault p = []" "distinct (map Fingerprint (Accounts (p_cfg p)))"
    and "\<forall>a\<in>set (Accounts (p_cfg p)). Fingerprint a \<noteq> [] \<and> candidate_present req a"
    and "\<exists>a\<in>set (Accounts (p_cfg p)). eligible p now a"
  shows "\<exists>a\<in>set (Accounts (p_cfg p)). eligible p now a \<and> fst (Pick M now req p) =
    (if \<not> fst (saveLocked M (make_current a p))
     then unavailable (snd (saveLocked M (make_current a p))) ''state_write_failed'' now
     else Ok \<lparr>Handled = True, resp_AuthID = AuthID a\<rparr>)"
proof -
  have ok: "keys_ok p" by (rule wf_poolD [OF assms(1)])
  obtain a where a: "a \<in> set (Accounts (p_cfg p))" "eligible p now a"
    and ch: "chooseLocked p (Cursor (p_state p)) now = (Ok True, make_current a p)"
    using assms(8) by (cases rule: chooseLocked_cases [OF ok, of "Cursor (p_state p)" now]) auto
  obtain ok' y where y: "saveLocked M (make_current a p) = (ok', y)" by fastforce
  note yf = saveLocked_frame [OF y]
  have "pick_current req now y = (pick_answer y req a now, y)"
  proof (rule pick_current_eligible)
    have "wf_pool y" using wf_pool_saveLocked [OF y] assms(1) a(1) by (simp add: wf_pool_make_current)
    then show "keys_ok y" by (rule wf_poolD)
    show "accountLocked y (Current (p_state y)) = Some a"
      using accountLocked_distinct [of y a] assms(6) a(1) yf by simp
    show "eligible y now a" using a(2) by (simp add: eligible_def state_of_def key_of_def yf)
  qed
  then have "fst (Pick M now req p) =
      (if ok' then pick_answer y req a now else unavailable y ''state_write_failed'' now)"
    using assms(2-5) ch y
    by (auto simp: Pick_def ensure_current_def unavailable_def split: option.split)
  with a assms(7) y show ?thesis by (intro bexI [of _ a]) (auto simp: pick_answer_def)
qed

text \<open>
  C10: What the guard lets pass, the selection can serve. If \<open>Guard\<close> admits a managed
  model, then at the same moment \<open>Pick\<close> hands out an eligible account for every managed
  request that offers all accounts, the fingerprints being distinct; except that when no
  account was current and the store refuses the save of this first selection, \<open>Pick\<close>
  answers \<open>state_write_failed\<close>.
\<close>

theorem guard_admits_what_pick_serves:
  assumes "pool_reach M G t p" "Guard G now model headers p = (Ok (), q)"
    and "managedModel (p_cfg p) model" "managedLocked p req"
    and "distinct (map Fingerprint (Accounts (p_cfg p)))" "Accounts (p_cfg p) \<noteq> []"
    and "\<forall>a\<in>set (Accounts (p_cfg p)). Fingerprint a \<noteq> [] \<and> candidate_present req a"
  shows "\<exists>a\<in>set (Accounts (p_cfg p)). eligible p now a \<and> fst (Pick M now req q) =
    (if Current (p_state p) = [] \<and> \<not> fst (saveLocked M (make_current a p))
     then unavailable (snd (saveLocked M (make_current a p))) ''state_write_failed'' now
     else Ok \<lparr>Handled = True, resp_AuthID = AuthID a\<rparr>)"
proof -
  have wf: "wf_pool p" by (rule pool_reach_wf [OF assms(1)])
  from Guard_spec [OF wf assms(2)] have fr: "p_cfg q = p_cfg p" "p_store q = p_store p"
    "p_closed q = p_closed p" "p_fault q = p_fault p" "Keys (p_state q) = Keys (p_state p)"
    and wfq: "wf_pool q" by auto
  from wfq have okq: "keys_ok q" by (rule wf_poolD)
  note ad = Guard_admits [OF wf assms(2,3,6)]
  have "managedLocked q req = managedLocked p req" using ad fr by (simp add: managedLocked_def)
  with assms(4) have man: "managedLocked q req" by simp
  have el: "eligible q now a = eligible p now a" for a
    by (rule eligible_key_cong) (simp add: key_of_def fr)
  have acc: "accountLocked y (Fingerprint a) = Some a"
    if "a \<in> set (Accounts (p_cfg p))" "p_cfg y = p_cfg p" for a and y :: "'a pool"
    using accountLocked_distinct [of y a] assms(5) that by simp
  show ?thesis
  proof (cases "Current (p_state p) = []")
    case False
    with ad obtain a where a: "a \<in> set (Accounts (p_cfg p))" "eligible p now a"
      "Current (p_state q) = Fingerprint a" by auto
    then have "pick_current req now q = (pick_answer q req a now, q)"
      using el okq acc [OF a(1) fr(1)] by (intro pick_current_eligible) simp_all
    then have "fst (Pick M now req q) = pick_answer q req a now"
      using a man ad fr assms(7) by (simp add: Pick_def ensure_current_def)
    with a assms(7) False show ?thesis by (auto simp: pick_answer_def)
  next
    case True
    with ad have q: "q = p" and ex: "\<exists>a\<in>set (Accounts (p_cfg p)). eligible p now a"
      and on: "\<not> p_closed p" "p_fault p = []" by auto
    show ?thesis unfolding q
      using Pick_first_choice [OF wf True assms(4) on assms(5,7) ex, of M] True by simp
  qed
qed

lemma demo_guarded:
  "Guard demo_lib 1000 ''big'' [] demo_pool = (Ok (), demo_pool)"
  "managedModel (p_cfg demo_pool) ''big''" "managedLocked demo_pool demo_request"
  "distinct (map Fingerprint (Accounts (p_cfg demo_pool)))" "Accounts (p_cfg demo_pool) \<noteq> []"
  "\<forall>a\<in>set (Accounts (p_cfg demo_pool)). Fingerprint a \<noteq> [] \<and> candidate_present demo_request a"
  by code_simp+

lemma demo_first_saves:
  "\<forall>a\<in>set (Accounts (p_cfg demo_pool)). fst (saveLocked demo_ops (make_current a demo_pool))"
  by code_simp

theorem guard_admits_what_pick_serves_witness:
  "\<exists>a\<in>set (Accounts (p_cfg demo_pool)). eligible demo_pool 1000 a \<and>
    fst (Pick demo_ops 1000 demo_request demo_pool) = Ok \<lparr>Handled = True, resp_AuthID = AuthID a\<rparr>"
  using guard_admits_what_pick_serves [OF demo_pool_reach demo_guarded] demo_first_saves by metis

section \<open>Management\<close>

text \<open>
  C11: A resume makes the first enabled account with the label usable at once and for
  good: all its deadlines are cleared, nothing else changes, and a failure of a request
  that was sent before the resume cannot block the account again, however late it
  arrives. It does not preempt the current account.
\<close>

theorem resume_clears_and_sticks:
  assumes "pool_reach M G t p" "\<not> p_closed p" "0 < now"
    and "find (\<lambda>a. Label a = label) (Accounts (p_cfg p)) = Some a" "\<not> Disabled a"
  defines "q \<equiv> snd (Resume M now label ''clear-cooldown'' p)"
  shows "Current (p_state q) = Current (p_state p) \<and> (\<forall>t'\<ge>0. eligible q t' a)
    \<and> (\<forall>h. h \<noteq> Fingerprint a \<longrightarrow> key_of q h = key_of p h)
    \<and> (fmlookup (p_byAuthID q) (rec_AuthID r) = Some (Fingerprint a) \<and> rec_Failed r
         \<and> RequestedAt r < now \<longrightarrow>
         (\<forall>t'\<ge>0. eligible (snd (Observe M G now' r q)) t' a))"
proof -
  have wf: "wf_pool p" by (rule pool_reach_wf [OF assms(1)])
  have mem: "a \<in> set (Accounts (p_cfg p))" using find_SomeD [OF assms(4)] by simp
  let ?h = "Fingerprint a" and ?k = "resume_key now (state_of p a)"
  have key: "key_of p ?h = Some (state_of p a)" by (rule keys_okD [OF wf_poolD(1) [OF wf] mem])
  with assms(2,4,5) have q: "q = snd (saved M (put_key ?h ?k p))"
    unfolding q_def by (simp add: Resume_def)
  have kq: "key_of q h = (if h = ?h then Some ?k else key_of p h)" for h
    unfolding q by (simp add: key_of_def)
  have el: "eligible y t' a" if "key_of y ?h = Some (?k\<lparr>Failed := n\<rparr>)" "0 \<le> t'"
    for y :: "'a pool" and t' n
    using that assms(5) by (simp add: eligible_iff state_of_def resume_key_def)
  have el0: "eligible q t' a" if "0 \<le> t'" for t'
    by (rule el [of q "Failed ?k"]) (simp_all add: kq that)
  have late: "eligible (snd (Observe M G now' r q)) t' a"
    if "fmlookup (p_byAuthID q) (rec_AuthID r) = Some ?h" "rec_Failed r" "RequestedAt r < now"
      "0 \<le> t'" for t'
  proof -
    have "stale_record ?k r" using that(3) assms(3) by (simp add: stale_record_def resume_key_def)
    with Observe_stale [OF that(1) _ that(2), of ?k M G now'] kq
    obtain n where "p_state (snd (Observe M G now' r q)) =
        (p_state q)\<lparr>Keys := fmupd ?h (?k\<lparr>Failed := n\<rparr>) (Keys (p_state q))\<rparr>" by auto
    then show ?thesis by (intro el [of _ n, OF _ that(4)]) (simp add: key_of_def)
  qed
  have "Current (p_state q) = Current (p_state p)" unfolding q by simp
  with el0 late kq show ?thesis by simp
qed

theorem resume_clears_and_sticks_witness:
  "eligible (snd (Resume demo_ops 1020 ''label-a'' ''clear-cooldown'' demo_switched)) 1021
     (demo_account ''a'')"
proof -
  have "find (\<lambda>a. Label a = ''label-a'') (Accounts (p_cfg demo_switched)) = Some (demo_account ''a'')"
    "\<not> p_closed demo_switched" "\<not> Disabled (demo_account ''a'')"
    unfolding demo_switched_def demo_picked_def by code_simp+
  then show ?thesis using resume_clears_and_sticks [OF demo_switched_reach] by simp
qed

lemma Reconfigure_drops:
  assumes "Reconfigure M now cfg p = (r, q)" "\<not> (p_store p = None \<or> StateDir cfg \<noteq> StateDir (p_cfg p))"
    and "find (\<lambda>a. Fingerprint a = Current (p_state p)) (Accounts cfg) = None
      \<or> Disabled (the (find (\<lambda>a. Fingerprint a = Current (p_state p)) (Accounts cfg)))"
  shows "Keys (p_state q) = Keys (p_state (installAccountsLocked cfg p)) \<and> p_cfg q = cfg \<and>
    Current (p_state q) =
      (case find (eligible q now) (visit_order (Accounts cfg) (Cursor (p_state p))) of
         Some a \<Rightarrow> Fingerprint a | None \<Rightarrow> [])"
proof -
  let ?p1 = "(installAccountsLocked cfg p)\<lparr>p_fault := []\<rparr>"
  have ok: "keys_ok (set_current [] ?p1)"
    using keys_ok_install [of cfg p] by (simp add:  keys_ok_def key_of_def)
  obtain r2 p2 where c: "chooseLocked (set_current [] ?p1) (Cursor (p_state p)) now = (r2, p2)"
    by fastforce
  then have "r2 \<noteq> Panic \<and> (\<forall>e. r2 \<noteq> Fail e)"
    by (auto simp: chooseLocked_spec [OF ok] split: if_splits option.splits)
  with c assms have s: "saved M p2 = (r, q)"
    by (auto simp: Reconfigure_def accountLocked_def Let_def split: outcome.splits)
  note fr = saved_frame(1,2) [OF s]
  have st: "Keys (p_state q) = Keys (p_state ?p1)" "p_cfg q = cfg"
    using c fr by (auto simp: chooseLocked_spec [OF ok] split: if_splits option.splits)
  have "eligible q now = eligible (set_current [] ?p1) now"
    by (rule ext, rule eligible_key_cong) (simp add: key_of_def st)
  then have "Current (p_state q) =
      (case find (eligible q now) (visit_order (Accounts cfg) (Cursor (p_state p))) of
              Some a \<Rightarrow> Fingerprint a | None \<Rightarrow> [])"
    using c fr by (auto simp: chooseLocked_spec [OF ok] next_eligible_def search_order_visit
        visit_order_def split: if_splits option.splits)
  with st show ?thesis by simp
qed

text \<open>
  C14: A configuration change keeps the state of every key, starts the new accounts
  unblocked, and keeps the current account if it is still configured and enabled;
  otherwise the search goes on after the cursor. A changed state directory, or a pool
  without a store, refuses it and changes nothing.
\<close>

theorem reconfigure_keeps_state:
  assumes "pool_reach M G t p" "Reconfigure M now cfg p = (r, q)"
  shows "if p_store p = None \<or> StateDir cfg \<noteq> StateDir (p_cfg p) then q = p \<and> \<not> is_Ok r
    else p_cfg q = cfg
      \<and> (\<forall>h k. key_of p h = Some k \<longrightarrow> key_of q h = Some k)
      \<and> (\<forall>a\<in>set (Accounts cfg). key_of p (Fingerprint a) = None \<longrightarrow>
           key_of q (Fingerprint a) = Some zero_key)
      \<and> (if case find (\<lambda>a. Fingerprint a = Current (p_state p)) (Accounts cfg) of
               None \<Rightarrow> True | Some a \<Rightarrow> Disabled a
         then Current (p_state q) =
             (case find (eligible q now) (visit_order (Accounts cfg) (Cursor (p_state p))) of
                Some a \<Rightarrow> Fingerprint a | None \<Rightarrow> [])
         else Current (p_state q) = Current (p_state p) \<and> Cursor (p_state q) = Cursor (p_state p))"
proof (cases "p_store p = None \<or> StateDir cfg \<noteq> StateDir (p_cfg p)")
  case True
  with assms(2) show ?thesis by (cases "p_store p = None") (auto simp: Reconfigure_def)
next
  case False
  let ?p1 = "(installAccountsLocked cfg p)\<lparr>p_fault := []\<rparr>"
  let ?a = "find (\<lambda>a. Fingerprint a = Current (p_state p)) (Accounts cfg)"
  have key1: "key_of ?p1 h = (case key_of p h of Some k \<Rightarrow> Some k
      | None \<Rightarrow> if has_account cfg h then Some zero_key else None)" for h
    using key_of_install [of cfg p h] by (simp add: key_of_def)
  have keys: ?thesis if st: "Keys (p_state q) = Keys (p_state ?p1)" "p_cfg q = cfg"
    and cur: "?a \<noteq> None \<Longrightarrow> \<not> Disabled (the ?a) \<Longrightarrow>
        Current (p_state q) = Current (p_state p) \<and> Cursor (p_state q) = Cursor (p_state p)"
    and nxt: "?a = None \<or> Disabled (the ?a) \<Longrightarrow> Current (p_state q) =
        (case find (eligible q now) (visit_order (Accounts cfg) (Cursor (p_state p))) of
                Some a \<Rightarrow> Fingerprint a | None \<Rightarrow> [])"
  proof -
    have kq: "key_of q h = key_of ?p1 h" for h using st(1) by (simp add: key_of_def)
    with False st(2) cur nxt show ?thesis
      by (auto simp: kq key1 has_account_iff split: option.splits)
  qed
  show ?thesis
  proof (cases "?a = None \<or> Disabled (the ?a)")
    case drop: False
    with assms(2) False have "saved M ?p1 = (r, q)"
      by (auto simp: Reconfigure_def accountLocked_def Let_def)
    note fr = saved_frame(1,2) [OF this]
    show ?thesis by (rule keys) (use fr drop in simp_all)
  next
    case drop: True
    from Reconfigure_drops [OF assms(2) False drop]
    have st: "Keys (p_state q) = Keys (p_state ?p1)" "p_cfg q = cfg" "Current (p_state q) =
        (case find (eligible q now) (visit_order (Accounts cfg) (Cursor (p_state p))) of
                Some a \<Rightarrow> Fingerprint a | None \<Rightarrow> [])" by simp_all
    with st drop show ?thesis by (intro keys) simp_all
  qed
qed

definition demo_cfg_b :: configuration where
  "demo_cfg_b = demo_cfg\<lparr>Accounts := [demo_account ''b'', demo_account ''c'']\<rparr>"

theorem reconfigure_keeps_state_witness:
  "key_of (snd (Reconfigure demo_ops 1015 demo_cfg_b demo_picked)) ''a'' = key_of demo_picked ''a''
   \<and> Current (p_state (snd (Reconfigure demo_ops 1015 demo_cfg_b demo_picked))) = ''b''"
proof -
  obtain r q where rq: "Reconfigure demo_ops 1015 demo_cfg_b demo_picked = (r, q)" by fastforce
  have "p_store demo_picked \<noteq> None" "StateDir demo_cfg_b = StateDir (p_cfg demo_picked)"
    "find (\<lambda>a. Fingerprint a = ''a'') (Accounts demo_cfg_b) = None"
    "key_of demo_picked ''a'' = Some zero_key"
    "find (eligible (snd (Reconfigure demo_ops 1015 demo_cfg_b demo_picked)) 1015)
      (visit_order (Accounts demo_cfg_b) (Cursor (p_state demo_picked))) = Some (demo_account ''b'')"
    unfolding demo_picked_def by code_simp+
  with reconfigure_keeps_state [OF demo_picked_reach rq] show ?thesis
    by (simp add: rq demo_picked_eval demo_account_def)
qed

text \<open>
  Closing saves the state, releases the store once, and is final: a second close
  changes nothing, outcomes that arrive later change nothing, and nothing is selected.
\<close>

theorem close_is_final:
  assumes "pool_reach M G t p" "Close M p = (r, q)"
  shows "p_closed q \<and> p_state q = p_state p \<and> Close M q = (Ok (), q)
    \<and> Observe M G now rec q = (Ok (), q)
    \<and> (managedLocked q req \<longrightarrow>
         (\<exists>e. Pick M now req q = (Fail (Unavailable e), q) \<and> err_Reason e = ''plugin_stopped''))
    \<and> snd (Resume M now label confirm q) = q \<and> \<not> is_Ok (fst (Resume M now label confirm q))"
proof -
  from Close_spec [OF pool_reach_wf [OF assms(1)] assms(2)]
  have "p_closed q" "p_state q = p_state p" "wf_pool q" by auto
  moreover from this(3) have "keys_ok q" by (rule wf_poolD)
  ultimately show ?thesis using unavailable_Fail [of q "''plugin_stopped''" now]
    by (auto simp: Close_def Observe_def Pick_def Resume_def)
qed

theorem close_is_final_witness:
  "Observe demo_ops demo_lib 1030 demo_failure (snd (Close demo_ops demo_picked)) =
     (Ok (), snd (Close demo_ops demo_picked))"
  using close_is_final [OF demo_picked_reach] by (metis prod.collapse)

text \<open>
  The status of a pool lists every configured account once, in order, under its label
  and never under its fingerprint; an account is reported healthy exactly when the pool
  has no fault and the account could be selected now, and the counters are those of its key.
\<close>

theorem status_reports_accounts:
  assumes "pool_reach M G t p"
  shows "\<exists>s. Status p now = Ok s \<and> length (st_Accounts s) = length (Accounts (p_cfg p))
    \<and> StorageOK s = (p_fault p = [])
    \<and> (\<forall>i < length (Accounts (p_cfg p)). let a = Accounts (p_cfg p) ! i; x = st_Accounts s ! i in
         st_Label x = Label a
       \<and> (st_State x = ''healthy'' \<longleftrightarrow> p_fault p = [] \<and> eligible p now a)
       \<and> (st_Current x \<longleftrightarrow> Current (p_state p) = Fingerprint a)
       \<and> st_Success x = Success (state_of p a) \<and> st_Failed x = Failed (state_of p a))"
proof -
  have ok: "keys_ok p" by (rule wf_poolD(1)) (rule pool_reach_wf [OF assms])
  have acc: "\<exists>ss. account_statuses p now accs = Some ss \<and> length ss = length accs
    \<and> (\<forall>i < length accs. let a = accs ! i; x = ss ! i in
         st_Label x = Label a
       \<and> (st_State x = ''healthy'' \<longleftrightarrow> p_fault p = [] \<and> eligible p now a)
       \<and> (st_Current x \<longleftrightarrow> Current (p_state p) = Fingerprint a)
       \<and> st_Success x = Success (state_of p a) \<and> st_Failed x = Failed (state_of p a))"
    if "set accs \<subseteq> set (Accounts (p_cfg p))" for accs
    using that
  proof (induction accs)
    case (Cons a accs)
    then obtain ss where ss: "account_statuses p now accs = Some ss" "length ss = length accs"
      "\<forall>i < length accs. let a = accs ! i; x = ss ! i in
         st_Label x = Label a
       \<and> (st_State x = ''healthy'' \<longleftrightarrow> p_fault p = [] \<and> eligible p now a)
       \<and> (st_Current x \<longleftrightarrow> Current (p_state p) = Fingerprint a)
       \<and> st_Success x = Success (state_of p a) \<and> st_Failed x = Failed (state_of p a)" by auto
    have a: "a \<in> set (Accounts (p_cfg p))" using Cons.prems by simp
    let ?r = "if Disabled a then ''disabled'' else block_reason (state_of p a) now"
    have "(status_word (p_fault p) ?r = ''healthy'') = (p_fault p = [] \<and> eligible p now a)"
      using block_reason_cases [of "state_of p a" now]
      by (auto simp: status_word_def eligible_def)
    with ss blockedLocked_account [OF ok a] keys_okD [OF ok a] show ?case
      by (auto simp: account_status_def Let_def nth_Cons split: nat.splits)
  qed simp
  from acc [of "Accounts (p_cfg p)"] show ?thesis by (auto simp: Status_def)
qed

theorem status_reports_accounts_witness:
  "\<exists>s. Status demo_switched 1020 = Ok s \<and> length (st_Accounts s) = length (Accounts (p_cfg demo_switched))"
  using status_reports_accounts [OF demo_switched_reach] by metis

section \<open>A disabled current account\<close>

text \<open>
  C18: A restart does not give up a stored current account that was disabled meanwhile:
  the pool keeps it and refuses every managed request with \<open>current_disabled\<close>, whether or
  not another account could be used, and each refusal leaves the pool as it was.
\<close>

theorem restart_keeps_disabled_current:
  assumes "newPool M cfg st = Some p" "Load M st = Some s" "Current s \<noteq> []"
    and "find (\<lambda>a. Fingerprint a = Current s) (Accounts cfg) = Some a" "Disabled a"
    and "managedLocked p req"
  shows "\<exists>e. Pick M now req p = (Fail (Unavailable e), p) \<and> err_Reason e = ''current_disabled''"
proof -
  have ok: "keys_ok p" by (rule wf_poolD(1)) (rule newPool_wf [OF assms(1)])
  have "has_account cfg (Current s)"
    using find_SomeD [OF assms(4)] by (auto simp: has_account_iff)
  with assms(1,2) have p: "p = opened cfg st s" by (simp add: newPool_opened)
  with assms(4) have a: "accountLocked p (Current (p_state p)) = Some a"
    by (simp add: accountLocked_def)
  have "pick_current req now p = (unavailable p ''current_disabled'' now, p)"
    using a assms(5) by (simp add: pick_current_def blockedLocked_def)
  then have "Pick M now req p = (unavailable p ''current_disabled'' now, p)"
    using assms(3,6) p by (simp add: Pick_def ensure_current_def)
  with unavailable_Fail [OF ok, of "''current_disabled''" now] show ?thesis by auto
qed

definition disabled_cfg :: configuration where
  "disabled_cfg = demo_cfg\<lparr>Accounts := [(demo_account hash_a)\<lparr>Disabled := True\<rparr>, demo_account ''b'']\<rparr>"

definition disabled_text :: string where
  \<open>disabled_text = ''{"version":1,"current":"'' @ hash_a @ ''","keys":{}}''\<close>

definition disabled_state :: persistedState where
  "disabled_state = emptyState\<lparr>Current := hash_a\<rparr>"

definition disabled_pool :: "memoryStore pool" where
  "disabled_pool = opened disabled_cfg \<lparr>mem_raw = disabled_text\<rparr> disabled_state"

lemma disabled_load: "Load demo_ops \<lparr>mem_raw = disabled_text\<rparr> = Some disabled_state"
  by code_simp

theorem restart_keeps_disabled_current_witness:
  "\<exists>e. Pick demo_ops 1000 demo_request disabled_pool = (Fail (Unavailable e), disabled_pool)
     \<and> err_Reason e = ''current_disabled'' \<and> eligible disabled_pool 1000 (demo_account ''b'')"
proof -
  have "has_account disabled_cfg (Current disabled_state)" by code_simp
  then have "newPool demo_ops disabled_cfg \<lparr>mem_raw = disabled_text\<rparr> = Some disabled_pool"
    by (simp add: newPool_opened disabled_load disabled_pool_def)
  moreover have "Current disabled_state \<noteq> []"
    "find (\<lambda>a. Fingerprint a = Current disabled_state) (Accounts disabled_cfg)
      = Some ((demo_account hash_a)\<lparr>Disabled := True\<rparr>)" "managedLocked disabled_pool demo_request"
    "eligible disabled_pool 1000 (demo_account ''b'')" by code_simp+
  ultimately show ?thesis
    using restart_keeps_disabled_current [OF _ disabled_load] by auto
qed

end
