(* ===== verification/Go_Sha256.thy ===== *)
theory Go_Sha256
  imports Go_Json_Print
begin

text \<open>
  Packages \<open>crypto/sha256\<close> and \<open>encoding/hex\<close>: the digest the plugin names keys, auth IDs
  and proxies by. Words are 32 bits and additions wrap, as in FIPS 180-4.
\<close>

unbundle bit_operations_syntax

type_synonym w32 = "32 word"

definition rotr :: "nat \<Rightarrow> w32 \<Rightarrow> w32" where
  "rotr n x = drop_bit n x OR push_bit (32 - n) x"

text \<open>
  The constants are the first 32 bits after the point of roots of the first primes: cube
  roots for the rounds, square roots for the start. \<open>root_bits k b n r\<close> sets the \<open>b\<close> lower
  bits of the integer \<open>k\<close>-th root of \<open>n\<close>.
\<close>

fun root_bits :: "nat \<Rightarrow> nat \<Rightarrow> int \<Rightarrow> int \<Rightarrow> int" where
  "root_bits k 0 n r = r"
| "root_bits k (Suc b) n r =
     root_bits k b n (if (r + 2 ^ b) ^ k \<le> n then r + 2 ^ b else r)"

definition first_primes :: "int list" where
  "first_primes = take 64 (filter (\<lambda>n. \<not> list_ex (\<lambda>d. n mod d = 0) [2..n - 1]) [2..311])"

definition root_fraction :: "nat \<Rightarrow> int \<Rightarrow> w32" where
  "root_fraction k p = word_of_int (root_bits k 40 (p * 2 ^ (32 * k)) 0)"

definition round_constants :: "w32 list" where
  "round_constants = map (root_fraction 3) first_primes"

type_synonym hash_state = "w32 \<times> w32 \<times> w32 \<times> w32 \<times> w32 \<times> w32 \<times> w32 \<times> w32"

definition initial_hash :: hash_state where
  "initial_hash =
     (root_fraction 2 2, root_fraction 2 3, root_fraction 2 5, root_fraction 2 7,
      root_fraction 2 11, root_fraction 2 13, root_fraction 2 17, root_fraction 2 19)"

definition sigma0 :: "w32 \<Rightarrow> w32" where
  "sigma0 x = rotr 7 x XOR rotr 18 x XOR drop_bit 3 x"

definition sigma1 :: "w32 \<Rightarrow> w32" where
  "sigma1 x = rotr 17 x XOR rotr 19 x XOR drop_bit 10 x"

definition round_step :: "w32 \<Rightarrow> w32 \<Rightarrow> hash_state \<Rightarrow> hash_state" where
  "round_step k w s =
     (case s of (a, b, c, d, e, f, g, h) \<Rightarrow>
        let t1 = h + (rotr 6 e XOR rotr 11 e XOR rotr 25 e) + ((e AND f) XOR (NOT e AND g)) + k + w;
            t2 = (rotr 2 a XOR rotr 13 a XOR rotr 22 a)
                 + ((a AND b) XOR (a AND c) XOR (b AND c))
        in (t1 + t2, a, b, c, d + t1, e, f, g))"

text \<open>
  The rounds of one block. The message schedule is kept as a window of its last sixteen
  words: the first word is used in this round, the new one enters at the end.
\<close>

fun rounds :: "w32 list \<Rightarrow> w32 list \<Rightarrow> hash_state \<Rightarrow> hash_state" where
  "rounds [] ws s = s"
| "rounds (k # ks) ws s =
     rounds ks (tl ws @ [ws ! 0 + sigma0 (ws ! 1) + ws ! 9 + sigma1 (ws ! 14)])
       (round_step k (hd ws) s)"

definition add_hash :: "hash_state \<Rightarrow> hash_state \<Rightarrow> hash_state" where
  "add_hash x y =
     (case (x, y) of ((a, b, c, d, e, f, g, h), (a', b', c', d', e', f', g', h')) \<Rightarrow>
        (a + a', b + b', c + c', d + d', e + e', f + f', g + g', h + h'))"

section \<open>Blocks\<close>

definition word_of_bytes :: "int \<Rightarrow> int \<Rightarrow> int \<Rightarrow> int \<Rightarrow> w32" where
  "word_of_bytes a b c d = word_of_int (((a * 256 + b) * 256 + c) * 256 + d)"

fun block_words :: "string \<Rightarrow> w32 list" where
  "block_words (a # b # c # d # s) =
     word_of_bytes (byte a) (byte b) (byte c) (byte d) # block_words s"
| "block_words _ = []"

text \<open>A \<open>1\<close> bit, zeros, and the length in bits as 64 bits, up to a multiple of 64 bytes.\<close>

definition be_bytes :: "nat \<Rightarrow> int \<Rightarrow> string" where
  "be_bytes k n = map (\<lambda>i. char_of (n div 256 ^ (k - 1 - i) mod 256)) [0..<k]"

definition pad_message :: "string \<Rightarrow> string" where
  "pad_message s =
     s @ CHR 0x80 # replicate ((119 - length s mod 64) mod 64) (CHR 0x00)
     @ be_bytes 8 (8 * int (length s))"

fun hash_words :: "nat \<Rightarrow> w32 list \<Rightarrow> hash_state \<Rightarrow> hash_state" where
  "hash_words 0 ws s = s"
| "hash_words (Suc n) ws s =
     hash_words n (drop 16 ws) (add_hash s (rounds round_constants (take 16 ws) s))"

definition state_words :: "hash_state \<Rightarrow> w32 list" where
  "state_words s = (case s of (a, b, c, d, e, f, g, h) \<Rightarrow> [a, b, c, d, e, f, g, h])"

definition Sum256 :: "string \<Rightarrow> string" where
  "Sum256 s =
     (let m = pad_message s
      in concat (map (\<lambda>w. be_bytes 4 (uint w))
           (state_words (hash_words (length m div 64) (block_words m) initial_hash))))"

section \<open>encoding/hex\<close>

definition EncodeToString :: "string \<Rightarrow> string" where
  "EncodeToString s = concat (map (\<lambda>c. [hex_char (byte c div 16), hex_char (byte c mod 16)]) s)"

section \<open>Facts\<close>

lemma length_be_bytes [simp]: "length (be_bytes k n) = k"
  by (simp add: be_bytes_def)

lemma Sum256_length: "length (Sum256 s) = 32"
  by (simp add: Sum256_def state_words_def Let_def split: prod.split)

lemma EncodeToString_length [simp]: "length (EncodeToString s) = 2 * length s"
  by (induction s) (simp_all add: EncodeToString_def)

lemma byte_bounds: "0 \<le> byte c \<and> byte c < 256"
proof -
  have "byte c = byte c mod 256" by (simp only: byte_def of_char_mod_256)
  moreover have "0 \<le> byte c mod 256 \<and> byte c mod 256 < 256" by simp
  ultimately show ?thesis by linarith
qed

end
