(* ===== verification/Go_Base64.thy ===== *)
theory Go_Base64
  imports Go_Sha256
begin

text \<open>
  \<open>base64.StdEncoding\<close>, in which \<open>encoding/json\<close> writes and reads \<open>[]byte\<close>. What is written
  is read back.
\<close>

definition b64_char :: "int \<Rightarrow> char" where
  "b64_char n =
     char_of (if n < 26 then 65 + n else if n < 52 then 71 + n else if n < 62 then n - 4
              else if n = 62 then 43 else 47)"

definition b64_val :: "char \<Rightarrow> int option" where
  "b64_val c =
     (let n = byte c
      in if 65 \<le> n \<and> n \<le> 90 then Some (n - 65)
         else if 97 \<le> n \<and> n \<le> 122 then Some (n - 71)
         else if 48 \<le> n \<and> n \<le> 57 then Some (n + 4)
         else if n = 43 then Some 62 else if n = 47 then Some 63 else None)"

fun b64_encode :: "string \<Rightarrow> string" where
  "b64_encode [] = []"
| "b64_encode [a] =
     [b64_char (byte a div 4), b64_char (byte a mod 4 * 16), CHR ''='', CHR ''='']"
| "b64_encode [a, b] =
     [b64_char (byte a div 4), b64_char (byte a mod 4 * 16 + byte b div 16),
      b64_char (byte b mod 16 * 4), CHR ''='']"
| "b64_encode (a # b # c # s) =
     b64_char (byte a div 4) # b64_char (byte a mod 4 * 16 + byte b div 16)
     # b64_char (byte b mod 16 * 4 + byte c div 64) # b64_char (byte c mod 64) # b64_encode s"

text \<open>
  Four digits give three bytes; padding is allowed in the last four only, and the bits it
  makes superfluous are not looked at.
\<close>

fun b64_quads :: "string \<Rightarrow> string option" where
  "b64_quads [] = Some []"
| "b64_quads (a # b # c # d # s) =
     (case (b64_val a, b64_val b) of
        (Some w, Some x) \<Rightarrow>
          (case (b64_val c, b64_val d) of
             (Some y, Some z) \<Rightarrow>
               map_option (\<lambda>r. char_of (w * 4 + x div 16) # char_of (x mod 16 * 16 + y div 4)
                                # char_of (y mod 4 * 64 + z) # r) (b64_quads s)
           | (Some y, None) \<Rightarrow>
               if d = CHR ''='' \<and> s = []
               then Some [char_of (w * 4 + x div 16), char_of (x mod 16 * 16 + y div 4)] else None
           | (None, _) \<Rightarrow>
               if c = CHR ''='' \<and> d = CHR ''='' \<and> s = [] then Some [char_of (w * 4 + x div 16)]
               else None)
      | _ \<Rightarrow> None)"
| "b64_quads _ = None"

text \<open>Line breaks between the digits are skipped.\<close>

definition b64_decode :: "string \<Rightarrow> string option" where
  "b64_decode s = b64_quads (filter (\<lambda>c. c \<noteq> CHR 0x0A \<and> c \<noteq> CHR 0x0D) s)"

section \<open>Round trip\<close>

lemma byte_char_of: "0 \<le> n \<Longrightarrow> n < 256 \<Longrightarrow> byte (char_of n) = n"
  by (simp add: byte_def of_char_of take_bit_eq_mod)

lemma char_of_byte: "char_of (byte c) = c"
  by (simp add: byte_def)

lemma byte_b64_char:
  assumes "0 \<le> n" "n < 64"
  shows "byte (b64_char n) =
    (if n < 26 then 65 + n else if n < 52 then 71 + n else if n < 62 then n - 4
     else if n = 62 then 43 else 47)"
  unfolding b64_char_def using assms by (subst byte_char_of) auto

lemma b64_val_char [simp]: "0 \<le> n \<Longrightarrow> n < 64 \<Longrightarrow> b64_val (b64_char n) = Some n"
  by (auto simp: b64_val_def byte_b64_char Let_def)

lemma b64_char_line [simp]:
  assumes "0 \<le> n" "n < 64"
  shows "b64_char n \<noteq> CHR 0x0A" "b64_char n \<noteq> CHR 0x0D"
  using byte_b64_char [OF assms] assms by (auto simp: byte_def split: if_splits)

text \<open>The digits of a byte and what they give back.\<close>

lemma byte_parts:
  "0 \<le> byte a div 4" "byte a div 4 < 64" "0 \<le> byte a mod 4 * 16" "byte a mod 4 * 16 < 64"
  "0 \<le> byte a mod 4 * 16 + byte b div 16" "byte a mod 4 * 16 + byte b div 16 < 64"
  "0 \<le> byte b mod 16 * 4" "byte b mod 16 * 4 < 64"
  "0 \<le> byte b mod 16 * 4 + byte c div 64" "byte b mod 16 * 4 + byte c div 64 < 64"
  "0 \<le> byte c mod 64" "byte c mod 64 < 64"
  using byte_bounds [of a] byte_bounds [of b] byte_bounds [of c] by auto

lemma byte_digits:
  "byte c div 16 div 16 = 0" "byte c div 16 mod 16 * 16 + byte c mod 16 = byte c"
  "byte c div 64 div 4 = 0" "byte c div 64 mod 4 * 64 + byte c mod 64 = byte c"
proof -
  have "byte c div 16 mod 16 = byte c div 16" "byte c div 64 mod 4 = byte c div 64"
    using byte_bounds [of c] by (auto intro!: mod_pos_pos_trivial)
  then show "byte c div 16 mod 16 * 16 + byte c mod 16 = byte c"
    "byte c div 64 mod 4 * 64 + byte c mod 64 = byte c"
    by simp_all
  show "byte c div 16 div 16 = 0" "byte c div 64 div 4 = 0"
    using byte_bounds [of c] by (auto intro!: div_pos_pos_trivial)
qed

lemma b64_val_pad [simp]: "b64_val (CHR ''='') = None"
  by code_simp

lemma b64_round_trip: "b64_decode (b64_encode s) = Some s"
proof (induction s rule: b64_encode.induct)
  case (4 a b c s)
  then show ?case by (simp add: b64_decode_def byte_parts byte_digits char_of_byte)
qed (simp_all add: b64_decode_def byte_parts byte_digits char_of_byte)

end
