(* ===== verification/Go_Json_Escape.thy ===== *)
theory Go_Json_Escape
  imports Go_Base64
begin

text \<open>
  Every string can be written as a JSON string and is read back, control characters, quotes
  and the characters of HTML included; bytes that are no UTF-8 come back as the replacement
  character, all others as they were. So every value that is built from quoted strings is
  read back, whatever texts of the outside world it contains.
\<close>

lemma byte_hex_char:
  assumes "0 \<le> n" "n < 16"
  shows "byte (hex_char n) = (if n < 10 then 48 + n else 87 + n)"
  unfolding hex_char_def using assms by (subst byte_char_of) auto

lemma hex_digit_char [simp]:
  assumes "0 \<le> n" "n < 16"
  shows "hex_digit (hex_char n) = Some n"
proof -
  note b = byte_hex_char [OF assms, unfolded byte_def]
  have "\<not> is_upper (hex_char n)" using assms b by (auto simp: is_upper_def split: if_splits)
  then have "lower_char (hex_char n) = hex_char n" by (simp add: lower_char_def)
  moreover have "is_digit (hex_char n) \<longleftrightarrow> n < 10"
    using assms b by (auto simp: is_digit_def split: if_splits)
  moreover have "n < 10 \<Longrightarrow> digit_val (hex_char n) = n"
    using b by (simp add: digit_val_def)
  ultimately show ?thesis using assms b by (simp add: hex_digit_def Let_def byte_def)
qed

lemma hex4_u_escape:
  assumes "0 \<le> n" "n < 128"
  shows "hex4 (hex_char (n div 4096) # hex_char (n div 256 mod 16) # hex_char (n div 16 mod 16)
      # hex_char (n mod 16) # rest) = Some (n, rest)"
proof -
  have "n div 4096 = 0" "n div 256 = 0" using assms by auto
  moreover have "0 \<le> n div 16" "n div 16 < 16" using assms by auto
  moreover from this have "n div 16 mod 16 = n div 16" by (rule mod_pos_pos_trivial)
  ultimately show ?thesis using assms by simp
qed

text \<open>One character: its escape is read in one step.\<close>

lemma json_string_u:
  assumes "byte c < 128"
  shows "json_string (Suc n) (u_escape (byte c) @ rest) = prepend [c] (json_string n rest)"
proof -
  have n: "0 \<le> byte c" "byte c < 0xD800" using assms byte_bounds [of c] by auto
  have "utf8_encode (byte c) = [c]" using assms by (simp add: utf8_encode_def char_of_byte)
  then show ?thesis
    using assms n by (simp add: u_escape_def hex4_u_escape unicode_escape_def simple_escape_def)
qed

lemma escape_ascii_step:
  assumes "byte c < 128"
  shows "json_string (Suc n) (escape_ascii c @ rest) = prepend [c] (json_string n rest)"
proof (cases "c = CHR 0x22 \<or> c = CHR 0x5C \<or> c = CHR 0x08 \<or> c = CHR 0x0C \<or> c = CHR 0x0A
    \<or> c = CHR 0x0D \<or> c = CHR 0x09")
  case True
  then show ?thesis by (elim disjE) (simp_all add: escape_ascii_def simple_escape_def)
next
  case named: False
  show ?thesis
  proof (cases "byte c < 32 \<or> c = CHR ''<'' \<or> c = CHR ''>'' \<or> c = CHR ''&''")
    case True
    with named have "escape_ascii c = u_escape (byte c)" by (simp add: escape_ascii_def)
    then show ?thesis using json_string_u [OF assms] by simp
  next
    case False
    with named have "escape_ascii c = [c]" by (simp add: escape_ascii_def)
    then show ?thesis using named False assms by (simp add: prepend_def)
  qed
qed

text \<open>The first argument bounds the steps by the length of the string, as for the printer.\<close>

fun sanitize :: "nat \<Rightarrow> string \<Rightarrow> string" where
  "sanitize 0 s = []"
| "sanitize (Suc n) [] = []"
| "sanitize (Suc n) (c # cs) =
     (if byte c < 128 then c # sanitize n cs
      else case utf8_width (c # cs) of
        None \<Rightarrow> replacement_char @ sanitize n cs
      | Some w \<Rightarrow> take w (c # cs) @ sanitize n (drop w (c # cs)))"

lemma utf8_width_take:
  assumes "utf8_width s = Some w"
  shows "utf8_width (take w s @ r) = Some w" "1 \<le> w" "w \<le> length s"
  using assms
  by (cases s; cases "tl s"; cases "tl (tl s)"; cases "tl (tl (tl s))";
      auto simp: Let_def split: if_splits)+

lemma json_string_consts:
  "json_string (Suc n) (u_escape 0xFFFD @ rest) = prepend replacement_char (json_string n rest)"
  "json_string (Suc n) (u_escape 0x2028 @ rest) = prepend (utf8_encode 0x2028) (json_string n rest)"
  "json_string (Suc n) (u_escape 0x2029 @ rest) = prepend (utf8_encode 0x2029) (json_string n rest)"
proof -
  have "utf8_encode 0xFFFD = replacement_char" by code_simp
  then show
    "json_string (Suc n) (u_escape 0xFFFD @ rest) = prepend replacement_char (json_string n rest)"
    "json_string (Suc n) (u_escape 0x2028 @ rest) = prepend (utf8_encode 0x2028) (json_string n rest)"
    "json_string (Suc n) (u_escape 0x2029 @ rest) = prepend (utf8_encode 0x2029) (json_string n rest)"
    by (simp_all add: u_escape_def unicode_escape_def simple_escape_def)
qed

lemma json_string_wide:
  assumes "utf8_width (c # cs) = Some w" "\<not> byte c < 128"
  shows "json_string (Suc n) (take w (c # cs) @ rest) = prepend (take w (c # cs)) (json_string n rest)"
proof -
  from utf8_width_take [OF assms(1)] obtain v where w: "w = Suc v" "v \<le> length cs"
    and u: "utf8_width (take w (c # cs) @ rest) = Some w" by (cases w) auto
  have "c \<noteq> CHR 0x22" "c \<noteq> CHR 0x5C" "\<not> byte c < 32" using assms(2) by (auto simp: byte_def)
  then show ?thesis using u w by (simp del: utf8_width.simps)
qed

lemma escape_reads_as:
  assumes "length s \<le> k" "length (json_escape k s) < n"
  shows "json_string n (json_escape k s @ CHR 0x22 # rest) = Some (sanitize k s, rest)"
  using assms
proof (induction k s arbitrary: n rule: json_escape.induct)
  case (3 k c cs)
  show ?case
  proof (cases "byte c < 128")
    case True
    have "1 \<le> length (escape_ascii c)" by (simp add: escape_ascii_def u_escape_def)
    with "3.prems" True obtain m where m: "n = Suc m" "length (json_escape k cs) < m"
      by (cases n) auto
    have "json_string m (json_escape k cs @ CHR 0x22 # rest) = Some (sanitize k cs, rest)"
      by (rule "3.IH"(1) [OF True _ m(2)]) (use "3.prems" in simp)
    with True m(1) show ?thesis
      using escape_ascii_step [OF True, of m "json_escape k cs @ CHR 0x22 # rest"]
      by (simp add: prepend_def)
  next
    case wide: False
    show ?thesis
    proof (cases "utf8_width (c # cs)")
      case None
      with "3.prems" wide obtain m where m: "n = Suc m" "length (json_escape k cs) < m"
        by (cases n) (auto simp: u_escape_def)
      have "json_string m (json_escape k cs @ CHR 0x22 # rest) = Some (sanitize k cs, rest)"
        by (rule "3.IH"(2) [OF wide None _ m(2)]) (use "3.prems" in simp)
      with wide None m(1) show ?thesis
        using json_string_consts(1) [of m "json_escape k cs @ CHR 0x22 # rest"]
        by (simp add: prepend_def del: utf8_width.simps)
    next
      case (Some w)
      define t where "t = take w (c # cs)"
      define e where "e = (if t = utf8_encode 0x2028 then u_escape 0x2028
        else if t = utf8_encode 0x2029 then u_escape 0x2029 else t)"
      have esc: "json_escape (Suc k) (c # cs) = e @ json_escape k (drop w (c # cs))"
        using wide Some by (simp add: e_def t_def Let_def del: utf8_width.simps)
      have "1 \<le> length e" using utf8_width_take [OF Some]
        by (auto simp: e_def t_def u_escape_def)
      with "3.prems"(2) esc obtain m
        where m: "n = Suc m" "length (json_escape k (drop w (c # cs))) < m"
        by (cases n) auto
      have "json_string m (json_escape k (drop w (c # cs)) @ CHR 0x22 # rest) =
          Some (sanitize k (drop w (c # cs)), rest)"
        by (rule "3.IH"(3) [OF wide Some refl _ m(2)])
          (use "3.prems" utf8_width_take [OF Some] in auto)
      moreover have "json_string (Suc m) (e @ r) = prepend t (json_string m r)" for r
        using json_string_consts json_string_wide [OF Some wide, of m r]
        by (simp add: e_def t_def [symmetric])
      ultimately show ?thesis unfolding esc m(1)
        using wide Some by (simp add: prepend_def t_def del: utf8_width.simps json_string.simps)
    qed
  qed
qed (auto elim: less_natE)

lemma quote_reads_as: "reads_as (json_escape (length s) s) (sanitize (length s) s)"
  by (simp add: reads_as_def escape_reads_as)

lemma sanitize_ascii: "list_all (\<lambda>c. byte c < 128) s \<Longrightarrow> length s \<le> n \<Longrightarrow> sanitize n s = s"
  by (induction n s rule: sanitize.induct) auto

section \<open>Strings that come back as they were\<close>

text \<open>Valid UTF-8 is a sequence of encodings.\<close>

inductive utf8_ok :: "string \<Rightarrow> bool" where
  Nil: "utf8_ok []"
| piece: "utf8_width p = Some (length p) \<Longrightarrow> utf8_ok s \<Longrightarrow> utf8_ok (p @ s)"

lemma utf8_ok_append: "utf8_ok s \<Longrightarrow> utf8_ok t \<Longrightarrow> utf8_ok (s @ t)"
proof (induction rule: utf8_ok.induct)
  case (piece p s)
  from utf8_ok.piece [OF piece.hyps(1) piece.IH [OF piece.prems]] show ?case by simp
qed simp

lemma utf8_ok_piece: "utf8_width p = Some (length p) \<Longrightarrow> utf8_ok p"
  using utf8_ok.piece [OF _ utf8_ok.Nil] by simp

lemma utf8_ok_char: "byte c < 128 \<Longrightarrow> utf8_ok [c]"
  by (rule utf8_ok_piece) simp

lemma utf8_ok_ascii: "list_all (\<lambda>c. byte c < 128) s \<Longrightarrow> utf8_ok s"
proof (induction s)
  case (Cons c s)
  then show ?case using utf8_ok_append [OF utf8_ok_char, of c s] by simp
qed (rule utf8_ok.Nil)

lemma utf8_ok_plain: "plain s \<Longrightarrow> utf8_ok s"
  by (rule utf8_ok_ascii) (auto simp: plain_def plain_char_def list_all_iff)

lemma sanitize_utf8: "utf8_ok s \<Longrightarrow> length s \<le> n \<Longrightarrow> sanitize n s = s"
proof (induction arbitrary: n rule: utf8_ok.induct)
  case Nil
  then show ?case by (cases n) simp_all
next
  case (piece p s)
  from utf8_width_take [OF piece.hyps(1)] obtain c q where p: "p = c # q" by (cases p) auto
  from piece.prems p obtain m where n: "n = Suc m" "length (q @ s) \<le> m" by (cases n) auto
  have w: "utf8_width (c # q @ s) = Some (length p)"
    using utf8_width_take(1) [OF piece.hyps(1), of s] by (simp add: p del: utf8_width.simps)
  have IH: "sanitize m s = s" by (rule piece.IH) (use n in simp)
  show ?case
  proof (cases "byte c < 128")
    case True
    with piece.hyps(1) have "q = []" by (simp add: p)
    with True n IH show ?thesis by (simp add: p)
  next
    case False
    with w IH n show ?thesis by (simp add: p del: utf8_width.simps)
  qed
qed

lemma utf8_reads_as: "utf8_ok s \<Longrightarrow> reads_as (json_escape (length s) s) s"
  using quote_reads_as [of s] by (simp add: sanitize_utf8)

text \<open>Every string the reader returns is valid.\<close>

lemma utf8_width_2:
  fixes a b :: int
  assumes "2 \<le> a" "a < 32" "0 \<le> b" "b < 64"
  shows "utf8_width [char_of (192 + a), char_of (128 + b)] = Some 2"
  using assms by (simp add: byte_char_of cont_byte_def Let_def)

lemma utf8_width_3:
  fixes a b c :: int
  assumes "0 \<le> a" "a < 16" "0 \<le> b" "b < 64" "0 \<le> c" "c < 64" "a = 0 \<Longrightarrow> 32 \<le> b" "a = 13 \<Longrightarrow> b < 32"
  shows "utf8_width [char_of (224 + a), char_of (128 + b), char_of (128 + c)] = Some 3"
  using assms by (simp add: byte_char_of cont_byte_def Let_def)

lemma utf8_width_4:
  fixes a b c d :: int
  assumes "0 \<le> a" "a < 5" "0 \<le> b" "b < 64" "0 \<le> c" "c < 64" "0 \<le> d" "d < 64"
    "a = 0 \<Longrightarrow> 16 \<le> b" "a = 4 \<Longrightarrow> b < 16"
  shows "utf8_width [char_of (240 + a), char_of (128 + b), char_of (128 + c), char_of (128 + d)] = Some 4"
  using assms by (simp add: byte_char_of cont_byte_def Let_def)

lemma utf8_ok_encode:
  assumes "0 \<le> r" "r < 0x110000" "r < 0xD800 \<or> 0xDFFF < r"
  shows "utf8_ok (utf8_encode r)"
proof -
  consider "r < 128" | "128 \<le> r" "r < 2048" | "2048 \<le> r" "r < 65536" | "65536 \<le> r" by linarith
  then show ?thesis
  proof cases
    case 1
    then show ?thesis using assms(1) by (simp add: utf8_encode_def utf8_ok_char byte_char_of)
  next
    case 2
    have "utf8_width [char_of (192 + r div 64), char_of (128 + r mod 64)] = Some 2"
      by (rule utf8_width_2) (use 2 in auto)
    with 2 show ?thesis by (simp add: utf8_encode_def utf8_ok_piece del: utf8_width.simps)
  next
    case 3
    define a b where "a = r div 4096" and "b = r div 64 mod 64"
    have ab: "r div 64 = a * 64 + b"
      using div_mult_mod_eq [of "r div 64" 64] by (simp add: a_def b_def div_mult2_eq [symmetric] zdiv_zmult2_eq [symmetric])
    define e where "e = r mod 64"
    have r: "r = (a * 64 + b) * 64 + e" using div_mult_mod_eq [of r 64] ab by (simp add: e_def)
    have bs: "0 \<le> b" "b < 64" "0 \<le> e" "e < 64" by (simp_all add: b_def e_def)
    have "0 \<le> a" "a < 16" using 3 by (auto simp: a_def)
    moreover have "32 \<le> b" if "a = 0"
      by (rule ccontr) (use that r bs 3 in simp)
    moreover have "b < 32" if "a = 13"
      by (rule ccontr, rule disjE [OF assms(3)]) (use that r bs in simp)+
    ultimately have "utf8_width [char_of (224 + a), char_of (128 + b), char_of (128 + e)] = Some 3"
      using bs by (intro utf8_width_3) simp_all
    with 3 show ?thesis by (simp add: utf8_encode_def a_def b_def e_def utf8_ok_piece del: utf8_width.simps)
  next
    case 4
    define a b c where "a = r div 262144" and "b = r div 4096 mod 64" and "c = r div 64 mod 64"
    have bc: "r div 64 = r div 4096 * 64 + c" "r div 4096 = a * 64 + b"
      using div_mult_mod_eq [of "r div 64" 64] div_mult_mod_eq [of "r div 4096" 64]
      by (simp_all add: a_def b_def c_def zdiv_zmult2_eq [symmetric])
    define e where "e = r mod 64"
    have r: "r = ((a * 64 + b) * 64 + c) * 64 + e"
      using div_mult_mod_eq [of r 64] bc by (simp add: e_def)
    have bs: "0 \<le> b" "b < 64" "0 \<le> c" "c < 64" "0 \<le> e" "e < 64"
      by (simp_all add: b_def c_def e_def)
    have "0 \<le> a" "a < 5" using 4 assms(2) by (auto simp: a_def)
    moreover have "16 \<le> b" if "a = 0"
      by (rule ccontr) (use that r bs 4 in simp)
    moreover have "b < 16" if "a = 4"
      by (rule ccontr) (use that r bs assms(2) in simp)
    ultimately have "utf8_width [char_of (240 + a), char_of (128 + b), char_of (128 + c), char_of (128 + e)]
        = Some 4"
      using bs by (intro utf8_width_4) simp_all
    with 4 show ?thesis
      by (simp add: utf8_encode_def a_def b_def c_def e_def utf8_ok_piece del: utf8_width.simps)
  qed
qed

lemma hex_digit_range: "hex_digit c = Some n \<Longrightarrow> 0 \<le> n \<and> n < 16"
  by (auto simp: hex_digit_def is_digit_def digit_val_def Let_def split: if_splits)

lemma hex4_range: "hex4 s = Some (n, r) \<Longrightarrow> 0 \<le> n \<and> n < 65536"
  by (induction s rule: hex4.induct)
    (auto split: option.splits dest!: hex_digit_range)

lemma utf8_ok_replacement: "utf8_ok replacement_char"
proof -
  have "utf8_width replacement_char = Some (length replacement_char)" by code_simp
  then show ?thesis by (rule utf8_ok_piece)
qed

lemma utf8_ok_unicode:
  assumes "0 \<le> r" "r < 65536"
  shows "utf8_ok (fst (unicode_escape r rest))"
  using assms
  by (auto simp: unicode_escape_def utf8_ok_replacement intro!: utf8_ok_encode
      dest: hex4_range split: list.splits option.splits)

lemma utf8_ok_simple: "simple_escape e = Some d \<Longrightarrow> utf8_ok [d]"
  by (rule utf8_ok_char) (auto simp: simple_escape_def byte_def split: if_splits)

lemma prepend_Some: "prepend p r = Some (s, t) \<longleftrightarrow> (\<exists>s'. r = Some (s', t) \<and> s = p @ s')"
  by (auto simp: prepend_def)

lemma json_string_utf8: "json_string n s = Some (t, rest) \<Longrightarrow> utf8_ok t"
proof (induction n s arbitrary: t rest rule: json_string.induct)
  case (3 n c cs)
  show ?case
  proof (cases "c = CHR 0x22 \<or> c = CHR 0x5C")
    case esc: True
    show ?thesis
    proof (cases "c = CHR 0x22")
      case True
      with "3.prems" show ?thesis by (simp add: utf8_ok.Nil)
    next
      case False
      with esc "3.prems" obtain e es where cs: "c = CHR 0x5C" "cs = e # es" by (cases cs) auto
      show ?thesis
      proof (cases "simple_escape e")
        case (Some d)
        with "3.prems" cs obtain t' where t: "json_string n es = Some (t', rest)" "t = [d] @ t'"
          by (auto simp: prepend_Some)
        from "3.IH"(2) [OF False cs Some t(1)] utf8_ok_simple [OF Some] show ?thesis
          unfolding t(2) by (intro utf8_ok_append)
      next
        case None
        with "3.prems" cs obtain r rs u v t' where u: "e = CHR ''u''" "hex4 es = Some (r, rs)"
          "unicode_escape r rs = (u, v)" "json_string n v = Some (t', rest)" "t = u @ t'"
          by (auto simp: prepend_Some split: if_splits option.splits prod.splits)
        from utf8_ok_unicode [of r rs] hex4_range [OF u(2)] u(3) have "utf8_ok u" by simp
        with "3.IH"(1) [OF False cs None u(1,2) refl u(3) [symmetric] refl u(4)] show ?thesis
          unfolding u(5) by (intro utf8_ok_append)
      qed
    qed
  next
    case plain: False
    with "3.prems" have ctl: "\<not> byte c < 32" by (auto split: if_splits)
    show ?thesis
    proof (cases "utf8_width (c # cs)")
      case None
      with plain ctl "3.prems" obtain t' where t: "json_string n cs = Some (t', rest)"
        "t = replacement_char @ t'" by (auto simp: prepend_Some simp del: utf8_width.simps)
      have "utf8_ok t'" by (rule "3.IH"(3) [OF _ _ ctl None t(1)]) (use plain in auto)
      then show ?thesis unfolding t(2) by (rule utf8_ok_append [OF utf8_ok_replacement])
    next
      case (Some w)
      with plain ctl "3.prems" obtain t' where t: "json_string n (drop w (c # cs)) = Some (t', rest)"
        "t = take w (c # cs) @ t'" by (auto simp: prepend_Some simp del: utf8_width.simps)
      have "utf8_ok t'" by (rule "3.IH"(4) [OF _ _ ctl Some t(1)]) (use plain in auto)
      moreover have "utf8_ok (take w (c # cs))"
        using utf8_width_take [OF Some] utf8_width_take(1) [OF Some, of "[]"]
        by (intro utf8_ok_piece) (simp add: min_absorb2)
      ultimately show ?thesis unfolding t(2) by (rule utf8_ok_append [rotated])
    qed
  qed
qed auto

section \<open>Values made of quoted strings\<close>

text \<open>
  Every string of the value came from quoting, the names of its members are ASCII; and the
  value that a reader of its text gets.
\<close>

definition ascii_name :: "string \<Rightarrow> bool" where
  "ascii_name k \<longleftrightarrow> list_all (\<lambda>c. byte c < 128) k"

fun quoted :: "json \<Rightarrow> bool" where
  "quoted (JNum s) \<longleftrightarrow> num_text s"
| "quoted (JStr raw s) \<longleftrightarrow> raw = json_escape (length s) s"
| "quoted (JArr vs) \<longleftrightarrow> list_all quoted vs"
| "quoted (JObj ms) \<longleftrightarrow> list_all (\<lambda>(k, v). ascii_name k \<and> quoted v) ms"
| "quoted _ \<longleftrightarrow> True"

fun clean :: "json \<Rightarrow> json" where
  "clean (JStr raw s) = JStr raw (sanitize (length s) s)"
| "clean (JArr vs) = JArr (map clean vs)"
| "clean (JObj ms) = JObj (map (\<lambda>(k, v). (k, clean v)) ms)"
| "clean v = v"

lemma clean_printable: "quoted v \<Longrightarrow> printable (clean v)"
proof (induction v rule: clean.induct)
  case (1 raw s)
  then show ?case by (simp add: quote_reads_as)
next
  case (2 vs)
  then show ?case by (auto simp: list_all_iff)
next
  case (3 ms)
  have "reads_as (key_text k) k" if "ascii_name k" for k
    using quote_reads_as [of k] sanitize_ascii [of k "length k"] that
    by (simp add: key_text_def ascii_name_def)
  with 3 show ?case by (fastforce simp: list_all_iff)
qed auto

lemma clean_height: "json_height (clean v) = json_height v"
proof (induction v rule: clean.induct)
  case (2 vs)
  then have "foldr (\<lambda>v h. max (json_height (clean v)) h) vs 0 = foldr (\<lambda>v h. max (json_height v) h) vs 0"
    by (intro foldr_cong) auto
  then show ?case by (simp add: foldr_map o_def)
next
  case (3 ms)
  then have "foldr (\<lambda>(k, v) h. max (json_height (clean v)) h) ms 0 =
      foldr (\<lambda>(k, v) h. max (json_height v) h) ms 0"
    by (intro foldr_cong) auto
  then show ?case by (simp add: foldr_map o_def case_prod_unfold)
qed auto

lemma clean_print:
  "json_print nl sp k (clean v) = json_print nl sp k v"
  "print_elems nl sp k (map clean vs) = print_elems nl sp k vs"
  "print_members nl sp k (map (\<lambda>(k, v). (k, clean v)) ms) = print_members nl sp k ms"
  by (induction nl sp k v and nl sp k vs and nl sp k ms
      rule: json_print_print_elems_print_members.induct) auto

lemma json_unmarshal_quoted:
  assumes "quoted v" "json_height v \<le> max_nesting"
  shows "json_unmarshal (compact v) = Some (clean v)"
proof -
  have "compact v = compact (clean v)" by (simp add: compact_def clean_print)
  then show ?thesis
    using json_unmarshal_compact [OF clean_printable [OF assms(1)]] assms(2)
    by (simp add: clean_height)
qed

lemma quoted_quote [simp]: "quoted (json_quote s)"
  by (simp add: json_quote_def)

lemma clean_quote: "clean (json_quote s) = JStr (json_escape (length s) s) (sanitize (length s) s)"
  by (simp add: json_quote_def)

end
