(* ===== verification/Classifier_Facts.thy ===== *)
theory Classifier_Facts
  imports Classifier
begin

text \<open>
  Facts about the classifier: rounding to \<open>float64\<close> cannot push a duration beyond the
  longest window, every reset signal lies within that window, and the probes of
  \<open>withReset\<close> only ever move the deadline to a later valid signal.
\<close>

section \<open>Rounding within a bound\<close>

lemma pow2_pos [simp]: "0 < pow2 e"
  by (simp add: pow2_def)

lemma pow2_nonzero [simp]: "pow2 e \<noteq> 0"
  using pow2_pos [of e] by linarith

lemma pow2_powi: "pow2 e = 2 powi e"
  by (simp add: pow2_def power_int_def power_one_over inverse_eq_divide)

lemma pow2_diff: "pow2 (a - b) = pow2 a / pow2 b"
  by (simp add: pow2_powi power_int_diff)

lemma pow2_le_pow2: "pow2 a \<le> pow2 b \<longleftrightarrow> a \<le> b"
  using power_int_increasing [of a b "2::rat"] power_int_strict_increasing [of b a "2::rat"]
  by (cases "a \<le> b") (auto simp: pow2_powi not_le)

lemma lead_exp_le:
  assumes "0 < r"
  shows "pow2 (lead_exp r) \<le> r"
proof -
  obtain n d where q: "quotient_of r = (n, d)" by fastforce
  then have d: "0 < d" and r: "r = of_int n / of_int d"
    by (auto dest: quotient_of_denom_pos quotient_of_div)
  with assms have n: "0 < n" by (simp add: zero_less_divide_iff)
  let ?a = "nat (bitlen n - 1)" and ?b = "nat (bitlen d)"
  have bn: "0 < bitlen n" "0 \<le> bitlen d" using n d bitlen_bounds [of n] by (simp_all add: bitlen_nonneg bitlen_eq_zero_iff order.strict_iff_order)
  have "2 ^ ?a \<le> n" "d < 2 ^ ?b" using bitlen_bounds [of n] bitlen_bounds [of d] n d by auto
  then have "(2::rat) ^ ?a \<le> of_int n" "(of_int d :: rat) \<le> 2 ^ ?b"
    by (metis of_int_le_iff of_int_numeral of_int_power, metis less_imp_le of_int_le_iff
        of_int_numeral of_int_power)
  then have "(2::rat) ^ ?a / 2 ^ ?b \<le> of_int n / of_int d"
    using d n by (intro frac_le) simp_all
  then have "pow2 (bitlen n - bitlen d - 1) \<le> r"
    using pow2_diff [of "bitlen n - 1" "bitlen d"] bn r by (simp add: pow2_def algebra_simps)
  then show ?thesis by (simp add: lead_exp_def q Let_def)
qed

lemma round_half_even_le:
  assumes "x \<le> of_int m"
  shows "round_half_even x \<le> m"
proof -
  have f: "\<lfloor>x\<rfloor> \<le> m" using assms by (simp add: floor_le_iff le_less_trans)
  show ?thesis
  proof (cases "\<lfloor>x\<rfloor> = m")
    case True
    with assms have "x = of_int m" by (metis floor_of_int of_int_floor_le order_antisym)
    then show ?thesis by (simp add: round_half_even_def Let_def)
  next
    case False
    with f show ?thesis by (auto simp: round_half_even_def Let_def)
  qed
qed

lemma round_half_even_ge0: "0 \<le> x \<Longrightarrow> 0 \<le> round_half_even x"
  by (auto simp: round_half_even_def Let_def)

text \<open>
  A number up to a bound \<open>b * 2 ^ 17\<close> below \<open>2 ^ 55\<close> rounds to a number up to that bound,
  because the bound is a multiple of every unit that is rounded to.
\<close>

lemma double_bounded:
  assumes "0 \<le> r" "r \<le> of_int (b * 2 ^ 17)" "b * 2 ^ 17 < 2 ^ 55"
  shows "\<exists>v. double r = Fin v \<and> 0 \<le> v \<and> v \<le> of_int (b * 2 ^ 17)"
proof (cases "r = 0")
  case True
  with assms show ?thesis by (simp add: double_def)
next
  case False
  with assms(1) have r: "0 < r" by simp
  let ?B = "of_int (b * 2 ^ 17) :: rat"
  have B55: "?B < pow2 55"
  proof -
    have "of_int (b * 2 ^ 17) < (of_int (2 ^ 55) :: rat)" using assms(3) by (simp only: of_int_less_iff)
    then show ?thesis by (simp add: pow2_def)
  qed
  have small: "lead_exp x < 55" if "0 < x" "x \<le> ?B" for x
  proof -
    have "pow2 (lead_exp x) < pow2 55" using lead_exp_le [OF that(1)] that(2) B55 by linarith
    then show ?thesis using pow2_le_pow2 [of 55 "lead_exp x"] by linarith
  qed
  define e where "e = max (lead_exp r - 52) (- 1074)"
  have e: "e \<le> 17" using small [OF r assms(2)] by (simp add: e_def)
  define m where "m = b * 2 ^ nat (17 - e)"
  have Be: "?B / pow2 e = of_int m"
  proof -
    have "?B / pow2 e = of_int b * (pow2 17 / pow2 e)" by (simp add: pow2_def)
    also have "pow2 17 / pow2 e = pow2 (17 - e)" by (rule pow2_diff [symmetric])
    also have "\<dots> = 2 ^ nat (17 - e)" using e by (simp add: pow2_def)
    finally show ?thesis by (simp add: m_def)
  qed
  let ?v = "of_int (round_half_even (r / pow2 e)) * pow2 e"
  have "r / pow2 e \<le> of_int m" using assms(2) unfolding Be [symmetric]
    by (intro divide_right_mono) (simp_all add: less_imp_le)
  then have "(of_int (round_half_even (r / pow2 e)) :: rat) \<le> of_int m"
    by (simp only: of_int_le_iff) (rule round_half_even_le)
  then have "?v \<le> of_int m * pow2 e" by (intro mult_right_mono) (simp_all add: less_imp_le)
  moreover have "of_int m * pow2 e = ?B" using pow2_pos [of e] unfolding Be [symmetric] by simp
  ultimately have v: "?v \<le> ?B" by simp
  have "0 \<le> round_half_even (r / pow2 e)"
    using r by (intro round_half_even_ge0) (simp add: less_imp_le)
  then have v0: "0 \<le> ?v" by (simp add: less_imp_le)
  have "\<not> (?v \<noteq> 0 \<and> 1024 \<le> lead_exp ?v)" using small [of ?v] v v0 by force
  then have "double r = Fin ?v"
    using r by (simp add: double_def Let_def e_def [symmetric])
  with v v0 show ?thesis by blast
qed

section \<open>Reset signals lie within the longest window\<close>

lemma seconds_duration_bounded:
  assumes "0 < n" "n \<le> 366 * 86400"
  shows "0 \<le> seconds_duration n \<and> seconds_duration n \<le> max_window"
proof -
  have B: "(241260000000 :: int) * 2 ^ 17 = 31622430720000000" by simp
  have m: "(366 * 86400 * 1000000000 :: rat) = of_int (241259765625 * 2 ^ 17)" by simp
  have "n * 1000000000 \<le> of_int (241259765625 * 2 ^ 17)"
    unfolding m [symmetric] using assms(2) by simp
  moreover have "(241259765625 :: int) * 2 ^ 17 < 2 ^ 55" by simp
  ultimately obtain v where v: "double (n * 1000000000) = Fin v" "0 \<le> v"
    "v \<le> of_int (241259765625 * 2 ^ 17)"
    using double_bounded [of "n * 1000000000" 241259765625] assms(1) by auto
  have "\<lfloor>v\<rfloor> \<le> max_window" using v(3) by (simp add: max_window_value floor_le_iff)
  with v(1,2) show ?thesis by (simp add: seconds_duration_def trunc_rat_def)
qed

definition in_window :: "time \<Rightarrow> time \<Rightarrow> bool" where
  "in_window now t \<longleftrightarrow> now \<le> t \<and> t \<le> now + max_window"

lemma relativeReset_window: "relativeReset v now = Some t \<Longrightarrow> in_window now t"
  using seconds_duration_bounded
  by (fastforce simp: relativeReset_def in_window_def not_le
      split: option.splits float64.splits if_splits any_val.splits)

lemma absoluteReset_window: "absoluteReset G v now = Some t \<Longrightarrow> in_window now t"
  by (auto simp: absoluteReset_def in_window_def Let_def split: if_splits)

lemma messageReset_window: "messageReset G s now = Some t \<Longrightarrow> in_window now t"
  by (auto simp: messageReset_def dest: relativeReset_window split: option.splits)

section \<open>The probes of withReset\<close>

definition reset_sources :: "string list" where
  "reset_sources =
     [''retry_after_header'', ''body_duration'', ''body_timestamp'', ''body_message'']"

text \<open>One or more probes: the class stays, the deadline only moves to later valid signals.\<close>

definition later_reset :: "time \<Rightarrow> classification \<Rightarrow> classification \<Rightarrow> bool" where
  "later_reset now c c' \<longleftrightarrow>
     Kind c' = Kind c \<and> Reason c' = Reason c \<and> Window c' = Window c
     \<and> FallbackReason c' = FallbackReason c
     \<and> (Until c' = Until c \<and> ResetSource c' = ResetSource c
        \<or> Until c < Until c' \<and> in_window now (Until c') \<and> ResetSource c' \<in> set reset_sources)"

lemma later_reset_refl [simp]: "later_reset now c c"
  by (simp add: later_reset_def)

lemma later_reset_trans [trans]: "later_reset now a b \<Longrightarrow> later_reset now b c \<Longrightarrow> later_reset now a c"
  by (auto simp: later_reset_def)

lemma later_reset_Kind: "later_reset now c c' \<Longrightarrow> Kind c' = Kind c"
  by (simp add: later_reset_def)

lemma later_reset_mono: "later_reset now c c' \<Longrightarrow> Until c \<le> Until c'"
  by (auto simp: later_reset_def)

lemma later_reset_fold:
  assumes "\<And>x acc. x \<in> set xs \<Longrightarrow> later_reset now (fst acc) (fst (f x acc))"
  shows "later_reset now (fst acc) (fst (fold f xs acc))"
  using assms
proof (induction xs arbitrary: acc)
  case (Cons x xs)
  have "later_reset now (fst acc) (fst (f x acc))" by (rule Cons.prems) simp
  also have "later_reset now (fst (f x acc)) (fst (fold f xs (f x acc)))"
    by (rule Cons.IH) (use Cons.prems in auto)
  finally show ?case by simp
qed simp

lemma add_reset_later:
  "src \<in> set reset_sources \<Longrightarrow> (\<And>u. t = Some u \<Longrightarrow> in_window now u) \<Longrightarrow>
   later_reset now c (add_reset t src c)"
  by (auto simp: add_reset_def later_reset_def split: option.split)

lemma add_reset_reaches: "t \<le> Until (add_reset (Some t) src c)"
  by (simp add: add_reset_def)

lemma probe_key_later:
  "src \<in> set reset_sources \<Longrightarrow> (\<And>v u. reset v = Some u \<Longrightarrow> in_window now u) \<Longrightarrow>
   later_reset now (fst acc) (fst (probe_key reset src m k acc))"
  by (auto simp: probe_key_def split: option.split intro: add_reset_later)

lemma sources [simp]:
  "''retry_after_header'' \<in> set reset_sources" "''body_duration'' \<in> set reset_sources"
  "''body_timestamp'' \<in> set reset_sources" "''body_message'' \<in> set reset_sources"
  by (simp_all add: reset_sources_def)

lemma probe_scope_later: "later_reset now (fst acc) (fst (probe_scope G now m acc))"
proof -
  let ?d = "fold (probe_key (\<lambda>v. relativeReset v now) ''body_duration'' m) duration_keys acc"
  let ?t = "fold (probe_key (\<lambda>v. absoluteReset G v now) ''body_timestamp'' m) timestamp_keys ?d"
  have "later_reset now (fst acc) (fst ?d)"
    by (rule later_reset_fold, rule probe_key_later) (simp_all add: relativeReset_window)
  also have "later_reset now (fst ?d) (fst ?t)"
    by (rule later_reset_fold, rule probe_key_later) (simp_all add: absoluteReset_window)
  also have "later_reset now (fst ?t) (fst (probe_scope G now m acc))"
    by (auto simp: probe_scope_def Let_def intro: add_reset_later messageReset_window)
  finally show ?thesis .
qed

lemma probe_header_later: "later_reset now c (fst (probe_header G h now c))"
  by (auto simp: probe_header_def Let_def intro!: add_reset_later
      dest: relativeReset_window absoluteReset_window split: option.splits)

lemma probes_later:
  "later_reset now c (fst (fold (probe_scope G now) scopes (probe_header G h now c)))"
  by (rule later_reset_trans [OF probe_header_later later_reset_fold]) (rule probe_scope_later)

text \<open>The result of \<open>withReset\<close>: a valid signal, the fallback, or no deadline at all.\<close>

lemma withReset_cases:
  assumes "Until c = 0" "ResetSource c = []" "FallbackReason c = []"
  obtains
    (signal) "in_window now (Until (withReset G c h doc now fb))"
      "ResetSource (withReset G c h doc now fb) \<in> set reset_sources"
      "FallbackReason (withReset G c h doc now fb) = []"
  | (fallback) "0 < fb" "Until (withReset G c h doc now fb) = now + fb"
      "ResetSource (withReset G c h doc now fb) = ''fallback''"
      "FallbackReason (withReset G c h doc now fb) \<in> {''invalid_or_expired_reset'', ''no_reset_provided''}"
  | (none) "fb \<le> 0" "withReset G c h doc now fb = c"
proof -
  let ?acc = "fold (probe_scope G now) (reset_scopes doc) (probe_header G h now c)"
  have p: "later_reset now c (fst ?acc)" by (rule probes_later)
  show thesis
  proof (cases "Until (fst ?acc) = 0")
    case True
    with p assms(1) have same: "fst ?acc = c"
      by (auto simp: later_reset_def assms intro!: classification.equality)
    show thesis
    proof (cases "0 < fb")
      case fb: True
      show thesis
        by (rule fallback) (use fb same assms in \<open>simp_all add: withReset_def apply_fallback_def Let_def\<close>)
    next
      case fb: False
      show thesis
        by (rule none) (use fb same assms in \<open>simp_all add: withReset_def apply_fallback_def Let_def\<close>)
    qed
  next
    case False
    then have "withReset G c h doc now fb = fst ?acc"
      by (simp add: withReset_def apply_fallback_def Let_def)
    with p False assms show thesis by (intro signal) (auto simp: later_reset_def)
  qed
qed

lemma withReset_class [simp]:
  "Kind (withReset G c h doc now fb) = Kind c" "Reason (withReset G c h doc now fb) = Reason c"
  "Window (withReset G c h doc now fb) = Window c"
  using probes_later [of now c G "reset_scopes doc" h]
  by (simp_all add: withReset_def apply_fallback_def later_reset_def Let_def)

lemma mk_class_simps [simp]:
  "Kind (mk_class k r w) = k" "Reason (mk_class k r w) = r" "Window (mk_class k r w) = w"
  "Until (mk_class k r w) = 0" "ResetSource (mk_class k r w) = []"
  "FallbackReason (mk_class k r w) = []"
  by (simp_all add: mk_class_def)

section \<open>The cases of classify\<close>

definition quota_reasons :: "string list" where
  "quota_reasons = [''credits_exhausted'', ''workspace_monthly_limit'', ''user_monthly_limit'',
     ''free_usage_limit'', ''black_usage_limit'', ''explicit_quota_limit'']"

definition quota_windows :: "string list" where
  "quota_windows = [''credit_balance'', ''monthly'', ''free_usage'', ''usage'']"

lemma declared_quota_SomeD:
  "declared_quota typ = Some c \<Longrightarrow> \<exists>r\<in>set quota_reasons. \<exists>w\<in>set quota_windows. c = mk_class ''quota'' r w"
  by (auto simp: declared_quota_def quota_reasons_def quota_windows_def split: if_splits)

text \<open>A body without a document has no type, code or message.\<close>

lemma body_fields_Nil [simp]:
  "body_type G [] = []" "body_code G [] = []" "body_message G [] = []"
  by (simp_all add: body_type_def body_code_def body_message_def normalized_def ToLower_def
      ascii_def TrimSpace_def TrimLeftSpace_def TrimRightSpace_def)

lemma explicit_quota_code: "quotaCode [] = False" "explicit_quota [] = False"
  by (simp_all add: quotaCode_def explicit_quota_def)

lemma explicit_quota_doc:
  "quotaCode (body_code G doc) \<or> quotaCode (body_type G doc) \<or> explicit_quota (body_message G doc)
   \<Longrightarrow> doc \<noteq> []"
  by (auto simp: explicit_quota_code)

lemma declared_quota_doc: "declared_quota (body_type G doc) = Some c \<Longrightarrow> doc \<noteq> []"
  by (auto simp: declared_quota_def)

text \<open>The branches of \<open>classify\<close>, one rewrite rule each.\<close>

definition go_limit :: "golib \<Rightarrow> json_object \<Rightarrow> bool" where
  "go_limit G doc \<longleftrightarrow> body_type G doc = ''gousagelimiterror'' \<or> body_code G doc = ''gousagelimiterror''"

lemma classify_success:
  "200 \<le> status \<Longrightarrow> status < 300 \<Longrightarrow> classify G status h body t fb = mk_class ''success'' ''success'' []"
  by (simp add: classify_def)

lemma classify_go:
  "\<not> (200 \<le> status \<and> status < 300) \<Longrightarrow> go_limit G (body_doc body) \<Longrightarrow>
   classify G status h body t fb = mk_class ''failure'' ''unsupported_go_response'' []"
  by (simp add: classify_def go_limit_def Let_def)

lemma classify_declared:
  "\<not> (200 \<le> status \<and> status < 300) \<Longrightarrow> \<not> go_limit G (body_doc body) \<Longrightarrow>
   status \<in> {401, 402, 429} \<Longrightarrow> declared_quota (body_type G (body_doc body)) = Some c \<Longrightarrow>
   classify G status h body t fb = withReset G c h (body_doc body) t fb"
  by (auto simp: classify_def go_limit_def Let_def)

lemma classify_429:
  "\<not> go_limit G (body_doc body) \<Longrightarrow> declared_quota (body_type G (body_doc body)) = None \<Longrightarrow>
   classify G 429 h body t fb =
     (if List.member rate_limit_codes (body_type G (body_doc body))
         \<or> List.member rate_limit_codes (body_code G (body_doc body))
      then withReset G (mk_class ''rate_limit'' ''transient_rate_limit'' []) h (body_doc body) t 0
      else if quotaCode (body_code G (body_doc body)) \<or> quotaCode (body_type G (body_doc body))
        \<or> explicit_quota (body_message G (body_doc body))
      then withReset G (mk_class ''quota'' ''explicit_quota_limit'' ''usage'') h (body_doc body) t fb
      else withReset G (mk_class ''rate_limit'' ''unclassified_429'' []) h (body_doc body) t 0)"
  by (simp add: classify_def go_limit_def Let_def)

lemma classify_status:
  "\<not> (200 \<le> status \<and> status < 300) \<Longrightarrow> \<not> go_limit G (body_doc body) \<Longrightarrow> status \<noteq> 429 \<Longrightarrow>
   (status \<in> {401, 402} \<Longrightarrow> declared_quota (body_type G (body_doc body)) = None) \<Longrightarrow>
   classify G status h body t fb = status_class status"
  by (auto simp: classify_def go_limit_def Let_def)

lemma classify_cases:
  obtains
    (success) "200 \<le> status" "status < 300"
      "classify G status h body t fb = mk_class ''success'' ''success'' []"
  | (go) "\<not> (200 \<le> status \<and> status < 300)"
      "classify G status h body t fb = mk_class ''failure'' ''unsupported_go_response'' []"
  | (quota) r w where "status \<in> {401, 402, 429}" "body_doc body \<noteq> []"
      "r \<in> set quota_reasons" "w \<in> set quota_windows"
      "classify G status h body t fb =
         withReset G (mk_class ''quota'' r w) h (body_doc body) t fb"
  | (rate) r where "status = 429" "r \<in> {''transient_rate_limit'', ''unclassified_429''}"
      "classify G status h body t fb =
         withReset G (mk_class ''rate_limit'' r []) h (body_doc body) t 0"
  | (status) "\<not> (200 \<le> status \<and> status < 300)" "status \<noteq> 429"
      "classify G status h body t fb = status_class status"
proof (cases "200 \<le> status \<and> status < 300")
  case True
  then show thesis by (intro success) (simp_all add: classify_success)
next
  case n2: False
  let ?doc = "body_doc body"
  show thesis
  proof (cases "go_limit G ?doc")
    case True
    show thesis by (rule go [OF n2 classify_go [OF n2 True]])
  next
    case ng: False
    show thesis
    proof (cases "status \<in> {401, 402, 429} \<and> declared_quota (body_type G ?doc) \<noteq> None")
      case True
      then obtain c where c: "status \<in> {401, 402, 429}" "declared_quota (body_type G ?doc) = Some c"
        by blast
      from declared_quota_SomeD [OF c(2)] obtain r w where
        rw: "r \<in> set quota_reasons" "w \<in> set quota_windows" "c = mk_class ''quota'' r w" by blast
      show thesis
        by (rule quota [OF c(1) declared_quota_doc [OF c(2)] rw(1,2)])
          (simp only: classify_declared [OF n2 ng c] rw(3))
    next
      case nd: False
      show thesis
      proof (cases "status = 429")
        case s: True
        with nd have "declared_quota (body_type G ?doc) = None" by simp
        note eq = classify_429 [OF ng this, of h t fb]
        consider "classify G 429 h body t fb =
              withReset G (mk_class ''rate_limit'' ''transient_rate_limit'' []) h ?doc t 0"
          | "?doc \<noteq> []" "classify G 429 h body t fb =
              withReset G (mk_class ''quota'' ''explicit_quota_limit'' ''usage'') h ?doc t fb"
          | "classify G 429 h body t fb =
              withReset G (mk_class ''rate_limit'' ''unclassified_429'' []) h ?doc t 0"
          unfolding eq using explicit_quota_doc [of G ?doc] by presburger
        then show thesis
        proof cases
          case 1
          with s show thesis by (intro rate [of "''transient_rate_limit''"]) simp_all
        next
          case 2
          with s show thesis
            by (intro quota [of "''explicit_quota_limit''" "''usage''"])
              (simp_all add: quota_reasons_def quota_windows_def)
        next
          case 3
          with s show thesis by (intro rate [of "''unclassified_429''"]) simp_all
        qed
      next
        case False
        show thesis
          by (rule status [OF n2 False classify_status [OF n2 ng False]]) (use nd in blast)
      qed
    qed
  qed
qed

section \<open>The words of a classification\<close>

text \<open>Every string of a classification is one of these.\<close>

definition class_words :: "string list" where
  "class_words =
     [[], ''success'', ''failure'', ''quota'', ''rate_limit'', ''auth'', ''transient'',
      ''unsupported_go_response'', ''transient_rate_limit'', ''unclassified_429'',
      ''authentication_failure'', ''authorization_failure'', ''upstream_5xx'',
      ''transport_failure'', ''upstream_failure'', ''fallback'', ''invalid_or_expired_reset'',
      ''no_reset_provided''] @ quota_reasons @ quota_windows @ reset_sources"

definition class_strings :: "classification \<Rightarrow> string list" where
  "class_strings c = [Kind c, Reason c, Window c, ResetSource c, FallbackReason c]"

lemma withReset_words:
  assumes "Until c = 0" "ResetSource c = []" "FallbackReason c = []"
    and "Kind c \<in> set class_words" "Reason c \<in> set class_words" "Window c \<in> set class_words"
  shows "set (class_strings (withReset G c h doc now fb)) \<subseteq> set class_words"
  by (rule withReset_cases [OF assms(1-3), where G = G and h = h and doc = doc and now = now and fb = fb])
    (use assms in \<open>auto simp: class_strings_def\<close>; simp add: class_words_def)+

lemma quota_words:
  "r \<in> set quota_reasons \<Longrightarrow> r \<in> set class_words" "w \<in> set quota_windows \<Longrightarrow> w \<in> set class_words"
  by (simp_all add: class_words_def)

lemma classify_words:
  "set (class_strings (classify G status h body t fb)) \<subseteq> set class_words"
proof (cases rule: classify_cases [of status G h body t fb])
  case (quota r w)
  show ?thesis unfolding quota(5)
    by (rule withReset_words) (simp_all add: quota_words quota(3,4), simp add: class_words_def)
next
  case (rate r)
  then have "r \<in> set class_words" by (auto simp: class_words_def)
  then show ?thesis unfolding rate(3)
    by (intro withReset_words) (simp_all, simp_all add: class_words_def)
next
  case status
  then show ?thesis by (simp add: class_strings_def status_class_def) (simp add: class_words_def)
qed (simp_all add: class_strings_def class_words_def)

end
