(* ===== verification/Zen_Codec.thy ===== *)
theory Zen_Codec
  imports Zen_Store Go_Json_Escape Classifier_Facts
begin

text \<open>
  What is written is read back: the state of the pool as JSON, in both forms, through the
  printer and the readers, given a codec for single instants that does so for those. The
  codec's laws are the locale \<open>time_codec\<close>.
\<close>

section \<open>Field names\<close>

text \<open>The names of the structs are lower case, so a name that was written matches exactly.\<close>

definition lower_name :: "string \<Rightarrow> bool" where
  "lower_name n \<longleftrightarrow> list_all (\<lambda>c. is_lower c \<or> c = CHR ''_'') n"

lemma lower_char_name: "is_lower c \<or> c = CHR ''_'' \<Longrightarrow> lower_char c = c"
  by (auto simp: is_lower_def lower_char_def is_upper_def)

lemma lower_name_fold: "lower_name n \<Longrightarrow> fold_ascii n = n \<and> map lower_char n = n"
proof (induction n)
  case (Cons c n)
  then have c: "is_lower c \<or> c = CHR ''_''" and n: "lower_name n" by (auto simp: lower_name_def)
  from c have "c \<noteq> CHR 0xC5" "c \<noteq> CHR 0xE2" by (auto simp: is_lower_def)
  with Cons.IH [OF n] lower_char_name [OF c] show ?case by simp
qed simp

lemma is_field_exact: "lower_name n \<Longrightarrow> lower_name k \<Longrightarrow> is_field n k \<longleftrightarrow> k = n"
  by (simp add: is_field_def EqualFoldAscii_def lower_name_fold)

lemma lower_names [simp]:
  "lower_name ''kind''" "lower_name ''reason''" "lower_name ''window''" "lower_name ''until''"
  "lower_name ''reset_source''" "lower_name ''fallback_reason''" "lower_name ''cooldown_until''"
  "lower_name ''suspended_until''" "lower_name ''rate_limited_until''"
  "lower_name ''transient_until''" "lower_name ''ignore_results_before''"
  "lower_name ''last_failure''" "lower_name ''last_failure_at''" "lower_name ''last_success_at''"
  "lower_name ''last_action''" "lower_name ''success''" "lower_name ''failed''"
  "lower_name ''version''" "lower_name ''current''" "lower_name ''cursor''" "lower_name ''keys''"
  by code_simp+

section \<open>Numbers\<close>

lemma dec_val_snoc: "dec_val (ds @ [c]) = dec_val ds * 10 + digit_val c"
  by (simp add: dec_val_def)

lemma dec_val_show: "0 \<le> n \<Longrightarrow> dec_val (show_uint n) = n"
proof (induction n rule: show_uint.induct)
  case (1 n)
  show ?case
  proof (cases "n < 10")
    case True
    with 1 digit_char_props [of n] show ?thesis
      by (subst show_uint.simps) (simp add: dec_val_def)
  next
    case False
    then have "dec_val (show_uint (n div 10)) = n div 10" using 1 by simp
    with False 1 digit_char_props [of "n mod 10"] show ?thesis
      by (subst show_uint.simps) (simp add: dec_val_snoc)
  qed
qed

lemma parse_show_uint: "0 \<le> n \<Longrightarrow> parse_uint (show_uint n) = Some n"
  using show_uint_digits [of n] by (simp add: parse_uint_def dec_val_show)

lemma parse_show_int: "0 \<le> n \<Longrightarrow> parse_int (show_int n) = Some n"
proof -
  assume n: "0 \<le> n"
  then obtain c r where t: "show_uint n = c # r" and c: "is_digit c"
    using show_uint_digits [of n] by (cases "show_uint n") auto
  from c have "strip_sign (c # r) = (False, c # r)"
    by (auto simp: strip_sign_def is_digit_def)
  with n t parse_show_uint [OF n] show ?thesis by (simp add: parse_int_def show_int_def)
qed

lemma read_uint64_show [simp]:
  "read_uint64 old (JNum (show_uint (uint w))) = Some (w :: 64 word)"
proof -
  have "uint w < 2 ^ 64" using unsigned_less [of w] by simp
  then show ?thesis by (simp add: parse_show_uint)
qed

section \<open>Members\<close>

lemma read_members_append:
  "read_members f x (ms @ ns) =
     (case read_members f x ms of None \<Rightarrow> None | Some y \<Rightarrow> read_members f y ns)"
  by (induction f x ms rule: read_members.induct) (auto split: option.split)

lemma read_members_opt [simp]:
  "read_members f x (opt_member n s @ ms) =
     (if s = [] then read_members f x ms
      else case f x n (json_quote s) of None \<Rightarrow> None | Some y \<Rightarrow> read_members f y ms)"
  by (simp add: opt_member_def)

lemma read_members_opt_last [simp]:
  "read_members f x (opt_member n s) =
     (if s = [] then Some x
      else case f x n (json_quote s) of None \<Rightarrow> None | Some y \<Rightarrow> Some y)"
  using read_members_opt [of f x n s "[]"]
  by (simp del: read_members_opt cong: option.case_cong)

lemma read_string_quote [simp]: "read_string old (json_quote s) = Some s"
  by (simp add: json_quote_def)

text \<open>A map that is written key by key and read back entry by entry.\<close>

lemma read_members_map:
  assumes "\<And>m i. i \<in> set is \<Longrightarrow> f m i (g i) = Some (fmupd i (h i) m)"
  shows "read_members f m (map (\<lambda>i. (i, g i)) is) = Some (fold (\<lambda>i. fmupd i (h i)) is m)"
  using assms by (induction "is" arbitrary: m) auto

lemma fold_fmupd_lookup:
  "fmlookup (fold (\<lambda>i. fmupd i (h i)) is m) k = (if k \<in> set is then Some (h k) else fmlookup m k)"
  by (induction "is" arbitrary: m) auto

section \<open>States that can be written\<close>

text \<open>
  The states the pool keeps: the schema version, IDs that are fingerprints, and texts that
  are valid UTF-8. \<open>few_keys\<close> is the limit that \<open>decodeState\<close> puts on the number of keys and
  that no writer checks.
\<close>

definition key_texts :: "keyState \<Rightarrow> string list" where
  "key_texts k = [Kind (LastFailure k), Reason (LastFailure k), Window (LastFailure k),
     ResetSource (LastFailure k), FallbackReason (LastFailure k), LastAction k]"

definition sound_keys :: "(string, keyState) fmap \<Rightarrow> bool" where
  "sound_keys m \<longleftrightarrow> fmpred (\<lambda>i k. hashID i \<and> list_all utf8_ok (key_texts k)) m"

definition sound_state :: "persistedState \<Rightarrow> bool" where
  "sound_state s \<longleftrightarrow> Version s = 1 \<and> list_all (\<lambda>i. i = [] \<or> hashID i) [Current s, Cursor s]
     \<and> sound_keys (Keys s)"

definition few_keys :: "persistedState \<Rightarrow> bool" where
  "few_keys s \<longleftrightarrow> int (fcard (fmdom (Keys s))) \<le> 10000"

lemma sound_keysD: "sound_keys m \<Longrightarrow> fmlookup m i = Some k \<Longrightarrow> hashID i \<and> list_all utf8_ok (key_texts k)"
  by (auto simp: sound_keys_def fmpred_iff)

lemma hashID_plain: "hashID i \<Longrightarrow> plain i"
  by (auto simp: hashID_def plain_def list_all_iff hex_lower_def is_digit_def plain_char_def byte_def)

lemma hashID_not_Nil: "hashID i \<Longrightarrow> i \<noteq> []"
  by (auto simp: hashID_def)

lemma key_text_plain: "plain n \<Longrightarrow> reads_as (key_text n) n"
  by (simp add: key_text_def json_escape_plain plain_reads_as)

lemma printable_quote: "utf8_ok s \<Longrightarrow> printable (json_quote s)"
  by (simp add: json_quote_def utf8_reads_as)

lemma height_quote [simp]: "json_height (json_quote s) = 0"
  by (simp add: json_quote_def)

lemma lower_name_plain: "lower_name n \<Longrightarrow> plain n"
  by (auto simp: lower_name_def plain_def list_all_iff is_lower_def plain_char_def byte_def)

lemma key_text_name: "lower_name n \<Longrightarrow> reads_as (key_text n) n"
  by (rule key_text_plain) (rule lower_name_plain)

lemma height_time [simp]: "json_height (time_json T t) = 0"
  by (simp add: time_json_def split: option.split)

lemma height_class: "json_height (class_json T c) = 1"
  by (simp add: class_json_def opt_member_def)

lemma height_key: "json_height (key_json T k) = 2"
  by (simp add: key_json_def opt_member_def height_class)

lemma foldr_max_bound:
  "(\<And>x. x \<in> set xs \<Longrightarrow> f x \<le> n) \<Longrightarrow> 0 \<le> (n::int) \<Longrightarrow> foldr (\<lambda>x h. max (f x) h) xs 0 \<le> n"
  by (induction xs) auto

lemma height_keys: "json_height (keys_json T m) \<le> 3"
proof -
  let ?f = "\<lambda>i. json_height (key_json T (the (fmlookup m i)))"
  have "foldr (\<lambda>i h. max (?f i) h) (sorted_list_of_fset (fmdom m)) 0 \<le> 2"
    by (rule foldr_max_bound) (auto simp: height_key)
  then show ?thesis by (simp add: keys_json_def foldr_map o_def)
qed

lemma height_state: "json_height (state_json T s) \<le> max_nesting"
  using height_keys [of T "Keys s"]
  by (simp add: state_json_def opt_member_def max_nesting_def)

section \<open>The codec of instants\<close>

locale time_codec =
  fixes T :: timelib
  assumes unmarshal: "time_Marshal T t = Some raw \<Longrightarrow> time_Unmarshal T raw = Some t"
    and plain_raw: "time_Marshal T t = Some raw \<Longrightarrow> plain raw"
begin

lemma read_time_json [simp]:
  "time_Marshal T t \<noteq> None \<Longrightarrow> read_time T old (time_json T t) = Some t"
  by (auto simp: time_json_def unmarshal)

lemma class_round_trip:
  assumes "time_Marshal T (Until c) \<noteq> None"
  shows "read_struct (class_field T) zero_class (class_json T c) = Some c"
  using assms
  by (simp add: class_json_def class_field_def is_field_exact zero_class_def mk_class_def)

lemma key_round_trip:
  assumes "list_all (\<lambda>t. time_Marshal T t \<noteq> None) (key_times k)"
  shows "read_struct (key_field T) zero_key (key_json T k) = Some k"
  using assms class_round_trip [of "LastFailure k"]
  by (simp add: key_json_def key_field_def is_field_exact zero_key_def key_times_def
      del: read_uint64.simps)

lemma keys_round_trip:
  assumes "times_ok T s"
  shows "read_keys T (Some fmempty) (keys_json T (Keys s)) = Some (Some (fmmap Some (Keys s)))"
proof -
  let ?is = "sorted_list_of_fset (fmdom (Keys s))"
  have "read_members (read_key_entry T) fmempty
      (map (\<lambda>i. (i, key_json T (the (fmlookup (Keys s) i)))) ?is) =
      Some (fold (\<lambda>i. fmupd i (Some (the (fmlookup (Keys s) i)))) ?is fmempty)"
  proof (rule read_members_map)
    fix m i assume "i \<in> set ?is"
    then obtain k where k: "fmlookup (Keys s) i = Some k" by (auto simp: fmlookup_dom_iff)
    with assms have "list_all (\<lambda>t. time_Marshal T t \<noteq> None) (key_times k)"
      by (auto simp: times_ok_def)
    moreover have "key_json T k \<noteq> JNull" by (simp add: key_json_def)
    ultimately show "read_key_entry T m i (key_json T (the (fmlookup (Keys s) i))) =
        Some (fmupd i (Some (the (fmlookup (Keys s) i))) m)"
      using key_round_trip [of k] by (simp add: read_key_entry_def k)
  qed
  moreover have "fold (\<lambda>i. fmupd i (Some (the (fmlookup (Keys s) i)))) ?is fmempty = fmmap Some (Keys s)"
  proof (rule fmap_ext)
    fix i
    have "i \<in> set ?is \<longleftrightarrow> fmlookup (Keys s) i \<noteq> None" by (auto simp: fmlookup_dom_iff)
    then show "fmlookup (fold (\<lambda>i. fmupd i (Some (the (fmlookup (Keys s) i)))) ?is fmempty) i =
        fmlookup (fmmap Some (Keys s)) i"
      unfolding fold_fmupd_lookup by (cases "fmlookup (Keys s) i") simp_all
  qed
  ultimately show ?thesis by (simp add: keys_json_def)
qed

lemma check_round_trip:
  assumes "sound_state s"
  shows "check_state \<lparr>rawVersion = Version s, rawCurrent = Current s, rawCursor = Cursor s,
      rawKeys = Some (fmmap Some (Keys s))\<rparr> = (if few_keys s then Some s else None)"
proof -
  have "fmmap (\<lambda>k. the k) (fmmap Some (Keys s)) = Keys s" by (rule fmap_ext) (simp add: option.map_comp o_def option.map_ident)
  moreover have "fBall (fmdom (Keys s)) hashID"
    using assms by (auto simp: sound_state_def fmlookup_dom_iff dest: sound_keysD)
  ultimately show ?thesis using assms
    by (auto simp: check_state_def sound_state_def few_keys_def)
qed

theorem state_round_trip:
  assumes "sound_state s" "times_ok T s"
  shows "state_of_json T (state_json T s) = (if few_keys s then Some s else None)"
proof -
  have "Version s = 1" using assms(1) by (simp add: sound_state_def)
  then have "read_struct (state_field T) raw_empty (state_json T s) =
      Some \<lparr>rawVersion = Version s, rawCurrent = Current s, rawCursor = Cursor s,
        rawKeys = Some (fmmap Some (Keys s))\<rparr>"
    using assms(2) by (simp add: state_json_def state_field_def is_field_exact raw_empty_def
        keys_round_trip parse_show_int)
  with check_round_trip [OF assms(1)] show ?thesis by (simp add: state_of_json_def)
qed

lemma printable_time [simp]: "printable (time_json T t)"
  by (auto simp: time_json_def plain_raw plain_reads_as split: option.split)

lemma printable_class:
  "list_all utf8_ok [Kind c, Reason c, Window c, ResetSource c, FallbackReason c] \<Longrightarrow>
   printable (class_json T c)"
  by (simp add: class_json_def opt_member_def printable_quote key_text_name)

lemma printable_key: "list_all utf8_ok (key_texts k) \<Longrightarrow> printable (key_json T k)"
  by (simp add: key_json_def opt_member_def printable_quote key_text_name key_texts_def
      printable_class show_uint_num_text)

lemma printable_keys:
  assumes "sound_keys m"
  shows "printable (keys_json T m)"
proof -
  have "reads_as (key_text i) i \<and> printable (key_json T (the (fmlookup m i)))"
    if "i |\<in>| fmdom m" for i
  proof -
    from that obtain k where "fmlookup m i = Some k" by (auto simp: fmlookup_dom_iff)
    with sound_keysD [OF assms this] show ?thesis
      by (simp add: printable_key key_text_plain hashID_plain)
  qed
  then show ?thesis by (simp add: keys_json_def list_all_iff)
qed

lemma printable_state:
  assumes "sound_state s"
  shows "printable (state_json T s)"
proof -
  have "Current s \<noteq> [] \<Longrightarrow> utf8_ok (Current s)" "Cursor s \<noteq> [] \<Longrightarrow> utf8_ok (Cursor s)"
    "num_text (show_int (Version s))" "printable (keys_json T (Keys s))"
    using assms show_uint_num_text [of 1]
    by (auto simp: sound_state_def hashID_plain utf8_ok_plain show_int_def printable_keys)
  then show ?thesis
    by (simp add: state_json_def opt_member_def printable_quote key_text_name)
qed

text \<open>Both written forms are read back, up to the limit on the number of keys.\<close>

lemma decode_Marshal:
  "sound_state s \<Longrightarrow> Marshal T s = Some b \<Longrightarrow> decodeState T b = (if few_keys s then Some s else None)"
  by (auto simp: Marshal_def decodeState_def json_unmarshal_compact printable_state height_state
      state_round_trip split: if_splits)

lemma decode_MarshalIndent:
  "sound_state s \<Longrightarrow> MarshalIndent T s = Some b \<Longrightarrow>
   decodeState T (b @ [CHR 0x0A]) = (if few_keys s then Some s else None)"
  by (auto simp: MarshalIndent_def decodeState_def json_unmarshal_indented printable_state
      height_state state_round_trip split: if_splits)

end

section \<open>What is decoded is sound\<close>

fun strings_ok :: "json \<Rightarrow> bool" where
  "strings_ok (JStr raw s) \<longleftrightarrow> utf8_ok s"
| "strings_ok (JArr vs) \<longleftrightarrow> list_all strings_ok vs"
| "strings_ok (JObj ms) \<longleftrightarrow> list_all (\<lambda>(k, v). strings_ok v) ms"
| "strings_ok _ \<longleftrightarrow> True"

lemma json_value_strings:
  "json_value n d s = Some (v, r) \<Longrightarrow> strings_ok v"
  "json_elems n d s = Some (vs, r) \<Longrightarrow> list_all strings_ok vs"
  "json_members n d s = Some (ms, r) \<Longrightarrow> list_all (\<lambda>(k, v). strings_ok v) ms"
proof (induction n d s and n d s and n d s arbitrary: v r and vs r and ms r
    rule: json_value_json_elems_json_members.induct)
  case (2 n depth s0)
  show ?case
  proof (cases "skip_space s0")
    case Nil
    with "2.prems" show ?thesis by simp
  next
    case (Cons c cs)
    show ?thesis
    proof (cases v)
      case (JStr raw t)
      with "2.prems" Cons have "\<exists>n s. json_string n s = Some (t, r)"
        by (simp add: Let_def split: if_split_asm list.split_asm option.split_asm)
          (auto)
      with JStr show ?thesis by (auto dest: json_string_utf8)
    next
      case (JArr vs)
      with "2.prems" Cons have c: "c = CHR ''[''" "\<not> max_nesting \<le> depth"
        by (simp_all add: Let_def split: if_split_asm list.split_asm option.split_asm)
      with "2.prems" Cons JArr obtain e es where es: "skip_space cs = e # es"
        by (cases "skip_space cs") simp_all
      show ?thesis
      proof (cases "e = CHR '']''")
        case True
        with "2.prems" Cons JArr c es show ?thesis by simp
      next
        case False
        with "2.prems" Cons JArr c es have "json_elems n (depth + 1) cs = Some (vs, r)" by auto
        with "2.IH"(2) [OF refl Cons _ c es False] c JArr
        show ?thesis by simp
      qed
    next
      case (JObj ms)
      with "2.prems" Cons have c: "c = CHR ''{''" "\<not> max_nesting \<le> depth"
        by (simp_all add: Let_def split: if_split_asm list.split_asm option.split_asm)
      with "2.prems" Cons JObj obtain e es where es: "skip_space cs = e # es"
        by (cases "skip_space cs") simp_all
      show ?thesis
      proof (cases "e = CHR ''}''")
        case True
        with "2.prems" Cons JObj c es show ?thesis by simp
      next
        case False
        with "2.prems" Cons JObj c es have "json_members n (depth + 1) cs = Some (ms, r)" by auto
        with "2.IH"(1) [OF refl Cons c es False] JObj
        show ?thesis by simp
      qed
    qed simp_all
  qed
next
  case (4 n depth s)
  from "4.prems" obtain v r1 c cs where v: "json_value n depth s = Some (v, r1)"
    "skip_space r1 = c # cs"
    by (auto split: option.split_asm list.split_asm)
  have sv: "strings_ok v" by (rule "4.IH"(1) [OF v(1)])
  show ?case
  proof (cases "c = CHR '',''")
    case True
    with "4.prems" v obtain vs' where "vs = v # vs'" "json_elems n depth cs = Some (vs', r)" by auto
    with "4.IH"(2) [OF v(1) refl v(2) True] sv show ?thesis by simp
  next
    case False
    with "4.prems" v have "vs = [v]" by (simp split: if_split_asm)
    with sv show ?thesis by simp
  qed
next
  case (6 n depth s)
  from "6.prems" obtain q qs where q: "skip_space s = q # qs" "\<not> q \<noteq> CHR 0x22"
    by (cases "skip_space s") (simp_all split: if_split_asm)
  with "6.prems" obtain k r0 where k: "json_string (length qs) qs = Some (k, r0)"
    by (cases "json_string (length qs) qs") auto
  with "6.prems" q obtain c cs where c: "skip_space r0 = c # cs" "\<not> c \<noteq> CHR '':''"
    by (cases "skip_space r0") (simp_all split: if_split_asm)
  with "6.prems" q k obtain v r1 where v: "json_value n depth cs = Some (v, r1)"
    by (cases "json_value n depth cs") auto
  with "6.prems" q k c obtain d ds where d: "skip_space r1 = d # ds"
    by (cases "skip_space r1") simp_all
  have sv: "strings_ok v" by (rule "6.IH"(1) [OF q k refl c v])
  show ?case
  proof (cases "d = CHR '',''")
    case True
    with "6.prems" q k c v d obtain ms' where "ms = (k, v) # ms'" "json_members n depth ds = Some (ms', r)"
      by auto
    with "6.IH"(2) [OF q k refl c v refl d True] sv show ?thesis by simp
  next
    case False
    with "6.prems" q k c v d have "ms = [(k, v)]" by (simp split: if_split_asm)
    with sv show ?thesis by simp
  qed
qed simp_all

lemma json_unmarshal_strings: "json_unmarshal b = Some j \<Longrightarrow> strings_ok j"
  by (auto simp: json_unmarshal_def json_decode_first_def dest: json_value_strings(1)
      split: option.splits if_splits simp del: json_value.simps)

text \<open>A decoder keeps what each of its fields keeps.\<close>

lemma read_members_keeps:
  "read_members f x ms = Some y \<Longrightarrow> P x \<Longrightarrow> list_all (\<lambda>(k, v). strings_ok v) ms \<Longrightarrow>
   (\<And>x k v y. f x k v = Some y \<Longrightarrow> strings_ok v \<Longrightarrow> P x \<Longrightarrow> P y) \<Longrightarrow> P y"
  by (induction f x ms rule: read_members.induct) (auto split: option.splits)

lemma read_struct_keeps:
  "read_struct f x j = Some y \<Longrightarrow> P x \<Longrightarrow> strings_ok j \<Longrightarrow>
   (\<And>x k v y. f x k v = Some y \<Longrightarrow> strings_ok v \<Longrightarrow> P x \<Longrightarrow> P y) \<Longrightarrow> P y"
  using read_members_keeps [of f x _ y P] by (cases j) auto

lemma read_string_utf8: "read_string old v = Some s \<Longrightarrow> strings_ok v \<Longrightarrow> utf8_ok old \<Longrightarrow> utf8_ok s"
  by (cases v) auto

lemma key_texts_class: "key_texts k = class_strings (LastFailure k) @ [LastAction k]"
  by (simp add: key_texts_def class_strings_def)

lemma class_field_utf8:
  "class_field T c k v = Some c' \<Longrightarrow> strings_ok v \<Longrightarrow> list_all utf8_ok (class_strings c) \<Longrightarrow>
   list_all utf8_ok (class_strings c')"
  by (auto simp: class_field_def class_strings_def dest: read_string_utf8 split: if_splits)

lemma key_field_utf8:
  assumes "key_field T x k v = Some y" "strings_ok v" "list_all utf8_ok (key_texts x)"
  shows "list_all utf8_ok (key_texts y)"
proof -
  have c: "list_all utf8_ok (class_strings c)"
    if "read_struct (class_field T) (LastFailure x) v = Some c" for c
    by (rule read_struct_keeps [OF that _ assms(2)]) (use assms(3) in \<open>auto simp: key_texts_class dest: class_field_utf8\<close>)
  from assms show ?thesis
    by (auto simp: key_field_def key_texts_class c dest: read_string_utf8 split: if_splits)
qed

lemma utf8_ok_zero [simp]: "list_all utf8_ok (key_texts zero_key)"
  by (simp add: key_texts_def zero_key_def zero_class_def mk_class_def utf8_ok.Nil)

definition raw_utf8 :: "(string, keyState option) fmap \<Rightarrow> bool" where
  "raw_utf8 m \<longleftrightarrow> (\<forall>i k. fmlookup m i = Some (Some k) \<longrightarrow> list_all utf8_ok (key_texts k))"

lemma read_key_entry_utf8:
  assumes "read_key_entry T m i v = Some m'" "strings_ok v" "raw_utf8 m"
  shows "raw_utf8 m'"
proof -
  have "list_all utf8_ok (key_texts k)" if "read_struct (key_field T) zero_key v = Some k" for k
    by (rule read_struct_keeps [OF that _ assms(2)]) (auto dest: key_field_utf8)
  with assms show ?thesis by (auto simp: read_key_entry_def raw_utf8_def split: if_splits)
qed

lemma read_keys_utf8:
  assumes "read_keys T old v = Some (Some m')" "strings_ok v" "\<forall>m. old = Some m \<longrightarrow> raw_utf8 m"
  shows "raw_utf8 m'"
proof (cases v)
  case (JObj ms)
  let ?m = "case old of None \<Rightarrow> fmempty | Some m \<Rightarrow> m"
  have m: "read_members (read_key_entry T) ?m ms = Some m'" "list_all (\<lambda>(k, v). strings_ok v) ms"
    using assms(1,2) JObj by auto
  have "raw_utf8 ?m" using assms(3) by (simp add: raw_utf8_def [of fmempty] split: option.split)
  from m(1) this m(2) show ?thesis by (rule read_members_keeps) (rule read_key_entry_utf8)
qed (use assms in auto)

lemma state_field_keys:
  assumes "state_field T x k v = Some y"
  shows "rawKeys y = rawKeys x \<or> read_keys T (rawKeys x) v = Some (rawKeys y)"
  using assms by (auto simp: state_field_def split: if_split_asm)

lemma state_field_utf8:
  assumes "state_field T x k v = Some y" "strings_ok v" "\<forall>m. rawKeys x = Some m \<longrightarrow> raw_utf8 m"
  shows "\<forall>m. rawKeys y = Some m \<longrightarrow> raw_utf8 m"
  using state_field_keys [OF assms(1)] read_keys_utf8 [OF _ assms(2,3)] assms(3) by auto

lemma decoded_sound:
  assumes "decodeState T b = Some s"
  shows "sound_state s"
proof -
  from assms obtain j x where j: "json_unmarshal b = Some j"
    "read_struct (state_field T) raw_empty j = Some x" "check_state x = Some s"
    by (auto simp: decodeState_def state_of_json_def split: option.splits)
  have "\<forall>m. rawKeys x = Some m \<longrightarrow> raw_utf8 m"
    by (rule read_struct_keeps [OF j(2) _ json_unmarshal_strings [OF j(1)]])
      (auto simp: raw_empty_def raw_utf8_def [of fmempty] dest: state_field_utf8)
  then have u: "list_all utf8_ok (key_texts k)"
    if "rawKeys x = Some m" "fmlookup m i = Some (Some k)" for m i k
    using that by (auto simp: raw_utf8_def)
  from j(3) obtain m where m: "rawKeys x = Some m" "rawVersion x = 1"
    "list_all (\<lambda>i. i = [] \<or> hashID i) [rawCurrent x, rawCursor x]"
    "fBall (fmdom m) (\<lambda>i. hashID i \<and> fmlookup m i \<noteq> Some None)"
    "s = \<lparr>Version = rawVersion x, Current = rawCurrent x, Cursor = rawCursor x,
      Keys = fmmap (\<lambda>k. the k) m\<rparr>"
    by (auto simp: check_state_def split: option.split_asm if_split_asm)
  have "hashID i \<and> list_all utf8_ok (key_texts k)" if "fmlookup (Keys s) i = Some k" for i k
  proof -
    from that m(5) obtain e where e: "fmlookup m i = Some e" "k = the e" by auto
    have "i |\<in>| fmdom m" using e(1) by (rule fmdomI)
    with m(4) have i: "hashID i" "fmlookup m i \<noteq> Some None" by auto
    with e(1) obtain k' where "e = Some k'" by (cases e) auto
    with u [OF m(1)] e i(1) show ?thesis by auto
  qed
  with m show ?thesis by (simp add: sound_state_def sound_keys_def fmpred_iff)
qed

end
