(* ===== verification/Zen_Sound.thy ===== *)
theory Zen_Sound
  imports Zen_Codec Zen_Pool_Steps
begin

text \<open>
  What the pool keeps can be written: in every run whose configurations name their
  accounts by fingerprints, as the reader of the configuration makes them, the state has
  the schema version, fingerprints as IDs, and texts that come from the program itself.
\<close>

section \<open>Sound pools\<close>

definition named_cfg :: "configuration \<Rightarrow> bool" where
  "named_cfg cfg \<longleftrightarrow> list_all (\<lambda>a. hashID (Fingerprint a)) (Accounts cfg)"

definition sound_pool :: "'s pool \<Rightarrow> bool" where
  "sound_pool p \<longleftrightarrow> sound_state (p_state p) \<and> named_cfg (p_cfg p)"

lemma sound_pool_cong:
  "p_state q = p_state p \<Longrightarrow> p_cfg q = p_cfg p \<Longrightarrow> sound_pool q \<longleftrightarrow> sound_pool p"
  by (simp add: sound_pool_def)

lemma sound_pool_frame [simp]:
  "sound_pool (p\<lparr>p_store := s\<rparr>) \<longleftrightarrow> sound_pool p"
  "sound_pool (p\<lparr>p_fault := f\<rparr>) \<longleftrightarrow> sound_pool p"
  "sound_pool (p\<lparr>p_closed := c\<rparr>) \<longleftrightarrow> sound_pool p"
  by (simp_all add: sound_pool_def)

lemma sound_pool_ids [simp]:
  "sound_pool p \<Longrightarrow> sound_pool (set_current [] p)"
  "sound_pool p \<Longrightarrow> hashID h \<Longrightarrow> sound_pool (set_cursor h p)"
  "sound_pool p \<Longrightarrow> a \<in> set (Accounts (p_cfg p)) \<Longrightarrow> sound_pool (make_current a p)"
  by (auto simp: sound_pool_def sound_state_def named_cfg_def list_all_iff set_current_def
      set_cursor_def make_current_def)

lemma sound_saved: "saved M p = (r, q) \<Longrightarrow> sound_pool q \<longleftrightarrow> sound_pool p"
  by (rule sound_pool_cong) (erule saved_frame)+

lemma sound_saveLocked: "saveLocked M p = (ok, q) \<Longrightarrow> sound_pool q \<longleftrightarrow> sound_pool p"
  by (rule sound_pool_cong) (erule saveLocked_frame)+

lemma sound_key:
  assumes "sound_pool p" "key_of p h = Some k"
  shows "hashID h \<and> list_all utf8_ok (key_texts k)"
  using assms sound_keysD [of "Keys (p_state p)" h k]
  by (simp add: sound_pool_def sound_state_def key_of_def)

lemma sound_put_key:
  assumes "sound_pool p" "hashID h" "list_all utf8_ok (key_texts k)"
  shows "sound_pool (put_key h k p)"
  using assms by (auto simp: sound_pool_def sound_state_def sound_keys_def put_key_def fmpred_iff)

lemma chooseLocked_sound:
  assumes "keys_ok p" "sound_pool p" "chooseLocked p after now = (r, q)"
  shows "sound_pool q"
  using assms
  by (cases rule: chooseLocked_cases [OF assms(1), of after now]) (auto split: if_splits)

section \<open>The texts of the key states\<close>

lemma words_utf8: "list_all utf8_ok class_words"
proof -
  have "list_all plain class_words" by code_simp
  then show ?thesis by (rule list.pred_mono_strong) (rule utf8_ok_plain)
qed

lemma class_words_utf8: "set (class_strings c) \<subseteq> set class_words \<Longrightarrow> list_all utf8_ok (class_strings c)"
  using words_utf8 by (auto simp: list_all_iff)

lemma literal_texts:
  "list_all utf8_ok [''manual_resume'', ''quota_exhausted'', ''auth_suspended'',
     ''rate_limited_without_failover'', ''transient_failover'', ''failure_without_failover'',
     ''rate_limit_fallback'', ''no_valid_rate_reset'', ''transient_fallback'',
     ''upstream_5xx_or_transport_failure'', ''quota'', ''auth'', ''rate_limit'', ''transient'']"
proof -
  have "list_all plain [''manual_resume'', ''quota_exhausted'', ''auth_suspended'',
     ''rate_limited_without_failover'', ''transient_failover'', ''failure_without_failover'',
     ''rate_limit_fallback'', ''no_valid_rate_reset'', ''transient_fallback'',
     ''upstream_5xx_or_transport_failure'', ''quota'', ''auth'', ''rate_limit'', ''transient'']" by code_simp
  then show ?thesis by (rule list.pred_mono_strong) (rule utf8_ok_plain)
qed

lemma key_texts_update:
  "key_texts (k\<lparr>Success := n\<rparr>) = key_texts k" "key_texts (k\<lparr>LastSuccessAt := t\<rparr>) = key_texts k"
  "key_texts (k\<lparr>Failed := n\<rparr>) = key_texts k"
  by (simp_all add: key_texts_def)

lemma record_success_texts: "key_texts (record_success t k) = key_texts k"
  by (simp add: record_success_def Let_def key_texts_update)

lemma resume_key_texts: "list_all utf8_ok (key_texts k) \<Longrightarrow> list_all utf8_ok (key_texts (resume_key t k))"
  using literal_texts by (simp add: resume_key_def key_texts_def)

lemma fail_key_texts:
  assumes "list_all utf8_ok (class_strings c)" "list_all utf8_ok (key_texts k)"
  shows "list_all utf8_ok (key_texts (fail_key cfg now t c k))"
  using assms literal_texts unfolding fail_key_def Let_def rate_limited_def quarantined_def
  by (simp add: key_texts_def class_strings_def)

section \<open>Every operation keeps a pool sound\<close>

lemma Pick_sound:
  assumes wf: "wf_pool p" and fr: "sound_pool p" and f: "Pick M now req p = (r, q)"
  shows "sound_pool q"
proof (cases "managedLocked p req \<and> \<not> p_closed p \<and> p_fault p = []")
  case False
  with f fr show ?thesis by (auto simp: Pick_def split: if_splits)
next
  case True
  obtain r1 p1 where e: "ensure_current M now p = (r1, p1)" by fastforce
  from ensure_current_spec [OF wf e] have wf1: "wf_pool p1" by blast
  have ch: "sound_pool z" if "sound_pool y" "wf_pool y" "chooseLocked y a now = (x, z)" for x y z a
    using chooseLocked_sound [of y a now x z] that by blast
  from e fr wf have fr1: "sound_pool p1"
    by (auto simp: ensure_current_def sound_saveLocked dest: ch
        split: if_splits prod.splits outcome.splits)
  have "sound_pool q" if "pick_current req now p1 = (r, q)"
    using that fr1 wf1 by (auto simp: pick_current_def pick_failover_def Let_def dest: ch
        split: if_splits prod.splits outcome.splits option.splits)
  with f e True fr1 show ?thesis
    by (auto simp: Pick_def split: outcome.splits)
qed

lemma Guard_sound:
  assumes wf: "wf_pool p" and fr: "sound_pool p" and f: "Guard G now m h p = (r, q)"
  shows "sound_pool q"
proof -
  have ch: "sound_pool z" if "chooseLocked p a now = (x, z)" for x z a
    using chooseLocked_sound [of p a now x z] that wf fr by blast
  from fr f show ?thesis
    by (auto simp: Guard_def guard_current_def dest: ch
        split: if_splits prod.splits outcome.splits option.splits)
qed

lemma advance_sound:
  assumes "wf_pool p" "sound_pool p" "hashID h" "advance h now p = (r, q)"
  shows "sound_pool q"
  using assms chooseLocked_sound [of "set_cursor h p" h now _ q] wf_poolD(1) [of "set_cursor h p"]
  by (auto simp: advance_def split: if_splits prod.splits outcome.splits)

lemma Observe_sound:
  assumes wf: "wf_pool p" and s: "sound_pool p" and f: "Observe M G now r p = (res, q)"
  shows "sound_pool q"
proof (cases "attributed p r")
  case None
  with f s show ?thesis by (auto simp: Observe_not_attributed split: if_splits)
next
  case (Some hk)
  then obtain h k where hk: "attributed p r = Some (h, k)" by (cases hk) auto
  from sound_key [OF s attributed_key [OF hk]]
  have h: "hashID h" and k: "list_all utf8_ok (key_texts k)" by auto
  have put: "sound_pool (put_key h k' p)" if "list_all utf8_ok (key_texts k')" for k'
    using sound_put_key [OF s h that] .
  let ?c = "classify G (StatusCode r) (ResponseHeaders r) (Body r) (observed_at now r) (Fallback (p_cfg p))"
  let ?p1 = "put_key h (fail_key (p_cfg p) now (observed_at now r) ?c (k\<lparr>Failed := Failed k + 1\<rparr>)) p"
  have p1: "sound_pool ?p1"
    by (rule put, rule fail_key_texts [OF class_words_utf8 [OF classify_words]])
      (simp add: key_texts_update k)
  have fld: "sound_pool (put_key h (k\<lparr>Failed := Failed k + 1\<rparr>) p)"
    by (rule put) (simp add: key_texts_update k)
  have scc: "sound_pool (put_key h (record_success (observed_at now r) k) p)"
    by (rule put) (simp add: record_success_texts k)
  have adv: "sound_pool z" if "advance h now ?p1 = (x, z)" for x z
    by (rule advance_sound [OF wf_pool_put_key [OF wf] p1 h that])
  from f show ?thesis unfolding Observe_attributed [OF hk] observe_failure_def Let_def
    using p1 fld scc adv
    by (auto simp: sound_saved split: if_splits prod.splits outcome.splits)
qed

lemma Resume_sound:
  assumes "wf_pool p" "sound_pool p" "Resume M now l c p = (r, q)"
  shows "sound_pool q"
proof -
  have put: "sound_pool (put_key h (resume_key now k) p)" if "key_of p h = Some k" for h k
    using sound_key [OF assms(2) that] by (intro sound_put_key [OF assms(2)] resume_key_texts) auto
  from assms(2,3) put show ?thesis
    by (auto simp: Resume_def sound_saved split: if_splits option.splits)
qed

lemma sound_install:
  assumes "sound_state (p_state p)" "named_cfg cfg"
  shows "sound_pool (installAccountsLocked cfg p)"
proof -
  have "hashID h \<and> list_all utf8_ok (key_texts k)"
    if "fmlookup (Keys (p_state (installAccountsLocked cfg p))) h = Some k" for h k
    using that key_of_install [of cfg p h] assms sound_keysD [of "Keys (p_state p)" h k]
      utf8_ok_zero
    by (auto simp: key_of_def sound_state_def named_cfg_def list_all_iff has_account_iff
        split: option.splits if_splits)
  with assms show ?thesis
    by (simp add: sound_pool_def sound_state_def sound_keys_def fmpred_iff)
qed

lemma Reconfigure_sound:
  assumes wf: "wf_pool p" and s: "sound_pool p" and cfg: "named_cfg cfg"
    and f: "Reconfigure M now cfg p = (r, q)"
  shows "sound_pool q"
proof -
  let ?p1 = "(installAccountsLocked cfg p)\<lparr>p_fault := []\<rparr>"
  have s1: "sound_pool ?p1" using sound_install [OF _ cfg, of p] s by (simp add: sound_pool_def)
  have ok: "keys_ok (set_current [] ?p1)"
    using keys_ok_install [of cfg p] by (simp add: keys_ok_def key_of_def)
  have ch: "sound_pool z" if "chooseLocked (set_current [] ?p1) a now = (x, z)" for x z a
    using chooseLocked_sound [OF ok _ that] s1 by simp
  from f s s1 show ?thesis
    by (auto simp: Reconfigure_def Let_def sound_saved dest: ch
        split: if_splits prod.splits outcome.splits)
qed

lemma Close_sound:
  assumes "wf_pool p" "sound_pool p" "Close M p = (r, q)"
  shows "sound_pool q"
  using Close_spec [OF assms(1,3)] assms(2) by (simp add: sound_pool_cong [of q p])

fun named_event :: "pool_event \<Rightarrow> bool" where
  "named_event (EReconfigure cfg) \<longleftrightarrow> named_cfg cfg"
| "named_event _ \<longleftrightarrow> True"

lemma pool_step_sound:
  assumes "wf_pool p" "sound_pool p" "named_event e" "pool_step M G now e p = (b, q)"
  shows "sound_pool q"
  using assms
  by (cases e) (auto simp: map_prod_def
      dest: Pick_sound Observe_sound Guard_sound Resume_sound Reconfigure_sound Close_sound
      split: prod.splits)

section \<open>Runs\<close>

text \<open>The runs of the pool whose configurations name their accounts by fingerprints.\<close>

inductive named_reach :: "'s stateStore \<Rightarrow> golib \<Rightarrow> time \<Rightarrow> 's pool \<Rightarrow> bool" for M G where
  opened_pool: "named_cfg cfg \<Longrightarrow> newPool M cfg st = Some p \<Longrightarrow> named_reach M G t p"
| faulted_pool: "named_cfg cfg \<Longrightarrow> named_reach M G t (faultedPool cfg reason)"
| event: "named_reach M G t p \<Longrightarrow> t \<le> t' \<Longrightarrow> named_event e \<Longrightarrow>
    pool_step M G t' e p = (b, q) \<Longrightarrow> named_reach M G t' q"

lemma named_reach_reach: "named_reach M G t p \<Longrightarrow> pool_reach M G t p"
  by (induction rule: named_reach.induct) (auto intro: pool_reach.intros)

lemma sound_empty: "sound_state emptyState"
  by (simp add: sound_state_def emptyState_def sound_keys_def fmpred_iff)

lemma newPool_sound:
  assumes "named_cfg cfg" "newPool M cfg st = Some p" "\<And>s. Load M st = Some s \<Longrightarrow> sound_state s"
  shows "sound_pool p"
proof -
  from assms(2) obtain s where s: "Load M st = Some s" and p: "p = (if Current s \<noteq> [] \<and> \<not> has_account cfg (Current s)
      then set_current [] (opened cfg st s) else opened cfg st s)"
    by (auto simp: newPool_opened)
  have "sound_pool (opened cfg st s)" unfolding opened_def
    by (rule sound_install) (use assms(1) assms(3) [OF s] in simp_all)
  then show ?thesis unfolding p by simp
qed

lemma faultedPool_sound: "named_cfg cfg \<Longrightarrow> sound_pool (faultedPool cfg reason)"
  unfolding faultedPool_def Let_def
  by (rule sound_install) (simp_all add: sound_empty named_cfg_def)

lemma named_reach_sound:
  assumes "named_reach M G t p" "\<And>st s. Load M st = Some s \<Longrightarrow> sound_state s"
  shows "sound_pool p"
  using assms(1)
proof (induction rule: named_reach.induct)
  case (opened_pool cfg st p t)
  show ?case by (rule newPool_sound [OF opened_pool.hyps assms(2)])
next
  case (faulted_pool cfg t reason)
  then show ?case by (rule faultedPool_sound)
next
  case (event t p t' e b q)
  then show ?case
    using pool_step_sound pool_reach_wf [OF named_reach_reach [OF event.hyps(1)]] by blast
qed

end
