(* ===== verification/Zen_Durable.thy ===== *)
theory Zen_Durable
  imports Zen_Sound
begin

text \<open>
  The contract of \<open>stateStore\<close> that the pool relies on, what follows from it for a pool
  that saves and is opened again, and its proof for the two stores of the code; and its
  extension to stores that outlast a failure of the machine, which the file store is.
\<close>

section \<open>What is stored\<close>

definition in_order :: "('s \<Rightarrow> bool) \<Rightarrow> 's pool \<Rightarrow> bool" where
  "in_order good p \<longleftrightarrow> (case p_store p of None \<Rightarrow> False | Some st \<Rightarrow> good st)"

text \<open>
  A pool that is opened with the configuration of \<open>p\<close> on the store \<open>st\<close> continues with the
  state of \<open>p\<close> if it fits; else the store refuses to open.
\<close>

definition reopens ::
  "'s stateStore \<Rightarrow> (persistedState \<Rightarrow> bool) \<Rightarrow> 's pool \<Rightarrow> 's \<Rightarrow> bool" where
  "reopens M fits p st \<longleftrightarrow>
     map_option p_state (newPool M (p_cfg p) st) =
       (if fits (p_state p) then Some (p_state p) else None)"

text \<open>
  The states a load of the file store accepts: 10000 keys and 8 MiB. No save checks
  either limit.
\<close>

definition file_fits :: "timelib \<Rightarrow> persistedState \<Rightarrow> bool" where
  "file_fits T s \<longleftrightarrow> few_keys s \<and> int (length (indented (state_json T s))) + 1 \<le> max_state"

section \<open>The contract\<close>

text \<open>
  \<open>good\<close> are the stores in working order, \<open>fits\<close> the limits of a load. What a load returns
  is sound. A save that succeeds is what the next load returns, if it fits.
\<close>

locale state_store =
  fixes M :: "'s stateStore"
    and good :: "'s \<Rightarrow> bool"
    and fits :: "persistedState \<Rightarrow> bool"
  assumes save_good: "good st \<Longrightarrow> Save M s st = (ok, st') \<Longrightarrow> good st'"
    and load_sound: "Load M st = Some s \<Longrightarrow> sound_state s"
    and save_load: "good st \<Longrightarrow> sound_state s \<Longrightarrow> Save M s st = (True, st') \<Longrightarrow>
      Load M st' = (if fits s then Some s else None)"
begin

lemma runs_sound: "named_reach M G t p \<Longrightarrow> sound_pool p"
  by (rule named_reach_sound) (auto intro: load_sound)

text \<open>A pool opened on the stored state with the same accounts continues where it was.\<close>

lemma installed_again:
  assumes "wf_pool p"
  shows "p_state (opened (p_cfg p) st (p_state p)) = p_state p"
proof -
  have "fold add_key (Accounts (p_cfg p)) (Keys (p_state p)) = Keys (p_state p)"
  proof (rule fmap_ext)
    fix h
    show "fmlookup (fold add_key (Accounts (p_cfg p)) (Keys (p_state p))) h = fmlookup (Keys (p_state p)) h"
      using wf_poolD(1) [OF assms]
      by (auto simp: fold_add_key_lookup list_ex_iff keys_ok_def list_all_iff key_of_def
          split: option.split)
  qed
  then show ?thesis by (simp add: opened_def installAccountsLocked_def Let_def)
qed

lemma reopens_loaded:
  assumes "wf_pool p" "Load M st = (if fits (p_state p) then Some (p_state p) else None)"
  shows "reopens M fits p st"
proof -
  have "Current (p_state p) = [] \<or> has_account (p_cfg p) (Current (p_state p))"
    using assms(1) by (auto simp: wf_pool_def current_ok_def)
  then show ?thesis
    using assms(2) installed_again [OF assms(1), of st] by (auto simp: newPool_opened reopens_def)
qed

lemma saved_reopens:
  assumes "saved M p = (Ok (), q)" "in_order good p" "sound_pool p" "wf_pool p"
  obtains st where "p_store q = Some st" "good st" "reopens M fits q st"
proof -
  from assms(1,2) obtain st0 st where st0: "p_store p = Some st0" "good st0"
    and sv: "Save M (p_state p) st0 = (True, st)" and q: "p_store q = Some st"
    by (auto simp: saved_def saveLocked_def in_order_def Let_def
        split: prod.splits if_splits option.splits)
  note q_state = saved_frame(2) [OF assms(1)]
  have "Load M st = (if fits (p_state q) then Some (p_state q) else None)"
    using save_load [OF st0(2) _ sv] assms(3) q_state by (simp add: sound_pool_def)
  moreover have "wf_pool q" using assms(4) wf_pool_saved [OF assms(1)] by simp
  ultimately show thesis using that q save_good [OF st0(2) sv] reopens_loaded by blast
qed

end

text \<open>A save that succeeds outlasts a failure of the machine.\<close>

locale durable_store = state_store +
  fixes crash :: "'a \<Rightarrow> 'a"
  assumes crash_load: "good st \<Longrightarrow> sound_state s \<Longrightarrow> Save M s st = (True, st') \<Longrightarrow>
      Load M (crash st') = Load M st'"
begin

lemma saved_survives:
  assumes "saved M p = (Ok (), q)" "in_order good p" "sound_pool p" "wf_pool p"
  obtains st where "p_store q = Some st" "reopens M fits q st" "reopens M fits q (crash st)"
proof -
  from assms(1,2) obtain st0 st where st0: "p_store p = Some st0" "good st0"
    and sv: "Save M (p_state p) st0 = (True, st)" and q: "p_store q = Some st"
    by (auto simp: saved_def saveLocked_def in_order_def Let_def
        split: prod.splits if_splits option.splits)
  from assms(3) have s: "sound_state (p_state p)" by (simp add: sound_pool_def)
  have "wf_pool q" using assms(4) wf_pool_saved [OF assms(1)] by simp
  moreover have "Load M (crash st) = (if fits (p_state q) then Some (p_state q) else None)"
    using crash_load [OF st0(2) s sv] save_load [OF st0(2) s sv] saved_frame(2) [OF assms(1)] by simp
  ultimately show thesis
    using that q reopens_loaded saved_reopens [OF assms] by (metis option.inject)
qed

end

section \<open>memoryStore\<close>

lemma memory_load_sound: "memory_Load T st = Some s \<Longrightarrow> sound_state s"
  by (auto simp: memory_Load_def sound_empty dest: decoded_sound split: if_splits)

context time_codec
begin

lemma compact_state_not_Nil: "compact (state_json T s) \<noteq> []"
  by (simp add: compact_def state_json_def)

lemma memory_Save_load:
  "sound_state s \<Longrightarrow> memory_Save T s st = (True, st') \<Longrightarrow>
   memory_Load T st' = (if few_keys s then Some s else None)"
  using decode_Marshal [of s]
  by (auto simp: memory_Save_def memory_Load_def Marshal_def compact_state_not_Nil
      split: option.splits if_splits)

end

sublocale time_codec \<subseteq> memory: state_store "memory_ops T" "\<lambda>_. True" few_keys
  by unfold_locales
    (auto simp: memory_ops_def memory_load_sound memory_Save_load)

section \<open>fileStore\<close>

lemma file_load_sound: "file_Load T st = Some s \<Longrightarrow> sound_state s"
  by (auto simp: file_Load_def sound_empty dest: decoded_sound split: if_splits option.splits)

text \<open>
  The temporary file is renamed only when the whole text is in it, on the disk too, and
  when only its owner may read it.
\<close>

lemma write_steps_complete:
  "write_steps v b = Some t \<Longrightarrow>
   f_seen t = b @ [CHR 0x0A] \<and> f_disk t = b @ [CHR 0x0A] \<and> f_mode t = private_mode"
  by (auto simp: write_steps_def CreateTemp_def Chmod_def Write_def Sync_def CloseTemp_def
      split: if_splits)

text \<open>What a save does to the directory, in the running system and on the disk.\<close>

lemma file_Save_cases:
  assumes "file_Save T s f = (ok, f')"
  obtains (kept) "\<not> ok" "fs_state f' = fs_state f" "fs_disk f' = fs_disk f"
      "fs_readable f' = fs_readable f"
  | (replaced) b t where "MarshalIndent T s = Some b" "f_seen t = b @ [CHR 0x0A]"
      "f_disk t = b @ [CHR 0x0A]" "f_mode t = private_mode" "fs_state f' = Some t"
      "fs_disk f' = Some t \<or> \<not> ok \<and> fs_disk f' = fs_disk f" "fs_readable f' = fs_readable f"
proof (cases "MarshalIndent T s")
  case None
  with assms show thesis by (intro kept) (auto simp: file_Save_def)
next
  case (Some b)
  define v where "v = (case fs_future f of [] \<Rightarrow> all_ok | v # _ \<Rightarrow> v)"
  show thesis
  proof (cases "write_steps v b")
    case None
    with assms Some show thesis by (intro kept) (auto simp: file_Save_def v_def [symmetric] Let_def)
  next
    case (Some t)
    show thesis
    proof (cases "ok_rename v")
      case False
      with assms \<open>MarshalIndent T s = Some b\<close> Some show thesis
        by (intro kept) (auto simp: file_Save_def v_def [symmetric] Rename_def Let_def)
    next
      case True
      with assms \<open>MarshalIndent T s = Some b\<close> Some write_steps_complete [OF Some] show thesis
        by (intro replaced [of b t])
          (auto simp: file_Save_def v_def [symmetric] Rename_def SyncDir_def Let_def
            split: if_splits)
    qed
  qed
qed

text \<open>The file after a save is the file before, or the complete new text, for its owner only.\<close>

definition untorn ::
  "timelib \<Rightarrow> persistedState \<Rightarrow> statefile option \<Rightarrow> statefile option \<Rightarrow> bool" where
  "untorn T s old new \<longleftrightarrow> new = old \<or>
     (case (MarshalIndent T s, new) of
        (Some b, Some t) \<Rightarrow> f_seen t = b @ [CHR 0x0A] \<and> f_mode t = private_mode
      | _ \<Rightarrow> False)"

lemma file_Save_untorn:
  assumes "file_Save T s f = (ok, f')"
  shows "untorn T s (fs_state f) (fs_state f')
    \<and> untorn T s (fs_state (power_failure f)) (fs_state (power_failure f'))"
  by (rule file_Save_cases [OF assms]) (auto simp: untorn_def power_failure_def)

context time_codec
begin

lemma file_text_load:
  assumes "sound_state s" "MarshalIndent T s = Some b" "fs_readable f" "fs_state f = Some t"
    "f_seen t = b @ [CHR 0x0A]"
  shows "file_Load T f = (if file_fits T s then Some s else None)"
proof -
  have "b = indented (state_json T s)" using assms(2) by (auto simp: MarshalIndent_def split: if_splits)
  with decode_MarshalIndent [OF assms(1,2)] assms(3-5) show ?thesis
    by (simp add: file_Load_def file_fits_def)
qed

lemma file_Save_load:
  assumes "fs_readable f" "sound_state s" "file_Save T s f = (True, f')"
  shows "file_Load T f' = (if file_fits T s then Some s else None)
    \<and> file_Load T (power_failure f') = file_Load T f'"
proof (cases rule: file_Save_cases [OF assms(3)])
  case (2 b t)
  have "file_Load T f' = (if file_fits T s then Some s else None)"
    by (rule file_text_load [OF assms(2) 2(1) _ 2(5,2)]) (use 2(7) assms(1) in simp)
  moreover have "file_Load T (power_failure f') = (if file_fits T s then Some s else None)"
    by (rule file_text_load [OF assms(2) 2(1), where t = "t\<lparr>f_seen := f_disk t\<rparr>"])
      (use 2 assms(1) in \<open>simp_all add: power_failure_def\<close>)
  ultimately show ?thesis by simp
qed simp

end

lemma file_Save_readable: "file_Save T s f = (ok, f') \<Longrightarrow> fs_readable f' = fs_readable f"
  by (erule file_Save_cases)

sublocale time_codec \<subseteq> disk: durable_store "file_ops T" fs_readable "file_fits T" power_failure
  by unfold_locales
    (auto simp: file_ops_def file_load_sound file_Save_readable dest: file_Save_load)

end
