(* ===== verification/Go_Rfc3339.thy ===== *)
theory Go_Rfc3339
  imports Zen_Durable
begin

text \<open>
  A codec of instants, as Go's \<open>time\<close> package has it for UTC: the calendar, the layout
  RFC 3339 with nanoseconds that \<open>MarshalJSON\<close> writes, and its reader \<open>parseRFC3339\<close>. It
  satisfies the laws the stores rely on.
\<close>

section \<open>The calendar\<close>

definition leap :: "int \<Rightarrow> bool" where
  "leap y \<longleftrightarrow> y mod 4 = 0 \<and> (y mod 100 \<noteq> 0 \<or> y mod 400 = 0)"

definition month_lengths :: "int \<Rightarrow> int list" where
  "month_lengths y = [31, if leap y then 29 else 28, 31, 30, 31, 30, 31, 31, 30, 31, 30, 31]"

text \<open>Days before the first of January of a year, from that of the year 1.\<close>

definition days_before :: "int \<Rightarrow> int" where
  "days_before y = 365 * (y - 1) + (y - 1) div 4 - (y - 1) div 100 + (y - 1) div 400"

definition date_days :: "int \<Rightarrow> int \<Rightarrow> int \<Rightarrow> int" where
  "date_days y m d = days_before y + sum_list (take (nat (m - 1)) (month_lengths y)) + d - 1"

text \<open>The year of a day and the day in it, through cycles of 400, 100, 4 and 1 years.\<close>

definition year_day :: "int \<Rightarrow> int \<times> int" where
  "year_day d =
     (let n400 = d div 146097; d1 = d mod 146097;
          n100 = min 3 (d1 div 36524); d2 = d1 - 36524 * n100;
          n4 = d2 div 1461; d3 = d2 mod 1461;
          n1 = min 3 (d3 div 365)
      in (400 * n400 + 100 * n100 + 4 * n4 + n1 + 1, d3 - 365 * n1))"

fun month_day :: "int \<Rightarrow> int list \<Rightarrow> int \<Rightarrow> int \<times> int" where
  "month_day m [] d = (m, d + 1)"
| "month_day m (l # ls) d = (if d < l then (m, d + 1) else month_day (m + 1) ls (d - l))"

lemma year_parts:
  fixes a b c e :: int
  assumes "0 \<le> b" "b \<le> 3" "0 \<le> c" "c \<le> 24" "0 \<le> e" "e \<le> 3"
  defines "n \<equiv> 400 * a + 100 * b + 4 * c + e"
  shows "n div 4 = 100 * a + 25 * b + c" "n div 100 = 4 * a + b" "n div 400 = a"
    "(n + 1) mod 4 = 0 \<longleftrightarrow> e = 3" "(n + 1) mod 100 = 0 \<longleftrightarrow> c = 24 \<and> e = 3"
    "(n + 1) mod 400 = 0 \<longleftrightarrow> b = 3 \<and> c = 24 \<and> e = 3"
proof -
  have n: "n = 4 * (100 * a + 25 * b + c) + e" "n = 100 * (4 * a + b) + (4 * c + e)"
    "n = 400 * a + (100 * b + 4 * c + e)" by (simp_all add: n_def)
  show "n div 4 = 100 * a + 25 * b + c" by (rule int_div_pos_eq [OF n(1)]) (use assms in auto)
  show "n div 100 = 4 * a + b" by (rule int_div_pos_eq [OF n(2)]) (use assms in auto)
  show "n div 400 = a" by (rule int_div_pos_eq [OF n(3)]) (use assms in auto)
  have mod: "(m * q + r + 1) mod m = 0 \<longleftrightarrow> r = m - 1" if "0 \<le> r" "r < m" for m q r :: int
    using that by (cases "r = m - 1") (auto simp: add.assoc mod_pos_pos_trivial)
  show "(n + 1) mod 4 = 0 \<longleftrightarrow> e = 3" unfolding n(1) using assms by (subst mod) auto
  have ce: "4 * c + e = 99 \<longleftrightarrow> c = 24 \<and> e = 3" using assms(3-6) by presburger
  show "(n + 1) mod 100 = 0 \<longleftrightarrow> c = 24 \<and> e = 3"
    unfolding n(2) using assms ce by (subst mod) auto
  have bce: "100 * b + 4 * c + e = 399 \<longleftrightarrow> b = 3 \<and> c = 24 \<and> e = 3"
    using assms(1-6) by presburger
  show "(n + 1) mod 400 = 0 \<longleftrightarrow> b = 3 \<and> c = 24 \<and> e = 3"
    unfolding n(3) using assms bce by (subst mod) auto
qed

lemma year_day_days:
  assumes "year_day d = (y, yd)"
  shows "days_before y + yd = d \<and> 0 \<le> yd \<and> yd < (if leap y then 366 else 365)"
proof -
  define a where "a = d div 146097"
  define d1 where "d1 = d mod 146097"
  define b where "b = min 3 (d1 div 36524)"
  define d2 where "d2 = d1 - 36524 * b"
  define c where "c = d2 div 1461"
  define d3 where "d3 = d2 mod 1461"
  define e where "e = min 3 (d3 div 365)"
  have d: "d = 146097 * a + d1" "0 \<le> d1" "d1 < 146097" by (simp_all add: a_def d1_def)
  then have b: "0 \<le> b" "b \<le> 3" "0 \<le> d2" "d2 < 36524 + (if b = 3 then 1 else 0)"
    unfolding b_def d2_def by (auto simp: min_def)
  then have d2: "d2 = 1461 * c + d3" "0 \<le> d3" "d3 < 1461" by (simp_all add: c_def d3_def)
  have c: "0 \<le> c" "c \<le> 24" using b d2 by (auto split: if_splits)
  have e: "0 \<le> e" "e \<le> 3" "0 \<le> d3 - 365 * e" "d3 - 365 * e < 365 + (if e = 3 then 1 else 0)"
    using d2(2,3) unfolding e_def by (auto simp: min_def)
  have last: "\<not> (c = 24 \<and> e = 3 \<and> d3 - 365 * e = 365 \<and> b \<noteq> 3)"
    using b(4) d2(1) by (auto split: if_splits)
  from assms have y: "y = 400 * a + 100 * b + 4 * c + e + 1" and yd: "yd = d3 - 365 * e"
    by (simp_all add: year_day_def Let_def a_def d1_def b_def d2_def c_def d3_def e_def)
  note parts = year_parts [OF b(1,2) c e(1,2), of a]
  have "leap y \<longleftrightarrow> e = 3 \<and> (c \<noteq> 24 \<or> b = 3)" unfolding y leap_def using parts(4-6) by auto
  moreover have "days_before y = 146097 * a + 36524 * b + 1461 * c + 365 * e"
    unfolding y days_before_def using parts(1-3) by (simp add: algebra_simps)
  ultimately show ?thesis
    using e last d d2_def d2(1) yd by (auto split: if_splits)
qed

lemma month_day_spec:
  "0 \<le> d \<Longrightarrow> d < sum_list ls \<Longrightarrow> month_day m ls d = (m', d') \<Longrightarrow>
   m \<le> m' \<and> nat (m' - m) < length ls \<and> 1 \<le> d' \<and> d' \<le> ls ! nat (m' - m)
   \<and> sum_list (take (nat (m' - m)) ls) + d' - 1 = d"
proof (induction m ls d rule: month_day.induct)
  case (2 m l ls d)
  show ?case
  proof (cases "d < l")
    case False
    with 2 have *: "m + 1 \<le> m' \<and> nat (m' - (m + 1)) < length ls \<and> 1 \<le> d'
        \<and> d' \<le> ls ! nat (m' - (m + 1)) \<and> sum_list (take (nat (m' - (m + 1))) ls) + d' - 1 = d - l"
      by auto
    then have "nat (m' - m) = Suc (nat (m' - (m + 1)))" by arith
    with * show ?thesis by simp
  qed (use 2 in auto)
qed simp

section \<open>Writing\<close>

text \<open>The last digits of a number, with leading zeros.\<close>

fun pad :: "nat \<Rightarrow> int \<Rightarrow> string" where
  "pad 0 n = []"
| "pad (Suc w) n = pad w (n div 10) @ [digit_char (n mod 10)]"

definition frac_text :: "int \<Rightarrow> string" where
  "frac_text ns =
     (if ns = 0 then [] else CHR ''.'' # rev (dropWhile (\<lambda>c. c = CHR ''0'') (rev (pad 9 ns))))"

definition rfc3339_text :: "int \<Rightarrow> int \<Rightarrow> int \<Rightarrow> int \<Rightarrow> int \<Rightarrow> int \<Rightarrow> int \<Rightarrow> string" where
  "rfc3339_text y mo d h mi s ns =
     pad 4 y @ ''-'' @ pad 2 mo @ ''-'' @ pad 2 d @ ''T'' @ pad 2 h @ '':'' @ pad 2 mi @ '':''
       @ pad 2 s @ frac_text ns @ ''Z''"

definition day_ns :: int where
  "day_ns = 86400 * 1000000000"

text \<open>\<open>MarshalJSON\<close> of an instant in UTC; it fails for a year outside four digits.\<close>

definition time_MarshalUTC :: "time \<Rightarrow> string option" where
  "time_MarshalUTC t =
     (let (y, yd) = year_day (t div day_ns); r = t mod day_ns;
          (mo, d) = month_day 1 (month_lengths y) yd; sec = r div 1000000000
      in if 0 \<le> y \<and> y \<le> 9999
         then Some (rfc3339_text y mo d (sec div 3600) (sec div 60 mod 60) (sec mod 60)
                      (r mod 1000000000))
         else None)"

section \<open>Reading\<close>

text \<open>A field of fixed width within bounds, and a fixed character.\<close>

definition num_field :: "nat \<Rightarrow> int \<Rightarrow> int \<Rightarrow> string \<Rightarrow> (int \<times> string) option" where
  "num_field w lo hi s =
     (let t = take w s in
      if length t = w \<and> list_all is_digit t \<and> lo \<le> dec_val t \<and> dec_val t \<le> hi
      then Some (dec_val t, drop w s) else None)"

fun expect :: "char \<Rightarrow> string \<Rightarrow> string option" where
  "expect c [] = None"
| "expect c (x # s) = (if x = c then Some s else None)"

text \<open>The fraction, of which nine digits count.\<close>

definition read_frac :: "string \<Rightarrow> int \<times> string" where
  "read_frac s =
     (case s of
        c # s' \<Rightarrow>
          (let ds = takeWhile is_digit s'; us = take 9 ds
           in if c = CHR ''.'' \<and> ds \<noteq> []
              then (dec_val us * 10 ^ (9 - length us), dropWhile is_digit s') else (0, s))
      | [] \<Rightarrow> (0, s))"

text \<open>\<open>Z\<close>, or hours and minutes east or west of Greenwich; the result is in seconds.\<close>

definition read_zone :: "string \<Rightarrow> int option" where
  "read_zone s =
     (if s = ''Z'' then Some 0
      else case s of
        c # s1 \<Rightarrow>
          (if c = CHR ''+'' \<or> c = CHR ''-'' then
             Option.bind (num_field 2 0 23 s1) (\<lambda>(h, s2).
             Option.bind (expect (CHR '':'') s2) (\<lambda>s3.
             Option.bind (num_field 2 0 59 s3) (\<lambda>(m, s4).
             if s4 = [] then Some ((if c = CHR ''-'' then -1 else 1) * (h * 60 + m) * 60) else None)))
           else None)
      | [] \<Rightarrow> None)"

definition parseRFC3339 :: "string \<Rightarrow> time option" where
  "parseRFC3339 s =
     Option.bind (num_field 4 0 9999 s) (\<lambda>(y, s).
     Option.bind (expect (CHR ''-'') s) (\<lambda>s.
     Option.bind (num_field 2 1 12 s) (\<lambda>(mo, s).
     Option.bind (expect (CHR ''-'') s) (\<lambda>s.
     Option.bind (num_field 2 1 (month_lengths y ! nat (mo - 1)) s) (\<lambda>(d, s).
     Option.bind (expect (CHR ''T'') s) (\<lambda>s.
     Option.bind (num_field 2 0 23 s) (\<lambda>(h, s).
     Option.bind (expect (CHR '':'') s) (\<lambda>s.
     Option.bind (num_field 2 0 59 s) (\<lambda>(mi, s).
     Option.bind (expect (CHR '':'') s) (\<lambda>s.
     Option.bind (num_field 2 0 59 s) (\<lambda>(sec, s).
     case read_frac s of (ns, s) \<Rightarrow>
     Option.bind (read_zone s) (\<lambda>z.
       Some ((((date_days y mo d * 24 + h) * 60 + mi) * 60 + sec - z) * 1000000000 + ns)))))))))))))"

section \<open>What is written is read back\<close>

lemma pad_length [simp]: "length (pad w n) = w"
  by (induction w arbitrary: n) auto

lemma pad_digits: "list_all is_digit (pad w n)"
  by (induction w arbitrary: n) (auto simp: digit_char_props)

lemma dec_val_pad: "0 \<le> n \<Longrightarrow> n < 10 ^ w \<Longrightarrow> dec_val (pad w n) = n"
proof (induction w arbitrary: n)
  case 0
  then show ?case by (simp add: dec_val_def)
next
  case (Suc w)
  have "n div 10 < 10 ^ w" using Suc.prems by (simp add: div_less_iff_less_mult)
  with Suc show ?case by (simp add: dec_val_snoc digit_char_props)
qed

lemma num_field_pad:
  "0 \<le> n \<Longrightarrow> n < 10 ^ w \<Longrightarrow> lo \<le> n \<Longrightarrow> n \<le> hi \<Longrightarrow> num_field w lo hi (pad w n @ s) = Some (n, s)"
  by (simp add: num_field_def pad_digits dec_val_pad)

lemma dec_val_zeros: "dec_val (ds @ replicate k (CHR ''0'')) = dec_val ds * 10 ^ k"
proof (induction k)
  case (Suc k)
  have "digit_val (CHR ''0'') = 0" by (simp add: digit_val_def)
  moreover have "ds @ replicate (Suc k) (CHR ''0'') = (ds @ replicate k (CHR ''0'')) @ [CHR ''0'']"
    by (simp add: replicate_append_same)
  ultimately show ?case using Suc by (simp only: dec_val_snoc) simp
qed simp

lemma trim_zeros: "\<exists>k. xs = rev (dropWhile (\<lambda>c. c = z) (rev xs)) @ replicate k z"
proof -
  have "rev xs = takeWhile (\<lambda>c. c = z) (rev xs) @ dropWhile (\<lambda>c. c = z) (rev xs)" by simp
  moreover obtain k where "takeWhile (\<lambda>c. c = z) (rev xs) = replicate k z"
    by (metis (mono_tags, lifting) replicate_length_same set_takeWhileD)
  ultimately show ?thesis
    by (metis rev_append rev_replicate rev_rev_ident)
qed

lemma read_frac_text:
  assumes "0 \<le> ns" "ns < 1000000000"
  shows "read_frac (frac_text ns @ CHR ''Z'' # s) = (ns, CHR ''Z'' # s)"
proof (cases "ns = 0")
  case True
  then show ?thesis by (simp add: frac_text_def read_frac_def)
next
  case False
  define ds where "ds = rev (dropWhile (\<lambda>c. c = CHR ''0'') (rev (pad 9 ns)))"
  have "\<exists>k. pad 9 ns = ds @ replicate k (CHR ''0'')" unfolding ds_def by (rule trim_zeros)
  then obtain k where k: "pad 9 ns = ds @ replicate k (CHR ''0'')" by blast
  then have len: "length ds + k = 9" by (metis length_append length_replicate pad_length)
  have val: "dec_val ds * 10 ^ k = ns"
  proof -
    have "dec_val (pad 9 ns) = ns" by (rule dec_val_pad) (use assms in simp_all)
    then show ?thesis unfolding k dec_val_zeros .
  qed
  have "list_all is_digit ds" using pad_digits [of 9 ns] k by (metis list_all_append)
  then have "\<forall>c\<in>set ds. is_digit c" by (simp only: list_all_iff)
  moreover have "\<not> is_digit (CHR ''Z'')" by (simp add: is_digit_def)
  ultimately have "takeWhile is_digit (ds @ CHR ''Z'' # s) = ds"
    "dropWhile is_digit (ds @ CHR ''Z'' # s) = CHR ''Z'' # s"
    by (simp_all add: takeWhile_append2 dropWhile_append2)
  moreover have "ds \<noteq> []" using val False by (auto simp: dec_val_def)
  moreover have "take 9 ds = ds" "9 - length ds = k" using len by simp_all
  moreover have "frac_text ns = CHR ''.'' # ds" using False by (simp only: frac_text_def ds_def if_False)
  ultimately show ?thesis
    using val by (simp add: read_frac_def Let_def)
qed

lemma month_lengths_sum: "sum_list (month_lengths y) = (if leap y then 366 else 365)"
  by (simp add: month_lengths_def)

lemma month_lengths_le: "i < 12 \<Longrightarrow> month_lengths y ! i \<le> 31"
  by (auto simp: month_lengths_def less_Suc_eq_le numeral_nat nth_Cons split: nat.split)

lemma expect_hit [simp]: "expect c ([c] @ s) = Some s" "expect c (c # s) = Some s"
  by simp_all

lemma parse_rfc3339_text:
  assumes "0 \<le> y" "y \<le> 9999" "1 \<le> mo" "mo \<le> 12" "1 \<le> d" "d \<le> month_lengths y ! nat (mo - 1)"
    and "0 \<le> h" "h \<le> 23" "0 \<le> mi" "mi \<le> 59" "0 \<le> s" "s \<le> 59" "0 \<le> ns" "ns < 1000000000"
  shows "parseRFC3339 (rfc3339_text y mo d h mi s ns) =
    Some ((((date_days y mo d * 24 + h) * 60 + mi) * 60 + s) * 1000000000 + ns)"
proof -
  have "nat (mo - 1) < 12" using assms(3,4) by simp
  with assms(6) month_lengths_le [of "nat (mo - 1)" y] have "d \<le> 31" by linarith
  moreover have "read_zone ''Z'' = Some 0" by (simp add: read_zone_def)
  ultimately show ?thesis
    using assms read_frac_text [of ns "[]"]
    by (simp add: parseRFC3339_def rfc3339_text_def num_field_pad)
qed

text \<open>The text of an instant needs no escaping.\<close>

lemma digit_plain: "is_digit c \<Longrightarrow> plain_char c"
  by (auto simp: is_digit_def plain_char_def byte_def)

lemma pad_plain: "list_all plain_char (pad w n)"
  using pad_digits [of w n] by (simp add: list_all_iff digit_plain)

lemma frac_plain: "list_all plain_char (frac_text ns)"
proof -
  have "set (rev (dropWhile (\<lambda>c. c = CHR ''0'') (rev (pad 9 ns)))) \<subseteq> set (pad 9 ns)"
    by (metis set_dropWhileD set_rev subsetI)
  with pad_plain [of 9 ns] show ?thesis
    by (auto simp: frac_text_def list_all_iff plain_char_def byte_def)
qed

lemma rfc3339_plain: "plain (rfc3339_text y mo d h mi s ns)"
proof -
  have "plain_char (CHR ''-'')" "plain_char (CHR '':'')" "plain_char (CHR ''T'')" "plain_char (CHR ''Z'')"
    by (simp_all add: plain_char_def byte_def)
  then show ?thesis unfolding plain_def rfc3339_text_def
    by (simp only: list_all_append pad_plain frac_plain list.pred_inject simp_thms)
qed

definition utc_times :: timelib where
  "utc_times = \<lparr>time_Unmarshal = parseRFC3339, time_Marshal = time_MarshalUTC\<rparr>"

lemma hms_parts:
  "x * 60 + mi = m \<Longrightarrow> m * 60 + s = q \<Longrightarrow> ((days * 24 + x) * 60 + mi) * 60 + s = days * 86400 + (q::int)"
  by (auto simp: algebra_simps)

lemma hms:
  "((days * 24 + q div 3600) * 60 + q div 60 mod 60) * 60 + q mod 60 = days * 86400 + (q::int)"
proof -
  have "q div 3600 = q div 60 div 60" using zdiv_zmult2_eq [of 60 q 60] by simp
  then show ?thesis by (simp only: hms_parts [OF div_mult_mod_eq div_mult_mod_eq])
qed

lemma marshal_unmarshal:
  assumes "time_MarshalUTC t = Some raw"
  shows "parseRFC3339 raw = Some t \<and> plain raw"
proof -
  let ?r = "t mod day_ns" and ?days = "t div day_ns"
  obtain y yd where y: "year_day ?days = (y, yd)" by fastforce
  obtain mo d where m: "month_day 1 (month_lengths y) yd = (mo, d)" by fastforce
  let ?sec = "?r div 1000000000"
  from assms y m have range: "0 \<le> y" "y \<le> 9999" and raw: "raw = rfc3339_text y mo d
      (?sec div 3600) (?sec div 60 mod 60) (?sec mod 60) (?r mod 1000000000)"
    by (auto simp: time_MarshalUTC_def Let_def split: if_splits)
  from year_day_days [OF y] have yd: "days_before y + yd = ?days" "0 \<le> yd"
    "yd < sum_list (month_lengths y)" by (simp_all add: month_lengths_sum)
  note mo = month_day_spec [OF yd(2,3) m]
  moreover have "length (month_lengths y) = 12" by (simp add: month_lengths_def)
  ultimately have mo12: "mo \<le> 12" by linarith
  have days: "date_days y mo d = ?days" using mo yd(1) by (simp add: date_days_def)
  have r: "0 \<le> ?r" "?r < day_ns" by (simp_all add: day_ns_def)
  then have sec: "0 \<le> ?sec" "?sec < 86400" by (simp_all add: day_ns_def)
  then have h: "?sec div 3600 \<le> 23" by simp
  have "(?days * 86400 + ?sec) * 1000000000 + ?r mod 1000000000 = ?days * day_ns + ?r"
    using div_mult_mod_eq [of ?r 1000000000] by (simp only: day_ns_def distrib_right mult.assoc)
  also have "\<dots> = t" by (rule div_mult_mod_eq)
  finally have "((((date_days y mo d * 24 + ?sec div 3600) * 60 + ?sec div 60 mod 60) * 60
      + ?sec mod 60) * 1000000000 + ?r mod 1000000000) = t"
    by (simp only: days hms)
  moreover have "parseRFC3339 raw = Some ((((date_days y mo d * 24 + ?sec div 3600) * 60
      + ?sec div 60 mod 60) * 60 + ?sec mod 60) * 1000000000 + ?r mod 1000000000)"
    unfolding raw
  proof (rule parse_rfc3339_text [OF range _ mo12])
    show "1 \<le> mo" "1 \<le> d" "d \<le> month_lengths y ! nat (mo - 1)" using mo by auto
    show "0 \<le> ?sec div 3600" "?sec div 3600 \<le> 23" using sec h by (simp_all add: pos_imp_zdiv_nonneg_iff)
    show "0 \<le> ?sec div 60 mod 60" "?sec div 60 mod 60 \<le> 59" "0 \<le> ?sec mod 60"
      "?sec mod 60 \<le> 59" "0 \<le> ?r mod 1000000000" "?r mod 1000000000 < 1000000000"
      using pos_mod_bound [of 60 "?sec div 60"] pos_mod_bound [of 60 ?sec] by simp_all
  qed
  ultimately show ?thesis using rfc3339_plain raw by (simp only: simp_thms)
qed

interpretation utc: time_codec utc_times
  by unfold_locales (auto simp: utc_times_def dest: marshal_unmarshal)

end
