(* ===== verification/Zen_Store_Props.thy ===== *)
theory Zen_Store_Props
  imports Zen_Manage_Props Go_Rfc3339
begin

text \<open>
  The properties of the stored state: it is read back as it was written, what is read is
  checked, an acknowledged change survives a restart, and a refused one leaves the old
  state or the new one.
\<close>

section \<open>The text of a state\<close>

text \<open>
  C32: The state of a pool is written so that it is read back unchanged, every deadline to
  the nanosecond, every counter and every ID, by \<open>memoryStore\<close> and by \<open>fileStore\<close>: in every
  run whose configurations name the accounts by fingerprints, the texts of both forms
  exist as soon as every instant can be written, and \<open>decodeState\<close> reads the same state
  from them, unless it has more than 10000 keys, which the writers do not check and
  \<open>decodeState\<close> refuses.
\<close>

theorem state_text_round_trip:
  assumes "named_reach (file_ops utc_times) G t p \<and> s = p_state p
    \<or> named_reach (memory_ops utc_times) G t m \<and> s = p_state m"
  shows "map_option (decodeState utc_times) (Marshal utc_times s) =
      (if times_ok utc_times s then Some (if few_keys s then Some s else None) else None)
    \<and> map_option (\<lambda>b. decodeState utc_times (b @ [CHR 0x0A])) (MarshalIndent utc_times s) =
      (if times_ok utc_times s then Some (if few_keys s then Some s else None) else None)"
proof -
  from assms have s: "sound_state s"
    using utc.disk.runs_sound [of G t p] utc.memory.runs_sound [of G t m]
    by (auto simp: sound_pool_def)
  show ?thesis
  proof (cases "times_ok utc_times s")
    case True
    with utc.decode_Marshal [OF s] utc.decode_MarshalIndent [OF s] show ?thesis
      by (simp add: Marshal_def MarshalIndent_def)
  qed (simp add: Marshal_def MarshalIndent_def)
qed

definition stored_demo :: persistedState where
  "stored_demo = \<lparr>Version = 1, Current = hash_a, Cursor = hash_a,
     Keys = fmupd hash_a (zero_key\<lparr>ExhaustedUntil := 63900000000000000123, Success := 7,
       LastAction := ''quota_exhausted''\<rparr>) fmempty\<rparr>"

lemma zero_time_ok: "time_MarshalUTC 0 \<noteq> None" "time_MarshalUTC 63900000000000000123 \<noteq> None"
  by code_simp+

lemma stored_demo_ok: "sound_state stored_demo" "few_keys stored_demo" "times_ok utc_times stored_demo"
proof -
  have "utf8_ok ''quota_exhausted''" by (rule utf8_ok_plain) code_simp
  then show "sound_state stored_demo" using hash_a_hash utf8_ok_zero
    by (auto simp: sound_state_def sound_keys_def stored_demo_def key_texts_def fmpred_iff)
qed (use zero_time_ok in \<open>auto simp: stored_demo_def few_keys_def times_ok_def key_times_def
    zero_key_def zero_class_def mk_class_def utc_times_def fcard.rep_eq fmpred_iff\<close>)

text \<open>
  C33: What is read is checked: a state that \<open>decodeState\<close> accepts has the schema version 1,
  at most 10000 keys, and only fingerprints (64 lower-case hexadecimal digits) as IDs.
\<close>

theorem decoded_state_checked:
  assumes "decodeState T b = Some s"
  shows "Version s = 1 \<and> fcard (fmdom (Keys s)) \<le> 10000 \<and> fBall (fmdom (Keys s)) hashID
    \<and> (Current s = [] \<or> hashID (Current s)) \<and> (Cursor s = [] \<or> hashID (Cursor s))"
  using assms
  by (auto simp: decodeState_def state_of_json_def check_state_def Let_def
      split: option.splits if_splits)

theorem decoded_state_checked_witness: "Version stored_demo = 1 \<and> hashID (Current stored_demo)"
  using decoded_state_checked [of utc_times "compact (state_json utc_times stored_demo)" stored_demo]
    utc.decode_Marshal [OF stored_demo_ok(1)] stored_demo_ok(2,3)
  by (auto simp: Marshal_def stored_demo_def hash_a_def)

text \<open>
  The text \<open>null\<close>, like a text of an empty object, is accepted as the empty state.
\<close>

theorem null_state_is_empty:
  "decodeState T ''null'' = Some emptyState \<and> decodeState T ''{}'' = Some emptyState"
proof -
  have "json_unmarshal ''null'' = Some JNull" "json_unmarshal ''{}'' = Some (JObj [])"
    using json_unmarshal_compact [of JNull] json_unmarshal_compact [of "JObj []"]
    by (simp_all add: compact_def max_nesting_def)
  moreover have "check_state raw_empty = Some emptyState"
    by (simp add: check_state_def raw_empty_def emptyState_def fcard.rep_eq)
  ultimately show ?thesis by (simp add: decodeState_def state_of_json_def)
qed

section \<open>Changes and restarts\<close>

text \<open>Every operation that writes ends in a save of the pool it leaves.\<close>

lemma Observe_saves:
  assumes "wf_pool p" "attributed p r = Some (h, k)" "Observe M G now r p = (res, q)"
  shows "\<exists>z. saved M z = (res, q) \<and> wf_pool z \<and> p_store z = p_store p"
proof (cases "rec_Failed r \<and> \<not> stale_record k r \<and> \<not> observed_at now r < LastFailureAt k
    \<and> switches now (outcome_class G now r p)")
  case True
  then obtain p1 where a: "advance h now (put_key h (fail_key (p_cfg p) now (observed_at now r)
      (outcome_class G now r p) (k\<lparr>Failed := Failed k + 1\<rparr>)) p) = (Ok (), p1)"
    and s: "saved M p1 = (res, q)"
    using Observe_decisive [OF assms(1,2) _ _ _ _ assms(3)] by metis
  from advance_spec [OF wf_pool_put_key [OF assms(1)] a] s show ?thesis by auto
next
  case False
  then obtain k' where "saved M (put_key h k' p) = (res, q)"
    using Observe_quiet [OF assms(3,2)] by metis
  with wf_pool_put_key [OF assms(1)] show ?thesis by fastforce
qed

lemma Resume_saves:
  assumes "wf_pool p" "Resume M now label confirm p = (r, q)"
  shows "(\<exists>z. saved M z = (r, q) \<and> wf_pool z \<and> p_store z = p_store p) \<or> r \<noteq> Ok () \<and> q = p"
proof -
  consider "r \<noteq> Ok ()" "q = p" | h k where "saved M (put_key h k p) = (r, q)"
    using assms(2) by (auto simp: Resume_def split: if_splits option.splits)
  then show ?thesis
  proof cases
    case (2 h k)
    with wf_pool_put_key [OF assms(1)] show ?thesis by (intro disjI1 exI [of _ "put_key h k p"]) simp
  qed simp
qed

lemma Reconfigure_saves:
  assumes "wf_pool p" "Reconfigure M now cfg p = (r, q)"
  shows "(\<exists>z. saved M z = (r, q) \<and> wf_pool z \<and> p_store z = p_store p) \<or> r \<noteq> Ok () \<and> q = p"
proof -
  let ?p1 = "(installAccountsLocked cfg p)\<lparr>p_fault := []\<rparr>"
  have ok: "keys_ok ?p1" "auth_ok ?p1"
    using keys_ok_install [of cfg p] auth_ok_install [of cfg p]
    by (simp_all add: keys_ok_def auth_ok_def key_of_def)
  then have wf0: "wf_pool (set_current [] ?p1)"
    by (simp add: wf_pool_def auth_ok_def current_ok_def)
  then have ok0: "keys_ok (set_current [] ?p1)" by (rule wf_poolD)
  consider "r \<noteq> Ok ()" "q = p"
    | r2 p2 where "chooseLocked (set_current [] ?p1) (Cursor (p_state ?p1)) now = (r2, p2)"
      "saved M p2 = (r, q)"
    | "accountLocked ?p1 (Current (p_state ?p1)) \<noteq> None" "saved M ?p1 = (r, q)"
    using assms(2) chooseLocked_wf [OF wf0]
    by (fastforce simp: Reconfigure_def Let_def split: if_splits prod.splits outcome.splits)
  then show ?thesis
  proof cases
    case (2 r2 p2)
    have "p_store p2 = p_store p" using 2(1)
      by (auto simp: chooseLocked_spec [OF ok0] split: if_splits option.splits)
    with chooseLocked_wf [OF wf0 2(1)] 2(2) show ?thesis by blast
  next
    case 3
    then have "wf_pool ?p1"
      using ok by (simp add: wf_pool_def current_ok_def accountLocked_has)
    with 3(2) show ?thesis by (intro disjI1 exI [of _ ?p1]) simp
  qed simp
qed

text \<open>
  C20: A change that was acknowledged survives a restart and a power failure. When the pool
  with the file store has taken an outcome, a resume or a new configuration without an
  error, then on the directory it leaves, and on what is left of it after a power failure,
  a pool that is opened with the same configuration continues with exactly the state the
  pool had; unless that state has more than 10000 keys or its text more than 8 MiB: no save
  checks these limits, and a store beyond them does not open again. The file
  \<open>state.json\<close> may be read, and the configurations name accounts by fingerprints.
\<close>

theorem acknowledged_changes_survive:
  assumes "named_reach (file_ops utc_times) G t p" "in_order fs_readable p"
    and "Observe (file_ops utc_times) G now r p = (Ok (), q) \<and> attributed p r \<noteq> None
       \<or> Resume (file_ops utc_times) now label confirm p = (Ok (), q)
       \<or> Reconfigure (file_ops utc_times) now cfg p = (Ok (), q) \<and> named_cfg cfg"
  shows "\<exists>st. p_store q = Some st
    \<and> reopens (file_ops utc_times) (file_fits utc_times) q st
    \<and> reopens (file_ops utc_times) (file_fits utc_times) q (power_failure st)"
proof -
  have wf: "wf_pool p" by (rule pool_reach_wf [OF named_reach_reach [OF assms(1)]])
  have so: "sound_pool p" by (rule utc.disk.runs_sound [OF assms(1)])
  have "(\<exists>z. saved (file_ops utc_times) z = (Ok (), q) \<and> wf_pool z \<and> p_store z = p_store p)
      \<and> sound_pool q"
    using assms(3)
  proof (elim disjE conjE)
    assume ob: "Observe (file_ops utc_times) G now r p = (Ok (), q)" and "attributed p r \<noteq> None"
    then obtain h k where "attributed p r = Some (h, k)" by auto
    from Observe_saves [OF wf this ob] Observe_sound [OF wf so ob] show ?thesis by blast
  next
    assume "Resume (file_ops utc_times) now label confirm p = (Ok (), q)"
    from Resume_saves [OF wf this] Resume_sound [OF wf so this] show ?thesis by blast
  next
    assume re: "Reconfigure (file_ops utc_times) now cfg p = (Ok (), q)" and "named_cfg cfg"
    from Reconfigure_saves [OF wf re] Reconfigure_sound [OF wf so this(2) re] show ?thesis by blast
  qed
  then obtain z where z: "saved (file_ops utc_times) z = (Ok (), q)" "wf_pool z"
    "p_store z = p_store p" "sound_pool z" using sound_saved by blast
  have "in_order fs_readable z" using assms(2) z(3) by (simp add: in_order_def)
  from utc.disk.saved_survives [OF z(1) this z(4,2)] show ?thesis by blast
qed

text \<open>What a refused save leaves.\<close>

lemma refused_saved_untorn:
  assumes "saved (file_ops T) z = (Fail e, q)" "p_store z = Some st"
  shows "\<exists>st'. p_store q = Some st' \<and> untorn T (p_state q) (fs_state st) (fs_state st')
    \<and> untorn T (p_state q) (fs_state (power_failure st)) (fs_state (power_failure st'))"
proof -
  from assms obtain st' where st': "file_Save T (p_state z) st = (False, st')" "p_store q = Some st'"
    by (auto simp: saved_def saveLocked_def file_ops_def Let_def split: prod.splits if_splits)
  from file_Save_untorn [OF st'(1)] st'(2) saved_frame(2) [OF assms(1)] show ?thesis by simp
qed

text \<open>
  C21: A save that is refused never tears the file. When the pool with the file store
  answers an outcome, a resume or a new configuration with an error, whichever system call
  failed and whatever it had done by then, \<open>state.json\<close> is what it was, or the complete
  new text with mode 0600; and so it is when the power fails afterwards.
\<close>

theorem refused_save_is_atomic:
  assumes "pool_reach (file_ops utc_times) G t p" "p_store p = Some st"
    and "Observe (file_ops utc_times) G now r p = (Fail e, q)
       \<or> Resume (file_ops utc_times) now label confirm p = (Fail e, q)
       \<or> Reconfigure (file_ops utc_times) now cfg p = (Fail e, q)"
  shows "\<exists>st'. p_store q = Some st' \<and> untorn utc_times (p_state q) (fs_state st) (fs_state st')
    \<and> untorn utc_times (p_state q) (fs_state (power_failure st)) (fs_state (power_failure st'))"
proof -
  have wf: "wf_pool p" by (rule pool_reach_wf [OF assms(1)])
  have ob: "\<exists>z. saved (file_ops utc_times) z = (Fail e, q) \<and> wf_pool z \<and> p_store z = p_store p"
    if f: "Observe (file_ops utc_times) G now r p = (Fail e, q)"
  proof -
    from f assms(2) obtain h k where "attributed p r = Some (h, k)"
      by (cases "attributed p r") (auto simp: Observe_not_attributed split: if_splits)
    from Observe_saves [OF wf this f] show ?thesis by blast
  qed
  have "(\<exists>z. saved (file_ops utc_times) z = (Fail e, q) \<and> wf_pool z \<and> p_store z = p_store p) \<or> q = p"
    using assms(3) ob Resume_saves [OF wf] Reconfigure_saves [OF wf] by blast
  then show ?thesis using assms(2) refused_saved_untorn by (auto simp: untorn_def)
qed

definition file_cfg :: configuration where
  "file_cfg = demo_cfg\<lparr>Accounts := [(demo_account hash_a)\<lparr>AuthID := ''id-a''\<rparr>]\<rparr>"

definition empty_dir :: "os_verdicts list \<Rightarrow> fileStore" where
  "empty_dir vs = \<lparr>fs_state = None, fs_disk = None, fs_readable = True, fs_lock = True, fs_close_ok = True,
     fs_future = vs\<rparr>"

definition file_pool :: "os_verdicts list \<Rightarrow> fileStore pool" where
  "file_pool vs = opened file_cfg (empty_dir vs) emptyState"

lemma file_pool_named: "named_reach (file_ops utc_times) G t (file_pool vs)"
proof (rule named_reach.opened_pool)
  show "named_cfg file_cfg"
    using hash_a_hash by (simp add: named_cfg_def file_cfg_def demo_account_def)
  show "newPool (file_ops utc_times) file_cfg (empty_dir vs) = Some (file_pool vs)"
    by (simp add: newPool_opened file_ops_def file_Load_def file_pool_def empty_dir_def emptyState_def)
qed

lemma file_pool_order: "in_order fs_readable (file_pool vs)"
  by (simp add: in_order_def file_pool_def empty_dir_def)

definition file_outcome :: usageRecord where
  "file_outcome = demo_outcome ''id-a'' 63900000000000000000 False 200 []"

text \<open>The state after that outcome, whatever the operating system answers to the save.\<close>

definition file_state :: persistedState where
  "file_state = emptyState\<lparr>Keys := fmupd hash_a
     (zero_key\<lparr>Success := 1, LastSuccessAt := 63900000000000000000\<rparr>) fmempty\<rparr>"

lemma file_pool_eval:
  "attributed (file_pool vs) file_outcome = Some (hash_a, zero_key)"
  "Keys (p_state (file_pool vs)) = fmupd hash_a zero_key fmempty"
  "Current (p_state (file_pool vs)) = []" "Cursor (p_state (file_pool vs)) = []"
  "Version (p_state (file_pool vs)) = 1"
  by (simp_all add: attributed_def file_pool_def opened_def installAccountsLocked_def file_cfg_def
      demo_cfg_def demo_account_def file_outcome_def demo_outcome_def empty_dir_def emptyState_def
      has_account_def key_of_def Let_def)

definition file_after :: "os_verdicts list \<Rightarrow> fileStore pool" where
  "file_after vs = put_key hash_a (record_success 63900000000000000000 zero_key) (file_pool vs)"

lemma file_observe:
  "Observe M G 63900000000000000000 file_outcome (file_pool vs) = saved M (file_after vs)"
proof -
  have "\<not> rec_Failed file_outcome" "observed_at 63900000000000000000 file_outcome = 63900000000000000000"
    by code_simp+
  then show ?thesis by (simp add: Observe_attributed [OF file_pool_eval(1)] file_after_def)
qed

lemma file_state_after: "p_state (file_after vs) = file_state"
proof -
  have "record_success 63900000000000000000 zero_key =
      zero_key\<lparr>Success := 1, LastSuccessAt := 63900000000000000000\<rparr>"
    by (simp add: record_success_def zero_key_def Let_def)
  then show ?thesis
    by (intro persistedState.equality)
      (simp_all add: file_after_def file_state_def emptyState_def file_pool_eval)
qed

lemma file_state_times: "times_ok utc_times file_state"
proof -
  have "time_MarshalUTC 0 \<noteq> None" "time_MarshalUTC 63900000000000000000 \<noteq> None" by code_simp+
  then show ?thesis
    by (auto simp: file_state_def emptyState_def times_ok_def key_times_def zero_key_def zero_class_def
        mk_class_def utc_times_def fmpred_iff)
qed

lemma file_state_few: "few_keys file_state"
  by (simp add: file_state_def emptyState_def few_keys_def fcard.rep_eq)

lemma file_state_length: "length (indented (state_json utc_times file_state)) \<le> 2000"
  by code_simp

lemma file_state_fits: "file_fits utc_times file_state"
  using file_state_few file_state_length by (simp add: file_fits_def max_state_def)

text \<open>What the file store answers: the acknowledgement, unless a system call is refused.\<close>

lemma file_after_store: "p_store (file_after vs) = Some (empty_dir vs)"
  by (simp add: file_after_def file_pool_def)

lemma file_saved:
  "fst (saved (file_ops utc_times) (file_after [])) = Ok ()"
  "fst (saved (file_ops utc_times) (file_after [all_ok\<lparr>ok_dirsync := False\<rparr>])) = Fail ErrState"
proof -
  have "MarshalIndent utc_times file_state \<noteq> None"
    using file_state_times by (simp add: MarshalIndent_def)
  then show "fst (saved (file_ops utc_times) (file_after [])) = Ok ()"
    "fst (saved (file_ops utc_times) (file_after [all_ok\<lparr>ok_dirsync := False\<rparr>])) = Fail ErrState"
    by (auto simp: file_after_store saved_def saveLocked_def file_ops_def file_Save_def file_state_after
        write_steps_def CreateTemp_def Chmod_def Write_def Sync_def CloseTemp_def Rename_def
        SyncDir_def all_ok_def empty_dir_def Let_def split: prod.splits)
qed

definition file_kept :: "os_verdicts list \<Rightarrow> fileStore pool" where
  "file_kept vs = snd (saved (file_ops utc_times) (file_after vs))"

lemma file_kept_saved:
  "saved (file_ops utc_times) (file_after []) = (Ok (), file_kept [])"
  "saved (file_ops utc_times) (file_after [all_ok\<lparr>ok_dirsync := False\<rparr>]) =
     (Fail ErrState, file_kept [all_ok\<lparr>ok_dirsync := False\<rparr>])"
  using file_saved by (simp_all add: file_kept_def prod_eq_iff)

lemma file_kept_simps:
  "p_state (file_kept vs) = file_state" "p_cfg (file_kept vs) = file_cfg"
proof -
  obtain r where "saved (file_ops utc_times) (file_after vs) = (r, file_kept vs)"
    unfolding file_kept_def by (metis prod.collapse)
  from saved_frame(1,2) [OF this] show "p_state (file_kept vs) = file_state" "p_cfg (file_kept vs) = file_cfg"
    using file_state_after by (simp_all add: file_after_def file_pool_def)
qed

lemma file_kept_named: "named_reach (file_ops utc_times) demo_lib 63900000000000000000 (file_kept [])"
proof (rule named_reach.event [OF file_pool_named [where t = 0]])
  show "pool_step (file_ops utc_times) demo_lib 63900000000000000000 (EObserve file_outcome) (file_pool [])
      = (False, file_kept [])"
    using file_observe file_kept_saved(1) by simp
qed simp_all

theorem state_text_round_trip_witness:
  "map_option (decodeState utc_times) (Marshal utc_times file_state) = Some (Some file_state)"
  using state_text_round_trip [OF disjI1 [OF conjI [OF file_kept_named refl]]]
    file_state_times file_state_few
  by (simp add: file_kept_simps)

theorem acknowledged_changes_survive_witness:
  "\<exists>st. p_store (file_kept []) = Some st
    \<and> map_option p_state (newPool (file_ops utc_times) file_cfg st) = Some file_state
    \<and> map_option p_state (newPool (file_ops utc_times) file_cfg (power_failure st)) = Some file_state"
proof -
  have "Observe (file_ops utc_times) demo_lib 63900000000000000000 file_outcome (file_pool [])
      = (Ok (), file_kept [])" using file_observe file_kept_saved(1) by simp
  moreover have "attributed (file_pool []) file_outcome \<noteq> None" using file_pool_eval(1) by simp
  ultimately have "\<exists>st. p_store (file_kept []) = Some st
    \<and> reopens (file_ops utc_times) (file_fits utc_times) (file_kept []) st
    \<and> reopens (file_ops utc_times) (file_fits utc_times) (file_kept []) (power_failure st)"
    by (intro acknowledged_changes_survive [OF file_pool_named file_pool_order, where G = demo_lib
          and vs1 = "[]" and r = file_outcome and now = 63900000000000000000])
      simp_all
  then show ?thesis by (simp add: reopens_def file_kept_simps file_state_fits)
qed

theorem refused_save_is_atomic_witness:
  "\<exists>st. p_store (file_kept [all_ok\<lparr>ok_dirsync := False\<rparr>]) = Some st
    \<and> untorn utc_times file_state None (fs_state st)
    \<and> untorn utc_times file_state None (fs_state (power_failure st))"
proof -
  let ?vs = "[all_ok\<lparr>ok_dirsync := False\<rparr>]"
  have "Observe (file_ops utc_times) demo_lib 63900000000000000000 file_outcome (file_pool ?vs)
      = (Fail ErrState, file_kept ?vs)" using file_observe file_kept_saved(2) by simp
  then have "\<exists>st. p_store (file_kept ?vs) = Some st
      \<and> untorn utc_times (p_state (file_kept ?vs)) (fs_state (empty_dir ?vs)) (fs_state st)
      \<and> untorn utc_times (p_state (file_kept ?vs)) (fs_state (power_failure (empty_dir ?vs)))
          (fs_state (power_failure st))"
    by (intro refused_save_is_atomic [OF named_reach_reach [OF file_pool_named], where G = demo_lib])
      (auto simp: file_pool_def)
  then show ?thesis by (simp add: file_kept_simps empty_dir_def power_failure_def)
qed

end
