(* ===== verification/Classifier_Props.thy ===== *)
theory Classifier_Props
  imports Classifier_Facts Zen_Examples
begin

text \<open>
  Properties of the classifier (\<open>src/classifier.go\<close>): what the status of a response
  decides, the bounds of every deadline, which of the reset signals wins, and that
  nothing of a response is copied into the classification.
\<close>

section \<open>The reset signals of a response\<close>

text \<open>
  The reference for \<open>withReset\<close>: all valid signals, in the order in which they are
  looked at. The message of a body counts for quota failures only.
\<close>

fun signal_list :: "time option \<Rightarrow> time list" where
  "signal_list None = []"
| "signal_list (Some t) = [t]"

definition key_signals :: "(any_val \<Rightarrow> time option) \<Rightarrow> json_object \<Rightarrow> string list \<Rightarrow> time list" where
  "key_signals reset m ks =
     List.map_filter (\<lambda>k. Option.bind (json_lookup m k) (\<lambda>v. reset (any_of_json v))) ks"

definition message_signal :: "golib \<Rightarrow> string \<Rightarrow> time \<Rightarrow> json_object \<Rightarrow> time list" where
  "message_signal G kind now m =
     (let s = text_of (json_lookup m ''message'')
      in if kind = ''quota'' \<and> s \<noteq> [] then signal_list (messageReset G s now) else [])"

definition scope_signals :: "golib \<Rightarrow> string \<Rightarrow> time \<Rightarrow> json_object \<Rightarrow> time list" where
  "scope_signals G kind now m =
     key_signals (\<lambda>v. relativeReset v now) m duration_keys
     @ key_signals (\<lambda>v. absoluteReset G v now) m timestamp_keys
     @ message_signal G kind now m"

definition header_signal :: "golib \<Rightarrow> header \<Rightarrow> time \<Rightarrow> time list" where
  "header_signal G h now =
     (let s = headerValue h ''Retry-After''
      in if s = [] then []
         else signal_list (case relativeReset (AString s) now of
                             Some t \<Rightarrow> Some t | None \<Rightarrow> absoluteReset G (AString s) now))"

definition reset_signals ::
  "golib \<Rightarrow> string \<Rightarrow> header \<Rightarrow> json_object \<Rightarrow> time \<Rightarrow> time list" where
  "reset_signals G kind h doc now =
     header_signal G h now @ concat (map (scope_signals G kind now) (reset_scopes doc))"

definition latest :: "time list \<Rightarrow> time" where
  "latest ts = Max (set (0 # ts))"

lemma latest_fold: "latest ts = fold max ts 0"
  by (simp only: latest_def Max.set_eq_fold)

lemma Until_add_reset: "Until (add_reset t src c) = fold max (signal_list t) (Until c)"
  by (cases t) (auto simp: add_reset_def max_def)

lemma Until_probe_key:
  "Until (fst (probe_key reset src m k acc)) =
     fold max (signal_list (Option.bind (json_lookup m k) (\<lambda>v. reset (any_of_json v))))
       (Until (fst acc))"
  by (cases "json_lookup m k") (simp_all add: probe_key_def Until_add_reset)

lemma Until_probe_keys:
  "Until (fst (fold (probe_key reset src m) ks acc)) =
     fold max (key_signals reset m ks) (Until (fst acc))"
proof (induction ks arbitrary: acc)
  case (Cons k ks)
  then show ?case
    by (simp add: Until_probe_key key_signals_def map_filter_simps split: option.split)
qed (simp add: key_signals_def map_filter_simps)

lemma Kind_probe_keys [simp]:
  "Kind (fst (fold (probe_key reset src m) ks acc)) = Kind (fst acc)"
proof (induction ks arbitrary: acc)
  case (Cons k ks)
  then show ?case
    by (simp add: probe_key_def add_reset_def split: option.split)
qed simp

lemma Kind_probe_scope [simp]: "Kind (fst (probe_scope G now m acc)) = Kind (fst acc)"
  by (rule later_reset_Kind) (rule probe_scope_later)

lemma Until_probe_scope:
  "Until (fst (probe_scope G now m acc)) =
     fold max (scope_signals G (Kind (fst acc)) now m) (Until (fst acc))"
  by (simp add: probe_scope_def scope_signals_def message_signal_def Let_def Until_add_reset
      Until_probe_keys)

lemma Until_probe_scopes:
  "Until (fst (fold (probe_scope G now) ms acc)) =
     fold max (concat (map (scope_signals G (Kind (fst acc)) now) ms)) (Until (fst acc))"
  by (induction ms arbitrary: acc) (simp_all add: Until_probe_scope)

lemma Until_probe_header:
  "Until (fst (probe_header G h now c)) = fold max (header_signal G h now) (Until c)"
  by (simp add: probe_header_def header_signal_def Let_def Until_add_reset)

lemma Kind_probe_header [simp]: "Kind (fst (probe_header G h now c)) = Kind c"
  by (rule later_reset_Kind) (rule probe_header_later)

lemma Until_withReset:
  assumes "Until c = 0"
  shows "Until (withReset G c h doc now fb) =
    (let m = latest (reset_signals G (Kind c) h doc now) in if m = 0 \<and> 0 < fb then now + fb else m)"
  using assms
  by (simp add: withReset_def apply_fallback_def Let_def Until_probe_scopes Until_probe_header
      latest_fold reset_signals_def)

section \<open>The status decides\<close>

text \<open>
  C36: The status of a response decides what kind its classification can be. Success is
  exactly 2xx. Only 401, 402 and 429 can report a spent quota, and only with a readable
  JSON object as body; a rate limit is always a 429, an authentication failure a 401 or
  403, and a transient failure a 5xx or a transport failure (status 0).
\<close>

theorem status_bounds_the_kind:
  assumes "Kind (classify G status h body t fb) = k"
  shows "(k = ''success'' \<longleftrightarrow> 200 \<le> status \<and> status < 300)
    \<and> (k = ''quota'' \<longrightarrow> status \<in> {401, 402, 429} \<and> body_doc body \<noteq> [])
    \<and> (k = ''rate_limit'' \<longrightarrow> status = 429)
    \<and> (k = ''auth'' \<longrightarrow> status = 401 \<or> status = 403)
    \<and> (k = ''transient'' \<longrightarrow> 500 \<le> status \<or> status = 0)"
  using assms
  by (cases rule: classify_cases [of status G h body t fb])
    (auto simp: status_class_def split: if_splits)

text \<open>A response of 402 that says the credits are spent, and when to come back.\<close>

definition spent_body :: string where
  \<open>spent_body = ''{"error":{"type":"CreditsError","retry_after":"90s","metadata":{"reset_in":30}}}''\<close>

definition spent_headers :: header where
  "spent_headers = [(''retry-after'', [''45''])]"

lemma spent_class:
  "classify demo_lib 402 spent_headers spent_body 1000 500 =
     \<lparr>Kind = ''quota'', Reason = ''credits_exhausted'', Window = ''credit_balance'',
      Until = 90000001000, ResetSource = ''body_duration'', FallbackReason = []\<rparr>"
  by code_simp

theorem status_bounds_the_kind_witness:
  "(402::int) \<in> {401, 402, 429} \<and> body_doc spent_body \<noteq> []"
proof -
  have "Kind (classify demo_lib 402 spent_headers spent_body 1000 500) = ''quota''"
    by (simp add: spent_class)
  from status_bounds_the_kind [OF this] show ?thesis by simp
qed

section \<open>Deadlines\<close>

text \<open>
  C35: Every deadline is bounded. With a fallback cooldown of at most 366 days, a quota
  failure always has a deadline, and it lies between the failure and 366 days later,
  whatever the headers and the body say; the deadline of a rate limit, when a valid
  signal gives it one, lies in the same window.
\<close>

theorem deadlines_are_bounded:
  assumes "0 < fb" "fb \<le> max_window" "Kind (classify G status h body t fb) = k"
    and "Until (classify G status h body t fb) = u"
    and "k = ''quota'' \<or> k = ''rate_limit'' \<and> u \<noteq> 0"
  shows "t \<le> u \<and> u \<le> t + max_window"
proof (cases rule: classify_cases [of status G h body t fb])
  case (quota r w)
  show ?thesis
    by (rule withReset_cases [where c = "mk_class ''quota'' r w" and G = G and h = h
        and doc = "body_doc body" and now = t and fb = fb])
      (use quota assms in \<open>auto simp: in_window_def\<close>)
next
  case (rate r)
  show ?thesis
    by (rule withReset_cases [where c = "mk_class ''rate_limit'' r []" and G = G and h = h
        and doc = "body_doc body" and now = t and fb = 0])
      (use rate assms in \<open>auto simp: in_window_def\<close>)
qed (use assms in \<open>auto simp: status_class_def split: if_splits\<close>)

theorem deadlines_are_bounded_witness:
  "1000 \<le> (90000001000::time) \<and> 90000001000 \<le> 1000 + max_window"
  by (rule deadlines_are_bounded [of 500 demo_lib 402 spent_headers spent_body 1000 "''quota''"])
    (simp_all add: spent_class max_window_value)

text \<open>
  C34: The latest valid signal wins. The deadline of a quota failure is the latest of the
  valid signals in the \<open>Retry-After\<close> header and in the four places of the body that are
  searched, and only when there is none the observed time plus the fallback; a rate limit
  takes the same signals (less the message text) and has no fallback here.
\<close>

theorem latest_signal_wins:
  assumes "Kind (classify G status h body t fb) = k" "k = ''quota'' \<or> k = ''rate_limit''"
  shows "Until (classify G status h body t fb) =
    (let m = latest (reset_signals G k h (body_doc body) t)
     in if m = 0 \<and> k = ''quota'' \<and> 0 < fb then t + fb else m)"
proof (cases rule: classify_cases [of status G h body t fb])
  case (quota r w)
  with assms show ?thesis by (auto simp: Until_withReset Let_def)
next
  case (rate r)
  with assms show ?thesis by (auto simp: Until_withReset Let_def)
qed (use assms in \<open>auto simp: status_class_def split: if_splits\<close>)

theorem latest_signal_wins_witness:
  "latest (reset_signals demo_lib ''quota'' spent_headers (body_doc spent_body) 1000) = 90000001000"
proof -
  have "Kind (classify demo_lib 402 spent_headers spent_body 1000 500) = ''quota''"
    by (simp add: spent_class)
  from latest_signal_wins [OF this disjI1 [OF refl]] show ?thesis
    by (auto simp: spent_class Let_def split: if_splits)
qed

section \<open>Nothing of the response is kept\<close>

text \<open>
  C37: No text of a response is kept: every string of a classification is one of the
  words of a fixed list, so that neither a body, a header value nor a key echoed in an
  error can reach the state file, the status report or an error message.
\<close>

theorem classification_keeps_no_text:
  "set (class_strings (classify G status h body t fb)) \<subseteq> set class_words"
  by (rule classify_words)

end
