(* ===== verification/Zen_Wire.thy ===== *)
theory Zen_Wire
  imports Zen_Pool_Ops Zen_Store Go_Base64
begin

text \<open>
  The JSON that crosses the boundary of the plugin: the requests of \<open>src/pool.go\<close>,
  \<open>src/dispatch.go\<close> and \<open>src/management.go\<close> as they are decoded, and the envelopes,
  answers, errors and reports as they are encoded.
\<close>

section \<open>Reading values of other types\<close>

fun read_bool :: "bool \<Rightarrow> json \<Rightarrow> bool option" where
  "read_bool old JNull = Some old"
| "read_bool old (JBool b) = Some b"
| "read_bool old _ = None"

text \<open>An unsigned number below a bound.\<close>

fun read_below :: "int \<Rightarrow> int \<Rightarrow> json \<Rightarrow> int option" where
  "read_below bound old JNull = Some old"
| "read_below bound old (JNum s) =
     (case parse_uint s of
        Some n \<Rightarrow> if n < bound then Some n else None
      | None \<Rightarrow> None)"
| "read_below bound old _ = None"

text \<open>
  An array is decoded into the slice the field has: its elements take over the old ones
  of the same index, and start from the zero value \<open>z\<close> after them. \<open>null\<close> is the nil slice.
\<close>

fun read_elems :: "('a \<Rightarrow> json \<Rightarrow> 'a option) \<Rightarrow> 'a \<Rightarrow> 'a list \<Rightarrow> json list \<Rightarrow> 'a list option" where
  "read_elems r z old [] = Some []"
| "read_elems r z old (v # vs) =
     (case r (case old of [] \<Rightarrow> z | x # _ \<Rightarrow> x) v of
        None \<Rightarrow> None
      | Some y \<Rightarrow> map_option (\<lambda>ys. y # ys) (read_elems r z (tl old) vs))"

fun read_slice :: "('a \<Rightarrow> json \<Rightarrow> 'a option) \<Rightarrow> 'a \<Rightarrow> 'a list \<Rightarrow> json \<Rightarrow> 'a list option" where
  "read_slice r z old JNull = Some []"
| "read_slice r z old (JArr vs) = read_elems r z old vs"
| "read_slice r z old _ = None"

text \<open>A \<open>[]byte\<close>: base64 text, or an array of numbers.\<close>

fun read_bytes :: "string \<Rightarrow> json \<Rightarrow> string option" where
  "read_bytes old (JStr _ s) = b64_decode s"
| "read_bytes old v =
     map_option (map char_of) (read_slice (read_below 256) 0 (map byte old) v)"

text \<open>An \<open>http.Header\<close>: every value is decoded on its own, the last duplicate wins.\<close>

type_synonym header_map = "(string, string list) fmap"

fun read_header_map :: "header_map \<Rightarrow> json \<Rightarrow> header_map option" where
  "read_header_map old JNull = Some fmempty"
| "read_header_map old (JObj ms) =
     read_members (\<lambda>m k v. map_option (\<lambda>vs. fmupd k vs m) (read_slice read_string [] [] v)) old ms"
| "read_header_map old _ = None"

text \<open>The header in the order in which a loop visits its keys.\<close>

definition header_of :: "(string fset \<Rightarrow> string list) \<Rightarrow> header_map \<Rightarrow> header" where
  "header_of order m = map (\<lambda>k. (k, the (fmlookup m k))) (order (fmdom m))"

section \<open>Requests\<close>

definition zero_candidate :: schedulerCandidate where
  "zero_candidate = \<lparr>cand_ID = [], cand_Provider = [], cand_Status = []\<rparr>"

text \<open>The attributes of a candidate are decoded and never looked at.\<close>

fun attributes_ok :: "json \<Rightarrow> bool" where
  "attributes_ok JNull \<longleftrightarrow> True"
| "attributes_ok (JObj ms) \<longleftrightarrow> list_all (\<lambda>(k, v). read_string [] v \<noteq> None) ms"
| "attributes_ok _ \<longleftrightarrow> False"

definition candidate_field :: "schedulerCandidate \<Rightarrow> string \<Rightarrow> json \<Rightarrow> schedulerCandidate option" where
  "candidate_field c k v =
     (if is_field ''ID'' k then map_option (\<lambda>x. c\<lparr>cand_ID := x\<rparr>) (read_string (cand_ID c) v)
      else if is_field ''Provider'' k
        then map_option (\<lambda>x. c\<lparr>cand_Provider := x\<rparr>) (read_string (cand_Provider c) v)
      else if is_field ''Status'' k
        then map_option (\<lambda>x. c\<lparr>cand_Status := x\<rparr>) (read_string (cand_Status c) v)
      else if is_field ''Attributes'' k then (if attributes_ok v then Some c else None)
      else Some c)"

definition zero_request :: schedulerRequest where
  "zero_request = \<lparr>req_Provider = [], req_Providers = [], req_Model = [], req_Candidates = []\<rparr>"

definition request_field :: "schedulerRequest \<Rightarrow> string \<Rightarrow> json \<Rightarrow> schedulerRequest option" where
  "request_field r k v =
     (if is_field ''Provider'' k
        then map_option (\<lambda>x. r\<lparr>req_Provider := x\<rparr>) (read_string (req_Provider r) v)
      else if is_field ''Providers'' k
        then map_option (\<lambda>x. r\<lparr>req_Providers := x\<rparr>)
               (read_slice read_string [] (req_Providers r) v)
      else if is_field ''Model'' k
        then map_option (\<lambda>x. r\<lparr>req_Model := x\<rparr>) (read_string (req_Model r) v)
      else if is_field ''Candidates'' k
        then map_option (\<lambda>x. r\<lparr>req_Candidates := x\<rparr>)
               (read_slice (read_struct candidate_field) zero_candidate (req_Candidates r) v)
      else Some r)"

definition decode_request :: "string \<Rightarrow> schedulerRequest option" where
  "decode_request raw =
     Option.bind (json_unmarshal raw) (read_struct request_field zero_request)"

definition zero_record :: usageRecord where
  "zero_record =
     \<lparr>rec_Provider = [], rec_BaseURL = [], rec_AuthID = [], RequestedAt = 0, Latency = 0,
      rec_Failed = False, StatusCode = 0, Body = [], ResponseHeaders = []\<rparr>"

definition failure_field :: "usageRecord \<Rightarrow> string \<Rightarrow> json \<Rightarrow> usageRecord option" where
  "failure_field r k v =
     (if is_field ''StatusCode'' k
        then map_option (\<lambda>x. r\<lparr>StatusCode := x\<rparr>) (read_int (StatusCode r) v)
      else if is_field ''Body'' k then map_option (\<lambda>x. r\<lparr>Body := x\<rparr>) (read_string (Body r) v)
      else Some r)"

definition record_field ::
  "timelib \<Rightarrow> usageRecord \<times> header_map \<Rightarrow> string \<Rightarrow> json \<Rightarrow> (usageRecord \<times> header_map) option"
where
  "record_field T = (\<lambda>(r, h) k v.
     if is_field ''ResponseHeaders'' k
       then map_option (\<lambda>x. (r, x)) (read_header_map h v)
     else map_option (\<lambda>x. (x, h))
      (if is_field ''Provider'' k
         then map_option (\<lambda>x. r\<lparr>rec_Provider := x\<rparr>) (read_string (rec_Provider r) v)
       else if is_field ''BaseURL'' k
         then map_option (\<lambda>x. r\<lparr>rec_BaseURL := x\<rparr>) (read_string (rec_BaseURL r) v)
       else if is_field ''AuthID'' k
         then map_option (\<lambda>x. r\<lparr>rec_AuthID := x\<rparr>) (read_string (rec_AuthID r) v)
       else if is_field ''RequestedAt'' k
         then map_option (\<lambda>x. r\<lparr>RequestedAt := x\<rparr>) (read_time T (RequestedAt r) v)
       else if is_field ''Latency'' k
         then map_option (\<lambda>x. r\<lparr>Latency := x\<rparr>) (read_int (Latency r) v)
       else if is_field ''Failed'' k
         then map_option (\<lambda>x. r\<lparr>rec_Failed := x\<rparr>) (read_bool (rec_Failed r) v)
       else if is_field ''Failure'' k then read_struct failure_field r v
       else Some r))"

definition decode_record ::
  "timelib \<Rightarrow> (string fset \<Rightarrow> string list) \<Rightarrow> string \<Rightarrow> usageRecord option" where
  "decode_record T order raw =
     map_option (\<lambda>(r, h). r\<lparr>ResponseHeaders := header_of order h\<rparr>)
       (Option.bind (json_unmarshal raw) (read_struct (record_field T) (zero_record, fmempty)))"

text \<open>The lifecycle request: the YAML of the plugin and the version of the schema.\<close>

definition lifecycle_field :: "string \<times> int \<Rightarrow> string \<Rightarrow> json \<Rightarrow> (string \<times> int) option" where
  "lifecycle_field = (\<lambda>(y, n) k v.
     if is_field ''config_yaml'' k then map_option (\<lambda>x. (x, n)) (read_bytes y v)
     else if is_field ''schema_version'' k
       then map_option (\<lambda>x. (y, x)) (read_below (2 ^ 32) n v)
     else Some (y, n))"

definition decode_lifecycle :: "string \<Rightarrow> (string \<times> int) option" where
  "decode_lifecycle raw = Option.bind (json_unmarshal raw) (read_struct lifecycle_field ([], 0))"

definition base_field :: "string \<Rightarrow> string \<Rightarrow> json \<Rightarrow> string option" where
  "base_field b k v = (if is_field ''BasePath'' k then read_string b v else Some b)"

definition decode_base :: "string \<Rightarrow> string option" where
  "decode_base raw = Option.bind (json_unmarshal raw) (read_struct base_field [])"

text \<open>The event before a request: the two names of the model and the headers.\<close>

definition event_field ::
  "string \<times> string \<times> header_map \<Rightarrow> string \<Rightarrow> json \<Rightarrow> (string \<times> string \<times> header_map) option" where
  "event_field = (\<lambda>(m, q, h) k v.
     if is_field ''Model'' k then map_option (\<lambda>x. (x, q, h)) (read_string m v)
     else if is_field ''RequestedModel'' k then map_option (\<lambda>x. (m, x, h)) (read_string q v)
     else if is_field ''Headers'' k then map_option (\<lambda>x. (m, q, x)) (read_header_map h v)
     else Some (m, q, h))"

definition decode_event :: "string \<Rightarrow> (string \<times> string \<times> header_map) option" where
  "decode_event raw =
     Option.bind (json_unmarshal raw) (read_struct event_field ([], [], fmempty))"

text \<open>The management request: method, path and body.\<close>

definition management_field ::
  "string \<times> string \<times> string \<Rightarrow> string \<Rightarrow> json \<Rightarrow> (string \<times> string \<times> string) option" where
  "management_field = (\<lambda>(m, p, b) k v.
     if is_field ''Method'' k then map_option (\<lambda>x. (x, p, b)) (read_string m v)
     else if is_field ''Path'' k then map_option (\<lambda>x. (m, x, b)) (read_string p v)
     else if is_field ''Body'' k then map_option (\<lambda>x. (m, p, x)) (read_bytes b v)
     else Some (m, p, b))"

definition decode_management :: "string \<Rightarrow> (string \<times> string \<times> string) option" where
  "decode_management raw =
     Option.bind (json_unmarshal raw) (read_struct management_field ([], [], []))"

text \<open>
  The body of a resume: one JSON value and nothing after it, and no other members than
  the two (\<open>DisallowUnknownFields\<close>).
\<close>

definition resume_field :: "string \<times> string \<Rightarrow> string \<Rightarrow> json \<Rightarrow> (string \<times> string) option" where
  "resume_field = (\<lambda>(a, c) k v.
     if is_field ''account'' k then map_option (\<lambda>x. (x, c)) (read_string a v)
     else if is_field ''confirm'' k then map_option (\<lambda>x. (a, x)) (read_string c v)
     else None)"

definition decode_resume :: "string \<Rightarrow> (string \<times> string) option" where
  "decode_resume body =
     (case json_decode_first body of
        None \<Rightarrow> None
      | Some (j, rest) \<Rightarrow>
          (case read_struct resume_field ([], []) j of
             None \<Rightarrow> None
           | Some r \<Rightarrow> if skip_space rest = [] then Some r else None))"

section \<open>Envelopes\<close>

definition json_bytes :: "string \<Rightarrow> json" where
  "json_bytes b = json_quote (b64_encode b)"

definition json_nat :: "int \<Rightarrow> json" where
  "json_nat n = JNum (show_int n)"

definition okEnvelope :: "json \<Rightarrow> string" where
  "okEnvelope v = compact (JObj [(''ok'', JBool True), (''result'', v)])"

definition errorEnvelope :: "string \<Rightarrow> string \<Rightarrow> int \<Rightarrow> string" where
  "errorEnvelope code message status =
     compact (JObj [(''ok'', JBool False),
       (''error'', JObj [(''code'', json_quote code), (''message'', json_quote message),
          (''retryable'', JBool False), (''http_status'', json_nat status)])])"

section \<open>Answers\<close>

definition response_json :: "schedulerResponse \<Rightarrow> json" where
  "response_json r =
     JObj ((''Handled'', JBool (Handled r)) # opt_member ''AuthID'' (resp_AuthID r))"

text \<open>\<open>unavailableError.Error()\<close>; an instant that cannot be written gives no text at all.\<close>

definition unavailable_message :: string where
  "unavailable_message =
     ''OpenCode Zen pool unavailable; no unconfirmed failover was performed''"

definition unavailable_text :: "timelib \<Rightarrow> unavailableError \<Rightarrow> string" where
  "unavailable_text T e =
     (if time_Marshal T (RetryAt e) = None then []
      else compact (JObj [(''error'', JObj
        [(''code'', json_quote ''zen_pool_unavailable''),
         (''message'', json_quote unavailable_message),
         (''reason'', json_quote (err_Reason e)), (''eligible'', json_nat (int (err_Eligible e))),
         (''exhausted'', json_nat (int (err_Exhausted e))),
         (''suspended'', json_nat (int (err_Suspended e))),
         (''unavailable'', json_nat (int (err_Unavailable e))),
         (''retry_at'', time_json T (RetryAt e))])]))"

definition state_error_text :: string where
  "state_error_text = ''Zen pool state is unavailable or invalid (details withheld)''"

text \<open>\<open>Error()\<close>; the text of an error of the operating system is \<open>os_text\<close>.\<close>

fun error_text :: "timelib \<Rightarrow> string \<Rightarrow> pool_error \<Rightarrow> string" where
  "error_text T os_text ErrState = state_error_text"
| "error_text T os_text ErrClose = os_text"
| "error_text T os_text (Unavailable e) = unavailable_text T e"
| "error_text T os_text (ErrText s) = s"

section \<open>The status report\<close>

definition account_status_json :: "timelib \<Rightarrow> accountStatus \<Rightarrow> json" where
  "account_status_json T s =
     JObj ([(''label'', json_quote (st_Label s)), (''current'', JBool (st_Current s)),
            (''proxy_present'', JBool (st_ProxyPresent s)),
            (''proxy_label'', json_quote (st_ProxyLabel s)), (''state'', json_quote (st_State s)),
            (''cooldown_until'', time_json T (CooldownUntil s)),
            (''suspended_until'', time_json T (st_SuspendedUntil s)),
            (''rate_limited_until'', time_json T (st_RateLimitedUntil s)),
            (''last_failure'', class_json T (st_LastFailure s)),
            (''last_failure_at'', time_json T (st_LastFailureAt s)),
            (''last_success_at'', time_json T (st_LastSuccessAt s))]
       @ opt_member ''last_action'' (st_LastAction s)
       @ [(''success'', JNum (show_uint (uint (st_Success s)))),
          (''failed'', JNum (show_uint (uint (st_Failed s))))])"

definition status_json :: "timelib \<Rightarrow> poolStatus \<Rightarrow> json" where
  "status_json T s =
     JObj ([(''plugin_id'', json_quote (PluginID s)), (''version'', json_quote (st_Version s))]
       @ opt_member ''current'' (CurrentLabel s)
       @ [(''mode'', json_quote (Mode s)),
          (''accounts'', JArr (map (account_status_json T) (st_Accounts s))),
          (''storage_ok'', JBool (StorageOK s))]
       @ opt_member ''fault'' (Fault s)
       @ [(''host_cooling_disabled'', JBool (st_HostCoolingDisabled s)),
          (''observations'', json_quote (Observations s))])"

definition status_times :: "accountStatus \<Rightarrow> time list" where
  "status_times s =
     [CooldownUntil s, st_SuspendedUntil s, st_RateLimitedUntil s, Until (st_LastFailure s),
      st_LastFailureAt s, st_LastSuccessAt s]"

text \<open>\<open>json.Marshal\<close> of a report fails when one of its instants cannot be written.\<close>

definition Marshal_status :: "timelib \<Rightarrow> poolStatus \<Rightarrow> string option" where
  "Marshal_status T s =
     (if list_all (\<lambda>a. list_all (\<lambda>t. time_Marshal T t \<noteq> None) (status_times a)) (st_Accounts s)
      then Some (compact (status_json T s)) else None)"

end
