(* ===== verification/Zen_Digest.thy ===== *)
theory Zen_Digest
  imports Zen_Account Zen_State Go_Sha256
begin

text \<open>
  The names that \<open>src/config.go\<close> makes of secrets with SHA-256: the fingerprint of a key,
  the auth ID the host gives to an entry, and the label of a proxy. The digest is an
  argument \<open>H\<close> of the definitions; \<open>Sum256\<close> is the function of the standard library.
\<close>

section \<open>fingerprint\<close>

definition fingerprint :: "(string \<Rightarrow> string) \<Rightarrow> string \<Rightarrow> string" where
  "fingerprint H s = EncodeToString (H s)"

section \<open>nextAuthID\<close>

text \<open>What is written to the digest: the kind, then every part after a zero byte.\<close>

definition auth_input :: "string \<Rightarrow> string list \<Rightarrow> string" where
  "auth_input kind parts = kind @ concat (map (\<lambda>p. CHR 0x00 # TrimSpace p) parts)"

definition auth_base :: "(string \<Rightarrow> string) \<Rightarrow> string \<Rightarrow> string list \<Rightarrow> string" where
  "auth_base H kind parts =
     kind @ CHR '':'' # take 12 (EncodeToString (H (auth_input kind parts)))"

type_synonym id_counts = "(string, int) fmap"

definition count_of :: "id_counts \<Rightarrow> string \<Rightarrow> int" where
  "count_of c b = (case fmlookup c b of Some n \<Rightarrow> n | None \<Rightarrow> 0)"

definition numbered :: "string \<Rightarrow> int \<Rightarrow> string" where
  "numbered b n = (if 0 < n then b @ CHR ''-'' # show_int n else b)"

definition nextAuthID ::
  "(string \<Rightarrow> string) \<Rightarrow> id_counts \<Rightarrow> string \<Rightarrow> string list \<Rightarrow> string \<times> id_counts" where
  "nextAuthID H counts kind parts =
     (let b = auth_base H kind parts; n = count_of counts b
      in (numbered b n, fmupd b (n + 1) counts))"

section \<open>safeProxy\<close>

text \<open>What \<open>url.Parse\<close> makes of a text, as far as the plugin looks at it.\<close>

record url =
  Scheme :: string
  Host :: string
  Hostname :: string
  Path :: string
  RawQuery :: string
  Fragment :: string

definition proxy_schemes :: "string list" where
  "proxy_schemes = [''http'', ''https'', ''socks5'', ''socks5h'']"

definition safeProxy ::
  "golib \<Rightarrow> (string \<Rightarrow> string) \<Rightarrow> (string \<Rightarrow> url option) \<Rightarrow> string \<Rightarrow> (bool \<times> string) option"
where
  "safeProxy G H url_Parse raw =
     (if raw = [] then Some (False, ''direct-or-host-default'')
      else if raw = ''direct'' then Some (False, ''direct'')
      else case url_Parse raw of
        None \<Rightarrow> None
      | Some u \<Rightarrow>
          if Hostname u = [] \<or> RawQuery u \<noteq> [] \<or> Fragment u \<noteq> [] \<or> (Path u \<noteq> [] \<and> Path u \<noteq> ''/'')
          then None
          else if \<not> List.member proxy_schemes (ToLower (uni_lower G) (Scheme u)) then None
          else Some (True, ToLower (uni_lower G) (Scheme u) @ '':proxy-''
                       @ take 12 (fingerprint H (ToLower (uni_lower G) (Host u)))))"

section \<open>The contract of a digest\<close>

lemma hex_char_lower:
  assumes "0 \<le> n" "n < 16"
  shows "hex_lower (hex_char n)"
proof -
  have "byte (hex_char n) = (if n < 10 then 48 + n else 87 + n)"
    using assms by (simp add: byte_def hex_char_def of_char_of take_bit_eq_mod)
  with assms show ?thesis by (auto simp: hex_lower_def is_digit_def byte_def)
qed

lemma EncodeToString_lower: "list_all hex_lower (EncodeToString s)"
proof (induction s)
  case (Cons c s)
  have "0 \<le> byte c div 16" "byte c div 16 < 16" "0 \<le> byte c mod 16" "byte c mod 16 < 16"
    using byte_bounds [of c] by auto
  with Cons show ?case by (simp add: EncodeToString_def hex_char_lower)
qed (simp add: EncodeToString_def)

text \<open>
  What the plugin relies on: a digest is 32 bytes long. Then a fingerprint is a valid key
  of the state, and the parts cut from digests have their full length.
\<close>

locale digest =
  fixes H :: "string \<Rightarrow> string"
  assumes digest_length: "length (H s) = 32"
begin

lemma fingerprint_hashID: "hashID (fingerprint H s)"
  by (simp add: hashID_def fingerprint_def digest_length EncodeToString_lower)

lemma fingerprint_length: "length (fingerprint H s) = 64"
  by (simp add: fingerprint_def digest_length)

lemma auth_base_length: "length (auth_base H kind parts) = length kind + 13"
  by (simp add: auth_base_def digest_length)

lemma auth_base_split:
  assumes "auth_base H kind parts = b"
  shows "\<exists>h. b = kind @ CHR '':'' # h \<and> length h = 12 \<and> list_all hex_lower h"
proof -
  have "list_all hex_lower (take 12 (EncodeToString (H s)))" for s
    using EncodeToString_lower [of "H s"] by (auto simp: list_all_iff dest: in_set_takeD)
  with assms show ?thesis by (auto simp: auth_base_def digest_length)
qed

end

interpretation sha: digest Sum256
  by unfold_locales (rule Sum256_length)

end
