(* ===== verification/Zen_Yaml.thy ===== *)
theory Zen_Yaml
  imports Zen_Prelude Go_Strings "HOL-Library.Finite_Map"
begin

text \<open>
  \<open>src/yaml_native.go\<close>: YAML documents as Go values. libyaml parses the text; the plugin
  walks the graph of nodes it returns, with a bound on the depth, a budget on the number
  of visits, and the set of the nodes it is inside of.
\<close>

section \<open>What libyaml returns\<close>

text \<open>
  A node has the tag the parser resolved (empty if the pointer is null) and its data;
  items, keys and values are indices into the document. \<open>get_node\<close> and \<open>root_node\<close> are
  the two accessors of a document; they give a pointer or, as \<open>None\<close>, the null pointer,
  and \<open>node_at\<close> is the memory the pointers point to.
\<close>

datatype yaml_data =
    Scalar string
  | Sequence "int list"
  | Mapping "(int \<times> int) list"
  | NoNode

record yaml_node =
  node_tag :: string
  node_data :: yaml_data

record yaml_document =
  root_node :: "nat option"
  get_node :: "int \<Rightarrow> nat option"
  node_at :: "nat \<Rightarrow> yaml_node"

text \<open>
  The parser, as what it does with a text: whether it can be set up, and what its calls
  to \<open>yaml_parser_load\<close> give, in order (\<open>None\<close> for a failure). After the last document of
  the text a call gives a document without a root.
\<close>

record yamllib =
  parser_initialize :: "string \<Rightarrow> bool"
  parser_load :: "string \<Rightarrow> nat \<Rightarrow> yaml_document option"

definition zen_yaml_load :: "yamllib \<Rightarrow> string \<Rightarrow> yaml_document option" where
  "zen_yaml_load Y s =
     (if \<not> parser_initialize Y s then None
      else case parser_load Y s 0 of
        None \<Rightarrow> None
      | Some d \<Rightarrow>
          (case parser_load Y s 1 of
             None \<Rightarrow> None
           | Some next \<Rightarrow> if root_node next = None then Some d else None))"

section \<open>The values\<close>

datatype yaml =
    YStr string
  | YSeq "yaml list"
  | YMap "(string, yaml) fmap"

type_synonym yaml_map = "(string, yaml) fmap"

section \<open>decode\<close>

definition max_depth :: nat where
  "max_depth = 64"

definition tag_ok :: "string \<Rightarrow> bool" where
  "tag_ok tag \<longleftrightarrow> tag = [] \<or> HasPrefix tag ''tag:yaml.org,2002:''"

text \<open>What a mapping collects: its own members, the keys seen, the maps to merge.\<close>

record map_acc =
  members :: yaml_map
  explicit :: "string list"
  merges :: "yaml_map list"

definition no_members :: map_acc where
  "no_members = \<lparr>members = fmempty, explicit = [], merges = []\<rparr>"

text \<open>The value of a merge key: a mapping, or a sequence of mappings.\<close>

fun all_maps :: "yaml list \<Rightarrow> yaml_map list option" where
  "all_maps [] = Some []"
| "all_maps (YMap m # vs) = map_option (\<lambda>ms. m # ms) (all_maps vs)"
| "all_maps (_ # vs) = None"

fun merge_value :: "yaml \<Rightarrow> yaml_map list option" where
  "merge_value (YMap m) = Some [m]"
| "merge_value (YSeq vs) = all_maps vs"
| "merge_value (YStr _) = None"

definition add_member :: "string \<Rightarrow> yaml \<Rightarrow> map_acc \<Rightarrow> map_acc option" where
  "add_member key v acc =
     (let acc' = acc\<lparr>explicit := key # explicit acc\<rparr>
      in if key \<noteq> ''<<'' then Some (acc'\<lparr>members := fmupd key v (members acc)\<rparr>)
         else map_option (\<lambda>ms. acc'\<lparr>merges := merges acc @ ms\<rparr>) (merge_value v))"

text \<open>The loop over the merged maps: a member that exists is kept.\<close>

definition merge_all :: "map_acc \<Rightarrow> yaml_map" where
  "merge_all acc = fold (\<lambda>mm m. mm ++\<^sub>f m) (merges acc) (members acc)"

text \<open>
  The closure \<open>decode\<close> with its two loops. The budget is threaded through; \<open>vis\<close> holds the
  nodes whose decoding is not finished (each call adds its node and, when it returns,
  takes it out again). Every error is returned at once, so \<open>None\<close> ends the walk. The
  depth checks of the two loops repeat the one of the call they make; they are there for
  the termination of the recursion.
\<close>

function decode :: "yaml_document \<Rightarrow> nat list \<Rightarrow> int \<Rightarrow> nat \<Rightarrow> nat option \<Rightarrow> (yaml \<times> int) option"
and decode_items ::
  "yaml_document \<Rightarrow> nat list \<Rightarrow> int \<Rightarrow> nat \<Rightarrow> int list \<Rightarrow> (yaml list \<times> int) option"
and decode_pairs ::
  "yaml_document \<Rightarrow> nat list \<Rightarrow> int \<Rightarrow> nat \<Rightarrow> (int \<times> int) list \<Rightarrow> map_acc \<Rightarrow> (map_acc \<times> int) option"
where
  "decode doc vis b0 depth n =
     (let b = b0 - 1
      in case n of
        None \<Rightarrow> None
      | Some p \<Rightarrow>
          if max_depth < depth \<or> b < 0 \<or> p \<in> set vis then None
          else if \<not> tag_ok (node_tag (node_at doc p)) then None
          else case node_data (node_at doc p) of
            Scalar s \<Rightarrow> Some (YStr s, b)
          | Sequence is \<Rightarrow>
              map_option (\<lambda>(vs, b'). (YSeq vs, b')) (decode_items doc (p # vis) b (depth + 1) is)
          | Mapping ps \<Rightarrow>
              map_option (\<lambda>(acc, b'). (YMap (merge_all acc), b'))
                (decode_pairs doc (p # vis) b (depth + 1) ps no_members)
          | NoNode \<Rightarrow> None)"
| "decode_items doc vis b depth [] = Some ([], b)"
| "decode_items doc vis b depth (i # is) =
     (if max_depth + 1 < depth then None
      else case decode doc vis b depth (get_node doc i) of
        None \<Rightarrow> None
      | Some (v, b') \<Rightarrow>
          map_option (\<lambda>(vs, b''). (v # vs, b'')) (decode_items doc vis b' depth is))"
| "decode_pairs doc vis b depth [] acc = Some (acc, b)"
| "decode_pairs doc vis b depth ((i, j) # ps) acc =
     (if max_depth + 1 < depth then None
      else case decode doc vis b depth (get_node doc i) of
        None \<Rightarrow> None
      | Some (k, b') \<Rightarrow>
          (case k of
             YStr key \<Rightarrow>
               if key \<in> set (explicit acc) then None
               else (case decode doc vis b' depth (get_node doc j) of
                 None \<Rightarrow> None
               | Some (v, b'') \<Rightarrow>
                   (case add_member key v acc of
                      None \<Rightarrow> None
                    | Some acc' \<Rightarrow> decode_pairs doc vis b'' depth ps acc'))
           | _ \<Rightarrow> None))"
  by pat_completeness auto
termination
  by (relation "measures
      [\<lambda>x. case x of Inl (_, _, _, d, _) \<Rightarrow> 66 - d
         | Inr (Inl (_, _, _, d, _)) \<Rightarrow> 66 - d | Inr (Inr (_, _, _, d, _, _)) \<Rightarrow> 66 - d,
       \<lambda>x. case x of Inl _ \<Rightarrow> 0
         | Inr (Inl (_, _, _, _, is)) \<Rightarrow> Suc (length is)
         | Inr (Inr (_, _, _, _, ps, _)) \<Rightarrow> Suc (length ps)]")
    (auto simp: max_depth_def)

definition max_yaml :: int where
  "max_yaml = 4 * 2 ^ 20"

definition yaml_budget :: int where
  "yaml_budget = 100000"

definition yamlMap :: "yamllib \<Rightarrow> string \<Rightarrow> yaml_map option" where
  "yamlMap Y raw =
     (if raw = [] then Some fmempty
      else if max_yaml < int (length raw) then None
      else case zen_yaml_load Y raw of
        None \<Rightarrow> None
      | Some doc \<Rightarrow>
          (case root_node doc of
             None \<Rightarrow> Some fmempty
           | Some r \<Rightarrow>
               (case decode doc [] yaml_budget 0 (Some r) of
                  Some (YMap m, _) \<Rightarrow> Some m
                | _ \<Rightarrow> None)))"

end
