(* ===== verification/Go_Path.thy ===== *)
theory Go_Path
  imports Go_Strings
begin

text \<open>
  The functions of package \<open>path/filepath\<close> the plugin calls, on Unix: cleaning a path is
  lexical, and a relative path is made absolute with the working directory.
\<close>

fun split_slash :: "string \<Rightarrow> string \<Rightarrow> string list" where
  "split_slash acc [] = [rev acc]"
| "split_slash acc (c # cs) =
     (if c = CHR ''/'' then rev acc # split_slash [] cs else split_slash (c # acc) cs)"

text \<open>The elements kept so far, the last one first. Dot-dot cannot leave a rooted path.\<close>

definition clean_step :: "bool \<Rightarrow> string \<Rightarrow> string list \<Rightarrow> string list" where
  "clean_step rooted e out =
     (if e = [] \<or> e = ''.'' then out
      else if e = ''..'' then
        (case out of
           [] \<Rightarrow> (if rooted then [] else [''..''])
         | x # xs \<Rightarrow> if x = ''..'' then ''..'' # out else xs)
      else e # out)"

fun join_slash :: "string list \<Rightarrow> string" where
  "join_slash [] = []"
| "join_slash [e] = e"
| "join_slash (e # es) = e @ CHR ''/'' # join_slash es"

definition IsAbs :: "string \<Rightarrow> bool" where
  "IsAbs p \<longleftrightarrow> HasPrefix p ''/''"

definition Clean :: "string \<Rightarrow> string" where
  "Clean p =
     (let out = join_slash (rev (fold (clean_step (IsAbs p)) (split_slash [] p) []))
      in if IsAbs p then CHR ''/'' # out else if out = [] then ''.'' else out)"

text \<open>\<open>Join\<close> drops empty elements at the front; cleaning removes the others.\<close>

definition Join :: "string \<Rightarrow> string \<Rightarrow> string" where
  "Join a b =
     (if a \<noteq> [] then Clean (a @ CHR ''/'' # b) else if b \<noteq> [] then Clean b else [])"

text \<open>\<open>Abs\<close>, given what \<open>os.Getwd\<close> returns.\<close>

definition Abs :: "string option \<Rightarrow> string \<Rightarrow> string option" where
  "Abs wd p =
     (if IsAbs p then Some (Clean p) else case wd of None \<Rightarrow> None | Some d \<Rightarrow> Some (Join d p))"

lemma IsAbs_Clean: "IsAbs p \<Longrightarrow> IsAbs (Clean p)"
  by (simp add: Clean_def IsAbs_def HasPrefix_def)

lemma Join_absolute: "IsAbs d \<Longrightarrow> IsAbs (Join d p)"
  by (cases d) (auto simp: Join_def IsAbs_def HasPrefix_def Clean_def)

lemma Abs_absolute:
  "Abs wd p = Some q \<Longrightarrow> (\<And>d. wd = Some d \<Longrightarrow> IsAbs d) \<Longrightarrow> IsAbs q"
  by (auto simp: Abs_def IsAbs_Clean Join_absolute split: if_splits option.splits)

end
