(* ===== verification/Zen_Config.thy ===== *)
theory Zen_Config
  imports Zen_Digest Zen_Yaml Go_Path Go_Time
begin

text \<open>
  \<open>readConfiguration\<close> of \<open>src/config.go\<close>: the options of the plugin and the configuration of
  the host, read from YAML into the record the pool is set up with. A configuration that
  is refused still returns the part that was read, so an error comes with it.
\<close>

section \<open>The host\<close>

text \<open>
  What the reader asks its surroundings: the library functions, libyaml, the environment
  and the files. \<open>range_keys\<close> is the order in which a loop visits the keys of a map.
\<close>

record config_file =
  file_data :: string
  file_read_ok :: bool
  file_close_ok :: bool

record confighost =
  host_lib :: golib
  host_yaml :: yamllib
  host_sum256 :: "string \<Rightarrow> string"
  host_url_Parse :: "string \<Rightarrow> url option"
  host_HOME :: string
  host_Getwd :: "string option"
  host_open :: "string \<Rightarrow> config_file option"
  range_keys :: "string fset \<Rightarrow> string list"

datatype config_error = ErrConfig | ErrOpen | ErrProvider | ErrLiteral | ErrDuplicate

section \<open>Typed values\<close>

text \<open>\<open>errConfig\<close> is the only error of these, so it is \<open>None\<close>.\<close>

definition stringValue :: "yaml_map \<Rightarrow> string \<Rightarrow> string option" where
  "stringValue m name =
     (case fmlookup m name of
        None \<Rightarrow> Some []
      | Some (YStr s) \<Rightarrow> Some (TrimSpace s)
      | Some _ \<Rightarrow> None)"

definition false_words :: "string list" where
  "false_words = [[], ''false'', ''no'', ''off'', ''n'', ''0'', ''null'', ''~'']"

definition true_words :: "string list" where
  "true_words = [''true'', ''yes'', ''on'', ''y'', ''1'']"

definition boolValue :: "golib \<Rightarrow> yaml_map \<Rightarrow> string \<Rightarrow> bool option" where
  "boolValue G m name =
     (case stringValue m name of
        None \<Rightarrow> None
      | Some s \<Rightarrow>
          (let w = ToLower (uni_lower G) s
           in if List.member false_words w then Some False
              else if List.member true_words w then Some True else None))"

definition listValue :: "yaml_map \<Rightarrow> string \<Rightarrow> yaml list option" where
  "listValue m name =
     (case fmlookup m name of
        None \<Rightarrow> Some []
      | Some (YSeq vs) \<Rightarrow> Some vs
      | Some (YStr s) \<Rightarrow> if s = [] then Some [] else None
      | Some (YMap _) \<Rightarrow> None)"

fun mapValue :: "yaml \<Rightarrow> yaml_map option" where
  "mapValue (YMap m) = Some m"
| "mapValue _ = None"

definition durationValue :: "yaml_map \<Rightarrow> string \<Rightarrow> duration \<Rightarrow> duration option" where
  "durationValue m name dflt =
     (case stringValue m name of
        None \<Rightarrow> None
      | Some s \<Rightarrow>
          if s = [] then Some dflt
          else case ParseDuration s of
            None \<Rightarrow> None
          | Some d \<Rightarrow> if d < Second \<or> max_window < d then None else Some d)"

definition UserHomeDir :: "confighost \<Rightarrow> string option" where
  "UserHomeDir E = (if host_HOME E = [] then None else Some (host_HOME E))"

definition expandPath :: "confighost \<Rightarrow> string \<Rightarrow> string option" where
  "expandPath E s0 =
     (case (if HasPrefix s0 ''~/'' \<or> s0 = ''~''
            then map_option (\<lambda>home. Join home (TrimPrefix (TrimPrefix s0 ''~'') ''/''))
                   (UserHomeDir E)
            else Some s0) of
        None \<Rightarrow> None
      | Some s \<Rightarrow> if CHR 0x00 \<in> set s then None else Abs (host_Getwd E) s)"

section \<open>The options of the plugin\<close>

text \<open>The rest of a function after a value was read, or \<open>errConfig\<close> with what there is.\<close>

type_synonym 'a reading = "configuration \<times> config_error + 'a"

definition attempt :: "configuration \<Rightarrow> 'a option \<Rightarrow> ('a \<Rightarrow> 'b reading) \<Rightarrow> 'b reading" where
  "attempt cfg r f = (case r of None \<Rightarrow> Inl (cfg, ErrConfig) | Some x \<Rightarrow> f x)"

definition and_then :: "'a reading \<Rightarrow> ('a \<Rightarrow> 'b reading) \<Rightarrow> 'b reading" where
  "and_then r f = (case r of Inl e \<Rightarrow> Inl e | Inr x \<Rightarrow> f x)"

definition empty_configuration :: configuration where
  "empty_configuration =
     \<lparr>ConfigPath = [], StateDir = [], Provider = [], Accounts = [], Models = {||},
      ForwardHeaders = fmempty, Fallback = 0, AuthSuspension = 0, RateFallback = 0,
      TransientFallback = 0, HostCoolingDisabled = False\<rparr>"

definition allowed_options :: "string list" where
  "allowed_options =
     [''enabled'', ''priority'', ''cpa-config-path'', ''state-dir'', ''provider-name'',
      ''fallback-cooldown'', ''auth-suspension'', ''rate-limit-fallback'',
      ''transient-fallback'', ''disabled-accounts'']"

definition provider_char :: "char \<Rightarrow> bool" where
  "provider_char c \<longleftrightarrow> is_lower c \<or> is_digit c"

text \<open>\<open>^[a-z0-9][a-z0-9_-]*$\<close>\<close>

definition safeProvider :: "string \<Rightarrow> bool" where
  "safeProvider s \<longleftrightarrow>
     s \<noteq> [] \<and> provider_char (hd s) \<and>
     list_all (\<lambda>c. provider_char c \<or> c = CHR ''_'' \<or> c = CHR ''-'') (tl s)"

text \<open>\<open>^zen-[0-9a-f]{16}$\<close>\<close>

definition zen_label :: "string \<Rightarrow> bool" where
  "zen_label s \<longleftrightarrow>
     (case strip_prefix ''zen-'' s of
        None \<Rightarrow> False | Some t \<Rightarrow> length t = 16 \<and> list_all hex_lower t)"

definition provider_prefix :: string where
  "provider_prefix = ''openai-compatible-''"

fun disabled_labels :: "yaml list \<Rightarrow> string list option" where
  "disabled_labels [] = Some []"
| "disabled_labels (v # vs) =
     (case v of
        YStr s \<Rightarrow> if zen_label s then map_option (\<lambda>ls. s # ls) (disabled_labels vs) else None
      | _ \<Rightarrow> None)"

definition read_path :: "confighost \<Rightarrow> yaml_map \<Rightarrow> configuration reading" where
  "read_path E opts =
     (let cfg = empty_configuration
      in if \<not> fBall (fmdom opts) (\<lambda>k. k \<in> set allowed_options) then Inl (cfg, ErrConfig)
         else attempt cfg (stringValue opts ''cpa-config-path'') (\<lambda>path.
              attempt cfg (expandPath E (if path = [] then ''config.yaml'' else path)) (\<lambda>p.
              Inr (cfg\<lparr>ConfigPath := p\<rparr>))))"

definition read_durations :: "yaml_map \<Rightarrow> configuration \<Rightarrow> configuration reading" where
  "read_durations opts cfg =
     attempt cfg (durationValue opts ''fallback-cooldown'' (30 * Minute)) (\<lambda>d1.
     let cfg1 = cfg\<lparr>Fallback := d1\<rparr> in
     attempt cfg1 (durationValue opts ''auth-suspension'' (15 * Minute)) (\<lambda>d2.
     let cfg2 = cfg1\<lparr>AuthSuspension := d2\<rparr> in
     attempt cfg2 (durationValue opts ''rate-limit-fallback'' Second) (\<lambda>d3.
     let cfg3 = cfg2\<lparr>RateFallback := d3\<rparr> in
     attempt cfg3 (durationValue opts ''transient-fallback'' (30 * Second)) (\<lambda>d4.
     Inr (cfg3\<lparr>TransientFallback := d4\<rparr>)))))"

text \<open>The provider's name, the disabled labels, and the configuration with the provider.\<close>

definition read_provider_name ::
  "golib \<Rightarrow> yaml_map \<Rightarrow> configuration \<Rightarrow> (string \<times> string list \<times> configuration) reading" where
  "read_provider_name G opts cfg =
     attempt cfg (stringValue opts ''provider-name'') (\<lambda>s.
     let l = ToLower (uni_lower G) s; name = (if l = [] then ''opencode-zen'' else l)
     in if \<not> safeProvider name then Inl (cfg, ErrConfig)
        else let cfg' = cfg\<lparr>Provider :=
                   (if HasPrefix name provider_prefix then name else provider_prefix @ name)\<rparr>
             in attempt cfg' (listValue opts ''disabled-accounts'') (\<lambda>list.
                attempt cfg' (disabled_labels list) (\<lambda>ls. Inr (name, ls, cfg'))))"

section \<open>The configuration of the host\<close>

text \<open>\<open>io.LimitReader\<close>\<close>

definition limited :: "int \<Rightarrow> string \<Rightarrow> string" where
  "limited n s = (if int (length s) \<le> n then s else take (nat n) s)"

definition read_root :: "confighost \<Rightarrow> configuration \<Rightarrow> yaml_map reading" where
  "read_root E cfg =
     (case host_open E (ConfigPath cfg) of
        None \<Rightarrow> Inl (cfg, ErrOpen)
      | Some f \<Rightarrow>
          if \<not> file_read_ok f \<or> \<not> file_close_ok f then Inl (cfg, ErrConfig)
          else attempt cfg (yamlMap (host_yaml E) (limited (max_yaml + 1) (file_data f))) Inr)"

definition read_state_dir ::
  "confighost \<Rightarrow> yaml_map \<Rightarrow> yaml_map \<Rightarrow> configuration \<Rightarrow> configuration reading" where
  "read_state_dir E opts hostmap cfg =
     attempt cfg (stringValue opts ''state-dir'') (\<lambda>dir.
     attempt cfg
       (if dir \<noteq> [] then Some dir
        else map_option (\<lambda>authDir.
               Join (if authDir = [] then ''~/.cli-proxy-api'' else authDir) pluginID)
             (stringValue hostmap ''auth-dir'')) (\<lambda>d.
     attempt cfg (expandPath E d) (\<lambda>p. Inr (cfg\<lparr>StateDir := p\<rparr>))))"

section \<open>The providers\<close>

record reader =
  rd_cfg :: configuration
  rd_counts :: id_counts
  rd_seen :: "string fset"
  rd_matches :: nat

text \<open>The loop over the rules for forwarding headers.\<close>

fun read_headers ::
  "golib \<Rightarrow> yaml_map \<Rightarrow> string list \<Rightarrow> configuration \<Rightarrow> configuration reading" where
  "read_headers G hm [] cfg = Inr cfg"
| "read_headers G hm (k # ks) cfg =
     attempt cfg (stringValue hm k) (\<lambda>s.
       read_headers G hm ks
         (cfg\<lparr>ForwardHeaders := fmupd (ToLower (uni_lower G) k) s (ForwardHeaders cfg)\<rparr>))"

definition add_model :: "string \<Rightarrow> string \<Rightarrow> configuration \<Rightarrow> configuration" where
  "add_model prefix alias cfg =
     (if alias = [] then cfg
      else cfg\<lparr>Models := (if prefix \<noteq> [] then finsert (prefix @ CHR ''/'' # alias) else id)
                 (finsert alias (Models cfg))\<rparr>)"

fun read_models :: "string \<Rightarrow> yaml list \<Rightarrow> configuration \<Rightarrow> configuration reading" where
  "read_models prefix [] cfg = Inr cfg"
| "read_models prefix (mv # mvs) cfg =
     attempt cfg (mapValue mv) (\<lambda>mm.
     attempt cfg (stringValue mm ''alias'') (\<lambda>alias.
     attempt cfg (stringValue mm ''name'') (\<lambda>up.
     read_models prefix mvs (add_model prefix (if alias = [] then up else alias) cfg))))"

definition provider_headers ::
  "confighost \<Rightarrow> yaml_map \<Rightarrow> configuration \<Rightarrow> configuration reading" where
  "provider_headers E p cfg =
     (case fmlookup p ''headers'' of
        None \<Rightarrow> Inr cfg
      | Some h \<Rightarrow>
          if h = YStr [] then Inr cfg
          else attempt cfg (mapValue h) (\<lambda>hm.
               read_headers (host_lib E) hm (range_keys E (fmdom hm)) cfg))"

text \<open>What is read from the managed provider only.\<close>

definition read_managed :: "confighost \<Rightarrow> yaml_map \<Rightarrow> string \<Rightarrow> reader \<Rightarrow> reader reading" where
  "read_managed E p base r0 =
     (let r = r0\<lparr>rd_matches := rd_matches r0 + 1\<rparr>; cfg = rd_cfg r
      in if 1 < rd_matches r \<or> TrimRightChar (CHR ''/'') base \<noteq> zenBaseURL
         then Inl (cfg, ErrProvider)
         else attempt cfg (boolValue (host_lib E) p ''disable-cooling'') (\<lambda>c.
              and_then (provider_headers E p (cfg\<lparr>HostCoolingDisabled := c\<rparr>)) (\<lambda>cfg1.
              attempt cfg1 (stringValue p ''prefix'') (\<lambda>prefix.
              attempt cfg1 (listValue p ''models'') (\<lambda>models.
              and_then (read_models (TrimChar (CHR ''/'') prefix) models cfg1) (\<lambda>cfg2.
              Inr (r\<lparr>rd_cfg := cfg2\<rparr>)))))))"

text \<open>The account of one entry of the managed provider, with the auth ID it was given.\<close>

definition add_account ::
  "confighost \<Rightarrow> string list \<Rightarrow> bool \<Rightarrow> string \<Rightarrow> string \<Rightarrow> string \<Rightarrow> reader \<Rightarrow> reader reading" where
  "add_account E disabled off key proxy authID r =
     (let cfg = rd_cfg r; hash = fingerprint (host_sum256 E) key
      in if key = [] \<or> Contains key ''${'' \<or> Contains proxy ''${'' then Inl (cfg, ErrLiteral)
         else if hash |\<in>| rd_seen r then Inl (cfg, ErrDuplicate)
         else attempt cfg (safeProxy (host_lib E) (host_sum256 E) (host_url_Parse E) proxy) (\<lambda>px.
              let label = ''zen-'' @ take 16 hash;
                  a = \<lparr>Fingerprint = hash, AuthID = authID, Label = label,
                       Disabled = (off \<or> label \<in> set disabled), ProxyPresent = fst px,
                       ProxyLabel = snd px\<rparr>
              in Inr (r\<lparr>rd_seen := finsert hash (rd_seen r),
                        rd_cfg := cfg\<lparr>Accounts := Accounts cfg @ [a]\<rparr>\<rparr>)))"

definition read_entry ::
  "confighost \<Rightarrow> string list \<Rightarrow> bool \<Rightarrow> bool \<Rightarrow> string \<Rightarrow> string \<Rightarrow> yaml \<Rightarrow> reader \<Rightarrow> reader reading"
where
  "read_entry E disabled managed off kind base ev r =
     attempt (rd_cfg r) (mapValue ev) (\<lambda>entry.
     attempt (rd_cfg r) (stringValue entry ''api-key'') (\<lambda>key.
     attempt (rd_cfg r) (stringValue entry ''proxy-url'') (\<lambda>proxy.
     let (authID, counts) =
           (if off then ([], rd_counts r)
            else nextAuthID (host_sum256 E) (rd_counts r) kind [key, base, proxy]);
         r1 = r\<lparr>rd_counts := counts\<rparr>
     in if \<not> managed then Inr r1 else add_account E disabled off key proxy authID r1)))"

fun read_entries ::
  "confighost \<Rightarrow> string list \<Rightarrow> bool \<Rightarrow> bool \<Rightarrow> string \<Rightarrow> string \<Rightarrow> yaml list \<Rightarrow> reader \<Rightarrow> reader reading"
where
  "read_entries E disabled managed off kind base [] r = Inr r"
| "read_entries E disabled managed off kind base (ev # evs) r =
     and_then (read_entry E disabled managed off kind base ev r)
       (read_entries E disabled managed off kind base evs)"

definition provider_kind :: "string \<Rightarrow> string" where
  "provider_kind pn = ''openai-compatibility:'' @ pn"

definition read_provider ::
  "confighost \<Rightarrow> string \<Rightarrow> string list \<Rightarrow> yaml \<Rightarrow> reader \<Rightarrow> reader reading" where
  "read_provider E name disabled v r =
     (let cfg = rd_cfg r in
      attempt cfg (mapValue v) (\<lambda>p.
      attempt cfg (stringValue p ''name'') (\<lambda>s.
      let l = ToLower (uni_lower (host_lib E)) s;
          pn = (if l = [] then ''openai-compatibility'' else l) in
      attempt cfg (stringValue p ''base-url'') (\<lambda>base.
      attempt cfg (boolValue (host_lib E) p ''disabled'') (\<lambda>off.
      attempt cfg (listValue p ''api-key-entries'') (\<lambda>entries.
      and_then (if pn = name then read_managed E p base r else Inr r) (\<lambda>r1.
      let kind = provider_kind pn;
          r2 = (if entries = [] \<and> \<not> off
                then r1\<lparr>rd_counts := snd (nextAuthID (host_sum256 E) (rd_counts r1) kind [base])\<rparr>
                else r1)
      in read_entries E disabled (pn = name) off kind base entries r2)))))))"

fun read_providers ::
  "confighost \<Rightarrow> string \<Rightarrow> string list \<Rightarrow> yaml list \<Rightarrow> reader \<Rightarrow> reader reading" where
  "read_providers E name disabled [] r = Inr r"
| "read_providers E name disabled (v # vs) r =
     and_then (read_provider E name disabled v r) (read_providers E name disabled vs)"

section \<open>readConfiguration\<close>

definition max_accounts :: int where
  "max_accounts = 1024"

definition read_all :: "confighost \<Rightarrow> string \<Rightarrow> configuration reading" where
  "read_all E pluginYAML =
     attempt empty_configuration (yamlMap (host_yaml E) pluginYAML) (\<lambda>opts.
     and_then (read_path E opts) (\<lambda>cfg1.
     and_then (read_durations opts cfg1) (\<lambda>cfg2.
     and_then (read_provider_name (host_lib E) opts cfg2) (\<lambda>(name, disabled, cfg3).
     and_then (read_root E cfg3) (\<lambda>hostmap.
     and_then (read_state_dir E opts hostmap cfg3) (\<lambda>cfg4.
     attempt cfg4 (listValue hostmap ''openai-compatibility'') (\<lambda>providers.
     and_then (read_providers E name disabled providers
       \<lparr>rd_cfg = cfg4, rd_counts = fmempty, rd_seen = {||}, rd_matches = 0\<rparr>) (\<lambda>r.
     if max_accounts < int (length (Accounts (rd_cfg r))) then Inl (rd_cfg r, ErrConfig)
     else Inr (rd_cfg r)))))))))"

definition readConfiguration ::
  "confighost \<Rightarrow> string \<Rightarrow> configuration \<times> config_error option" where
  "readConfiguration E pluginYAML =
     (case read_all E pluginYAML of
        Inl (cfg, e) \<Rightarrow> (cfg, Some e) | Inr cfg \<Rightarrow> (cfg, None))"

end
