(* ===== verification/Zen_Dispatch.thy ===== *)
theory Zen_Dispatch
  imports Zen_Wire Zen_Config
begin

text \<open>
  \<open>src/dispatch.go\<close>, \<open>src/management.go\<close> and \<open>src/main.go\<close>: the application behind the C
  interface. A call is a function from the application before to the answer and the
  application after; the lock of the application makes calls that change it exclusive,
  and each call touches the pool through the operations of the pool only.
\<close>

section \<open>The application and its surroundings\<close>

record application =
  app_pool :: "fileStore pool option"
  managementBase :: string

text \<open>
  What a call meets: the host, the codec of instants, the two readings of the clock (that
  of the pool, and the one of \<open>time.Until\<close>), how the operating system answers when the
  store is opened, with the state directory as it is, and the text of an error of it.
\<close>

record environment =
  env_host :: confighost
  env_times :: timelib
  env_now :: time
  env_until_now :: time
  env_mkdir_ok :: bool
  env_open_ok :: bool
  env_locked :: bool
  env_dir :: "string \<Rightarrow> fileStore"
  env_os_text :: string

abbreviation env_ops :: "environment \<Rightarrow> fileStore stateStore" where
  "env_ops E \<equiv> file_ops (env_times E)"

abbreviation env_lib :: "environment \<Rightarrow> golib" where
  "env_lib E \<equiv> host_lib (env_host E)"

section \<open>Registration\<close>

definition config_field :: "string \<Rightarrow> string \<Rightarrow> string \<Rightarrow> json" where
  "config_field name typ descr =
     JObj [(''Description'', json_quote descr), (''Name'', json_quote name), (''Type'', json_quote typ)]"

definition registration :: json where
  "registration = JObj
     [(''capabilities'', JObj
        [(''management_api'', JBool True), (''request_interceptor'', JBool True),
         (''scheduler'', JBool True), (''usage_plugin'', JBool True)]),
      (''metadata'', JObj
        [(''Author'', json_quote ''Generated local build''),
         (''ConfigFields'', JArr
           [config_field ''cpa-config-path'' ''string'' ''Absolute path of the host configuration'',
            config_field ''state-dir'' ''string''
              ''Private durable state directory; changing it requires restart'',
            config_field ''provider-name'' ''string''
              ''OpenAI-compatible Zen provider name; default opencode-zen'',
            config_field ''fallback-cooldown'' ''string''
              ''Quota cooldown when no valid reset is supplied; default 30m'',
            config_field ''auth-suspension'' ''string''
              ''401/403 suspension without failover; default 15m'',
            config_field ''rate-limit-fallback'' ''string''
              ''Short non-quota 429 backoff without failover; default 1s'',
            config_field ''transient-fallback'' ''string''
              ''Short 5xx/transport quarantine before retrying an account; default 30s'',
            config_field ''disabled-accounts'' ''array''
              ''Safe zen-* account labels disabled by this plugin'']),
         (''GitHubRepository'', json_quote ''Microck/opencode-zen-pool''),
         (''Name'', json_quote pluginID), (''Version'', json_quote pluginVersion)]),
      (''schema_version'', json_nat 6)]"

definition empty_result :: string where
  "empty_result = okEnvelope (JObj [])"

section \<open>failClosed, close\<close>

definition set_fault :: "string \<Rightarrow> application \<Rightarrow> application" where
  "set_fault f a = a\<lparr>app_pool := map_option (\<lambda>p. p\<lparr>p_fault := f\<rparr>) (app_pool a)\<rparr>"

definition failClosed :: "application \<Rightarrow> application" where
  "failClosed a = set_fault ''internal_error'' a"

definition app_close :: "environment \<Rightarrow> application \<Rightarrow> unit result \<times> application" where
  "app_close E a =
     (case app_pool a of
        None \<Rightarrow> (Ok (), a)
      | Some p \<Rightarrow>
          (case Close (env_ops E) p of
             (Panic, p') \<Rightarrow> (Panic, a\<lparr>app_pool := Some p'\<rparr>)
           | (r, _) \<Rightarrow> (r, a\<lparr>app_pool := None\<rparr>)))"

section \<open>configure\<close>

text \<open>The store and the pool of the first configuration that is accepted.\<close>

definition open_pool :: "environment \<Rightarrow> configuration \<Rightarrow> fileStore pool" where
  "open_pool E cfg =
     (case newFileStore (env_mkdir_ok E) (env_open_ok E) (env_locked E) (env_dir E (StateDir cfg)) of
        None \<Rightarrow> faultedPool cfg ''state_unavailable_restart_required''
      | Some store \<Rightarrow>
          (case newPool (env_ops E) cfg store of
             None \<Rightarrow> faultedPool cfg ''state_unavailable_restart_required''
           | Some p \<Rightarrow> p))"

definition configured ::
  "environment \<Rightarrow> configuration \<times> config_error option \<Rightarrow> application \<Rightarrow> string result \<times> application"
where
  "configured E r a =
     (let (cfg, err) = r; ok = Ok (okEnvelope registration)
      in if err \<noteq> None then
           (ok, case app_pool a of
                  Some _ \<Rightarrow> set_fault ''configuration_error'' a
                | None \<Rightarrow> a\<lparr>app_pool := Some (faultedPool cfg ''configuration_error'')\<rparr>)
         else case app_pool a of
           Some p \<Rightarrow>
             (case Reconfigure (env_ops E) (env_now E) cfg p of
                (Panic, p') \<Rightarrow> (Panic, a\<lparr>app_pool := Some p'\<rparr>)
              | (Fail _, p') \<Rightarrow>
                  (ok, set_fault ''configuration_or_state_error_restart_required''
                         (a\<lparr>app_pool := Some p'\<rparr>))
              | (Ok _, p') \<Rightarrow> (ok, a\<lparr>app_pool := Some p'\<rparr>))
         | None \<Rightarrow> (ok, a\<lparr>app_pool := Some (open_pool E cfg)\<rparr>))"

definition configure :: "environment \<Rightarrow> string \<Rightarrow> application \<Rightarrow> string result \<times> application" where
  "configure E raw a =
     (case decode_lifecycle raw of
        None \<Rightarrow> (Ok (errorEnvelope ''zen_config_error'' ''Invalid lifecycle request'' 400), a)
      | Some (yml, schema) \<Rightarrow>
          if schema \<noteq> 6
          then (Ok (errorEnvelope ''zen_schema_unsupported''
                      ''This build requires native ABI v1, schema 6'' 400), a)
          else configured E (readConfiguration (env_host E) yml) a)"

section \<open>management\<close>

definition string_map :: "(string \<times> string) list \<Rightarrow> json" where
  "string_map ms = JObj (map (\<lambda>(k, v). (k, json_quote v)) ms)"

definition header_json :: "(string \<times> string list) list \<Rightarrow> json" where
  "header_json h = JObj (map (\<lambda>(k, vs). (k, JArr (map json_quote vs))) h)"

definition management_headers :: json where
  "management_headers = header_json
     [(''Cache-Control'', [''no-store'']), (''Content-Type'', [''application/json'']),
      (''X-Content-Type-Options'', [''nosniff''])]"

text \<open>\<open>None\<close> is a body that could not be encoded.\<close>

definition managementJSON :: "int \<Rightarrow> string option \<Rightarrow> string" where
  "managementJSON status body =
     (case body of
        None \<Rightarrow> errorEnvelope ''zen_encoding_error'' ''Management response unavailable'' 500
      | Some b \<Rightarrow>
          okEnvelope (JObj [(''StatusCode'', json_nat status), (''Headers'', management_headers),
            (''Body'', json_bytes b)]))"

definition management_error :: "int \<Rightarrow> string \<Rightarrow> string" where
  "management_error status text = managementJSON status (Some (compact (string_map [(''error'', text)])))"

text \<open>The instant methods of a call on the pool: the new pool is kept, a panic is passed on.\<close>

definition with_pool :: "application \<Rightarrow> fileStore pool \<Rightarrow> application" where
  "with_pool a p = a\<lparr>app_pool := Some p\<rparr>"

definition resumed_text :: string where
  "resumed_text = ''cooldown cleared; healthy current account was not preempted''"

definition handle_resume ::
  "environment \<Rightarrow> string \<Rightarrow> fileStore pool \<Rightarrow> string result \<times> fileStore pool" where
  "handle_resume E body p =
     (if 4096 < int (length body) then (Ok (management_error 400 ''invalid resume body''), p)
      else case decode_resume body of
        None \<Rightarrow> (Ok (management_error 400 ''invalid resume body''), p)
      | Some (label, confirm) \<Rightarrow>
          (case Resume (env_ops E) (env_now E) label confirm p of
             (Panic, p') \<Rightarrow> (Panic, p')
           | (Fail e, p') \<Rightarrow>
               (Ok (management_error 409 (error_text (env_times E) (env_os_text E) e)), p')
           | (Ok _, p') \<Rightarrow>
               (Ok (managementJSON 200 (Some (compact (string_map [(''result'', resumed_text)])))), p')))"

definition handle_status :: "environment \<Rightarrow> fileStore pool \<Rightarrow> string result" where
  "handle_status E p =
     (case Status p (env_now E) of
        Ok s \<Rightarrow> Ok (managementJSON 200 (Marshal_status (env_times E) s))
      | Fail e \<Rightarrow> Fail e
      | Panic \<Rightarrow> Panic)"

definition management ::
  "environment \<Rightarrow> string \<Rightarrow> string \<Rightarrow> fileStore pool \<Rightarrow> string result \<times> fileStore pool" where
  "management E base raw p =
     (case decode_management raw of
        None \<Rightarrow> (Ok (management_error 400 ''invalid request''), p)
      | Some (method, path, body) \<Rightarrow>
          if method = ''GET'' \<and> path = base @ ''/status'' then (handle_status E p, p)
          else if method = ''POST'' \<and> path = base @ ''/resume'' then handle_resume E body p
          else (Ok (management_error 404 ''route not found''), p))"

section \<open>The methods that need a pool\<close>

definition handle_pick :: "environment \<Rightarrow> string \<Rightarrow> fileStore pool \<Rightarrow> string result \<times> fileStore pool" where
  "handle_pick E raw p =
     (case decode_request raw of
        None \<Rightarrow> (Ok (errorEnvelope ''zen_bad_request'' ''Invalid scheduler request'' 400), p)
      | Some req \<Rightarrow>
          (case Pick (env_ops E) (env_now E) req p of
             (Panic, p') \<Rightarrow> (Panic, p')
           | (Fail e, p') \<Rightarrow>
               (Ok (errorEnvelope ''zen_pool_unavailable''
                      (error_text (env_times E) (env_os_text E) e) 503), p')
           | (Ok r, p') \<Rightarrow> (Ok (okEnvelope (response_json r)), p')))"

definition handle_usage :: "environment \<Rightarrow> string \<Rightarrow> fileStore pool \<Rightarrow> string result \<times> fileStore pool" where
  "handle_usage E raw p =
     (case decode_record (env_times E) (range_keys (env_host E)) raw of
        None \<Rightarrow> (Ok (errorEnvelope ''zen_bad_request'' ''Invalid usage record'' 400), p)
      | Some r \<Rightarrow>
          (case Observe (env_ops E) (env_lib E) (env_now E) r p of
             (Panic, p') \<Rightarrow> (Panic, p')
           | (Fail e, p') \<Rightarrow>
               (Ok (errorEnvelope ''zen_state_error''
                      (error_text (env_times E) (env_os_text E) e) 503), p')
           | (Ok _, p') \<Rightarrow> (Ok empty_result, p')))"

text \<open>
  \<open>time.Until(t).Seconds() + 1\<close>, truncated: the difference saturates at the range of a
  duration, and the seconds and the rest are added as floats.
\<close>

definition clamp_duration :: "int \<Rightarrow> duration" where
  "clamp_duration d = max (- (2 ^ 63)) (min (2 ^ 63 - 1) d)"

definition trunc_div :: "int \<Rightarrow> int \<Rightarrow> int" where
  "trunc_div a b = (if a < 0 then - ((- a) div b) else a div b)"

definition seconds_plus_one :: "duration \<Rightarrow> int" where
  "seconds_plus_one d =
     (let sec = trunc_div d Second; nsec = d - sec * Second
      in case float_add (float_add (Fin (of_int sec)) (double (of_int nsec / 1000000000))) (Fin 1) of
           Fin r \<Rightarrow> trunc_rat r | _ \<Rightarrow> 0)"

definition retry_after :: "environment \<Rightarrow> pool_error \<Rightarrow> string list" where
  "retry_after E e =
     (case e of
        Unavailable u \<Rightarrow>
          (if RetryAt u = 0 then []
           else let n = seconds_plus_one (clamp_duration (RetryAt u - env_until_now E))
                in if 0 < n then [show_int n] else [])
      | _ \<Rightarrow> [])"

definition refusal :: "environment \<Rightarrow> pool_error \<Rightarrow> string" where
  "refusal E e =
     okEnvelope (JObj [(''Terminate'', JBool True), (''StatusCode'', json_nat 503),
       (''ResponseHeaders'', header_json
          ([(''Cache-Control'', [''no-store'']), (''Content-Type'', [''application/json''])]
           @ (case retry_after E e of [] \<Rightarrow> [] | ns \<Rightarrow> [(''Retry-After'', ns)]))),
       (''ResponseBody'', json_bytes (error_text (env_times E) (env_os_text E) e))])"

definition handle_before :: "environment \<Rightarrow> string \<Rightarrow> fileStore pool \<Rightarrow> string result \<times> fileStore pool" where
  "handle_before E raw p =
     (case decode_event raw of
        None \<Rightarrow> (Ok (errorEnvelope ''zen_bad_request'' ''Invalid request event'' 400), p)
      | Some (model0, requested, h) \<Rightarrow>
          (let model = (if requested = [] then model0 else requested)
           in case Guard (env_lib E) (env_now E) model (header_of (range_keys (env_host E)) h) p of
                (Panic, p') \<Rightarrow> (Panic, p')
              | (Fail e, p') \<Rightarrow> (Ok (refusal E e), p')
              | (Ok _, p') \<Rightarrow> (Ok empty_result, p')))"

section \<open>call\<close>

lemmas [handler_defs] =
  handle_pick_def handle_usage_def handle_before_def handle_status_def handle_resume_def

definition management_register :: "string \<Rightarrow> application \<Rightarrow> string \<times> application" where
  "management_register raw a =
     (case decode_base raw of
        None \<Rightarrow> (errorEnvelope ''zen_bad_request'' ''Invalid management registration'' 400, a)
      | Some b \<Rightarrow>
          (let base0 = TrimRightChar (CHR ''/'') b; base = base0 @ ''/plugins/'' @ pluginID
           in if base0 = []
              then (errorEnvelope ''zen_bad_request'' ''Missing host management prefix'' 400, a)
              else (okEnvelope (JObj [(''routes'', JArr
                      [string_map [(''Method'', ''GET''), (''Path'', base @ ''/status'')],
                       string_map [(''Method'', ''POST''), (''Path'', base @ ''/resume'')]])]),
                    a\<lparr>managementBase := base\<rparr>)))"

definition pool_call ::
  "environment \<Rightarrow> string \<Rightarrow> string \<Rightarrow> string \<Rightarrow> fileStore pool \<Rightarrow> string result \<times> fileStore pool"
where
  "pool_call E base method raw p =
     (if method = ''scheduler.pick'' then handle_pick E raw p
      else if method = ''usage.handle'' then handle_usage E raw p
      else if method = ''request.intercept_after'' then (Ok empty_result, p)
      else if method = ''request.intercept_before'' then handle_before E raw p
      else if method = ''management.handle'' then management E base raw p
      else (Ok (errorEnvelope ''zen_method_unsupported'' ''Unsupported Zen plugin method'' 400), p))"

definition call :: "environment \<Rightarrow> string \<Rightarrow> string \<Rightarrow> application \<Rightarrow> string result \<times> application" where
  "call E method raw a =
     (if method = ''plugin.register'' \<or> method = ''plugin.reconfigure'' then configure E raw a
      else if method = ''plugin.quiesce'' then (Ok empty_result, a)
      else if method = ''plugin.shutdown'' then
        (case app_close E a of
           (Panic, a') \<Rightarrow> (Panic, a')
         | (Fail e, a') \<Rightarrow>
             (Ok (errorEnvelope ''zen_state_error''
                    (error_text (env_times E) (env_os_text E) e) 503), a')
         | (Ok _, a') \<Rightarrow> (Ok empty_result, a'))
      else if method = ''management.register'' then
        (case management_register raw a of (b, a') \<Rightarrow> (Ok b, a'))
      else case app_pool a of
        None \<Rightarrow> (Ok (errorEnvelope ''zen_not_initialized'' ''Zen pool not initialized'' 503), a)
      | Some p \<Rightarrow>
          (case pool_call E (managementBase a) method raw p of (r, p') \<Rightarrow> (r, with_pool a p')))"

section \<open>The C interface\<close>

text \<open>
  \<open>zen_plugin_call\<close>: null pointers are \<open>None\<close>, a pointer to the request is the memory it
  points to. The result is the return code and what the output buffer is set to. A
  panic of the call is recovered.
\<close>

definition max_request :: int where
  "max_request = 64 * 2 ^ 20"

definition internal_failure :: string where
  "internal_failure = errorEnvelope ''zen_internal_error'' ''Zen plugin internal failure'' 503"

definition zen_plugin_call ::
  "environment \<Rightarrow> bool \<Rightarrow> string option \<Rightarrow> string option \<Rightarrow> int \<Rightarrow> application
   \<Rightarrow> (int \<times> string option) \<times> application" where
  "zen_plugin_call E out_null method request len a =
     (if out_null then ((1, None), a)
      else case method of
        None \<Rightarrow> ((1, None), a)
      | Some m \<Rightarrow>
          if max_request < len \<or> 0 < len \<and> request = None then ((1, None), a)
          else let raw = (case request of None \<Rightarrow> [] | Some mem \<Rightarrow> take (nat len) mem)
               in case call E m raw a of
                    (Ok b, a') \<Rightarrow> ((0, Some b), a')
                  | (_, a') \<Rightarrow> ((0, Some internal_failure), failClosed a'))"

definition zen_plugin_shutdown :: "environment \<Rightarrow> application \<Rightarrow> application" where
  "zen_plugin_shutdown E a = snd (app_close E a)"

end
