(* ===== verification/Zen_Answers.thy ===== *)
theory Zen_Answers
  imports Zen_Dispatch Zen_Codec Go_Json_Escape
begin

text \<open>
  What the host gets to read: every answer of the plugin is one JSON envelope, and the
  bodies that are sent inside of it in base64 come out as they went in.
\<close>

section \<open>Reading an answer\<close>

text \<open>The envelope of an answer: whether it is a success, and its content.\<close>

definition open_envelope :: "string \<Rightarrow> (bool \<times> json) option" where
  "open_envelope b =
     (case json_unmarshal b of
        Some (JObj [(k, JBool ok), (k', v)]) \<Rightarrow>
          if k = ''ok'' \<and> k' = (if ok then ''result'' else ''error'') then Some (ok, v) else None
      | _ \<Rightarrow> None)"

text \<open>The bytes of a member of the content.\<close>

definition answer_body :: "string \<Rightarrow> string \<Rightarrow> string option" where
  "answer_body name b =
     (case open_envelope b of
        Some (True, JObj ms) \<Rightarrow> Option.bind (map_of ms name) (read_bytes [])
      | _ \<Rightarrow> None)"

section \<open>Values that the plugin builds\<close>

lemma ascii_names [simp]:
  "ascii_name ''ok''" "ascii_name ''result''" "ascii_name ''error''" "ascii_name ''code''"
  "ascii_name ''message''" "ascii_name ''retryable''" "ascii_name ''http_status''"
  "ascii_name ''Handled''" "ascii_name ''AuthID''" "ascii_name ''routes''" "ascii_name ''Method''"
  "ascii_name ''Path''" "ascii_name ''StatusCode''" "ascii_name ''Headers''" "ascii_name ''Body''"
  "ascii_name ''Terminate''" "ascii_name ''ResponseHeaders''" "ascii_name ''ResponseBody''"
  "ascii_name ''Cache-Control''" "ascii_name ''Content-Type''"
  "ascii_name ''X-Content-Type-Options''" "ascii_name ''Retry-After''"
  "ascii_name ''reason''" "ascii_name ''eligible''" "ascii_name ''exhausted''"
  "ascii_name ''suspended''" "ascii_name ''unavailable''" "ascii_name ''retry_at''"
  by code_simp+


lemma json_nat_quoted [simp]:
  "0 \<le> n \<Longrightarrow> quoted (json_nat n)" "json_height (json_nat n) = 0" "clean (json_nat n) = json_nat n"
  by (simp_all add: json_nat_def show_int_def show_uint_num_text)

lemma registration_names [simp]:
  "ascii_name ''capabilities''" "ascii_name ''management_api''" "ascii_name ''request_interceptor''"
  "ascii_name ''scheduler''" "ascii_name ''usage_plugin''" "ascii_name ''metadata''"
  "ascii_name ''Author''" "ascii_name ''ConfigFields''" "ascii_name ''GitHubRepository''"
  "ascii_name ''Name''" "ascii_name ''Version''" "ascii_name ''Type''" "ascii_name ''Description''"
  "ascii_name ''schema_version''"
  by code_simp+

lemma registration_quoted: "quoted registration" "json_height registration \<le> 9000"
proof -
  show "quoted registration" by (simp add: registration_def config_field_def)
  show "json_height registration \<le> 9000" by (simp add: registration_def config_field_def)
qed

lemma json_bytes_quoted [simp]: "quoted (json_bytes b)" "json_height (json_bytes b) = 0"
  by (simp_all add: json_bytes_def)

lemma string_map_quoted:
  "list_all (ascii_name \<circ> fst) ms \<Longrightarrow> quoted (string_map ms)" "json_height (string_map ms) \<le> 1"
proof -
  show "list_all (ascii_name \<circ> fst) ms \<Longrightarrow> quoted (string_map ms)"
    by (auto simp: string_map_def list_all_iff)
  have "foldr (\<lambda>(k, v) h. max (json_height (json_quote v)) h) ms 0 = (0 :: int)" by (induction ms) auto
  then show "json_height (string_map ms) \<le> 1"
    by (simp add: string_map_def foldr_map o_def case_prod_unfold)
qed

lemma header_json_quoted:
  "list_all (ascii_name \<circ> fst) h \<Longrightarrow> quoted (header_json h)" "json_height (header_json h) \<le> 2"
proof -
  show "list_all (ascii_name \<circ> fst) h \<Longrightarrow> quoted (header_json h)"
    by (fastforce simp: header_json_def list_all_iff)
  have "foldr (\<lambda>v h. max (json_height (json_quote v)) h) vs 0 = (0 :: int)" for vs
    by (induction vs) auto
  then have "json_height (JArr (map json_quote vs)) \<le> 1" for vs
    by (simp add: foldr_map o_def)
  then have "foldr (\<lambda>x. max (json_height (JArr (map json_quote (snd x))))) h 0 \<le> 1"
    by (intro foldr_max_bound) auto
  then show "json_height (header_json h) \<le> 2"
    by (simp add: header_json_def foldr_map o_def case_prod_unfold)
qed

lemma byte_b64_ascii: "0 \<le> n \<Longrightarrow> n < 64 \<Longrightarrow> byte (b64_char n) < 128"
  by (auto simp: byte_b64_char)

lemma byte_pad: "byte (CHR ''='') = 61"
  by (simp add: byte_def)

lemma b64_ascii: "list_all (\<lambda>c. byte c < 128) (b64_encode b)"
proof (induction b rule: b64_encode.induct)
  case (4 a b c s)
  then show ?case by (simp add: byte_b64_ascii byte_parts)
qed (simp_all add: byte_b64_ascii byte_parts byte_pad)

lemma clean_bytes: "Option.bind (Some (clean (json_bytes b))) (read_bytes old) = Some b"
  by (simp add: json_bytes_def clean_quote sanitize_ascii [OF b64_ascii] b64_round_trip)

section \<open>Envelopes are opened\<close>

lemma open_okEnvelope:
  assumes "quoted v" "json_height v \<le> 9000"
  shows "open_envelope (okEnvelope v) = Some (True, clean v)"
proof -
  have "json_unmarshal (okEnvelope v) = Some (clean (JObj [(''ok'', JBool True), (''result'', v)]))"
    unfolding okEnvelope_def using assms
    by (intro json_unmarshal_quoted) (simp_all add: max_nesting_def)
  then show ?thesis by (simp add: open_envelope_def)
qed

lemma open_errorEnvelope:
  assumes "0 \<le> status"
  shows "\<exists>v. open_envelope (errorEnvelope code message status) = Some (False, v)"
proof -
  let ?v = "JObj [(''ok'', JBool False),
       (''error'', JObj [(''code'', json_quote code), (''message'', json_quote message),
          (''retryable'', JBool False), (''http_status'', json_nat status)])]"
  have "json_unmarshal (errorEnvelope code message status) = Some (clean ?v)"
    unfolding errorEnvelope_def using assms
    by (intro json_unmarshal_quoted) (simp_all add: max_nesting_def)
  then show ?thesis by (simp add: open_envelope_def)
qed

lemma open_managementJSON:
  assumes "0 \<le> status"
  shows "answer_body ''Body'' (managementJSON status (Some b)) = Some b"
    and "open_envelope (managementJSON status (Some b)) \<noteq> None"
proof -
  let ?ms = "[(''StatusCode'', json_nat status), (''Headers'', management_headers), (''Body'', json_bytes b)]"
  have h: "quoted management_headers" "json_height management_headers \<le> 2"
    unfolding management_headers_def by (rule header_json_quoted; simp)+
  have "quoted (JObj ?ms)" using assms h by simp
  moreover have "json_height (JObj ?ms) \<le> 9000" using h by simp
  ultimately have "open_envelope (managementJSON status (Some b)) = Some (True, clean (JObj ?ms))"
    by (simp add: managementJSON_def open_okEnvelope del: quoted.simps json_height.simps)
  then show "answer_body ''Body'' (managementJSON status (Some b)) = Some b"
    and "open_envelope (managementJSON status (Some b)) \<noteq> None"
    using clean_bytes [of b] by (simp_all add: answer_body_def)
qed

lemma open_refusal:
  "answer_body ''ResponseBody'' (refusal E e) = Some (error_text (env_times E) (env_os_text E) e)"
  "open_envelope (refusal E e) \<noteq> None"
proof -
  define h where "h = header_json
          ([(''Cache-Control'', [''no-store'']), (''Content-Type'', [''application/json''])]
           @ (case retry_after E e of [] \<Rightarrow> [] | ns \<Rightarrow> [(''Retry-After'', ns)]))"
  have hq: "quoted h" "json_height h \<le> 2"
    unfolding h_def by (rule header_json_quoted; simp split: list.split)+
  let ?ms = "[(''Terminate'', JBool True), (''StatusCode'', json_nat 503), (''ResponseHeaders'', h),
       (''ResponseBody'', json_bytes (error_text (env_times E) (env_os_text E) e))]"
  have "quoted (JObj ?ms)" using hq by simp
  moreover have "json_height (JObj ?ms) \<le> 9000" using hq by simp
  moreover have "refusal E e = okEnvelope (JObj ?ms)" unfolding refusal_def h_def ..
  ultimately have "open_envelope (refusal E e) = Some (True, clean (JObj ?ms))"
    by (simp add: open_okEnvelope del: quoted.simps json_height.simps)
  then show
    "answer_body ''ResponseBody'' (refusal E e) = Some (error_text (env_times E) (env_os_text E) e)"
    "open_envelope (refusal E e) \<noteq> None"
    using clean_bytes by (simp_all add: answer_body_def)
qed

end
