(* ===== verification/Zen_Dispatch_Facts.thy ===== *)
theory Zen_Dispatch_Facts
  imports Zen_Dispatch Zen_Pool_Steps
begin

text \<open>
  The application as a client of the pool's state machine: every call of the plugin acts
  on its pool by events of that machine, so that what holds of every pool that can be
  reached holds of the pool behind the C interface.
\<close>

section \<open>Sequences of pool events\<close>

text \<open>The events a call causes; only a shutdown closes the pool, and no call clears a fault.\<close>

fun call_event :: "pool_event \<Rightarrow> bool" where
  "call_event EClose = False"
| "call_event (EFault f) \<longleftrightarrow> f \<noteq> []"
| "call_event _ = True"

inductive pool_run :: "'s stateStore \<Rightarrow> golib \<Rightarrow> time \<Rightarrow> 's pool \<Rightarrow> 's pool \<Rightarrow> bool" for M G t where
  stop [intro]: "pool_run M G t p p"
| more: "pool_run M G t p q \<Longrightarrow> call_event e \<Longrightarrow> pool_step M G t e q = (b, r) \<Longrightarrow> pool_run M G t p r"

lemma pool_run_step: "call_event e \<Longrightarrow> pool_step M G t e p = (b, q) \<Longrightarrow> pool_run M G t p q"
  by (rule pool_run.more [OF pool_run.stop])

lemma pool_run_fault: "pool_run M G t p q \<Longrightarrow> f \<noteq> [] \<Longrightarrow> pool_run M G t p (q\<lparr>p_fault := f\<rparr>)"
  by (rule pool_run.more [where e = "EFault f" and b = False]) simp_all

lemma pool_run_wf: "pool_run M G t p q \<Longrightarrow> wf_pool p \<Longrightarrow> wf_pool q"
  by (induction rule: pool_run.induct) (auto dest: pool_step_wf)

lemma pool_run_reach:
  "pool_run M G t' p q \<Longrightarrow> pool_reach M G t p \<Longrightarrow> t \<le> t' \<Longrightarrow> pool_reach M G t' q"
proof (induction rule: pool_run.induct)
  case (stop p)
  then show ?case by (auto intro: pool_reach.event [where e = EStatus])
next
  case (more p q e b r)
  then show ?case by (auto intro: pool_reach.event)
qed

text \<open>A pool without a store keeps its fault: nothing but a shutdown ends it.\<close>

definition storeless :: "'s pool \<Rightarrow> bool" where
  "storeless p \<longleftrightarrow> p_store p = None \<and> p_fault p \<noteq> []"

lemma saved_storeless: "storeless p \<Longrightarrow> saved M p = (Fail ErrState, p)"
  by (simp add: storeless_def saved_def saveLocked_def)

lemma storeless_put_key [simp]: "storeless (put_key h k p) \<longleftrightarrow> storeless p"
  by (simp add: storeless_def)

lemma storeless_frame:
  assumes "storeless p"
  shows "snd (Pick M t req p) = p" "snd (Guard G t m h p) = p" "snd (Observe M G t x p) = p"
    "snd (Reconfigure M t cfg p) = p" "storeless (snd (Resume M t l c p))"
  using assms saved_storeless [OF assms]
  by (simp_all add: storeless_def Pick_def Guard_def Observe_def Reconfigure_def)
    (auto simp: Resume_def saved_storeless storeless_def split: option.split)

lemma storeless_step:
  assumes "storeless p" "call_event e" "pool_step M G t e p = (b, q)"
  shows "storeless q"
proof -
  have "q = snd (pool_step M G t e p)" using assms(3) by simp
  with storeless_frame [OF assms(1)] assms(1,2) show ?thesis
    by (cases e) (simp_all add: storeless_def)
qed

lemma pool_run_storeless: "pool_run M G t p q \<Longrightarrow> storeless p \<Longrightarrow> storeless q"
  by (induction rule: pool_run.induct) (auto intro: storeless_step)

text \<open>An operation that is an event, and its result when the pool is well formed.\<close>

lemma Pick_run: "Pick M now req p = (r, q) \<Longrightarrow> pool_run M G now p q"
  by (rule pool_run_step [where e = "EPick req"]) simp_all

lemma Observe_run: "Observe M G now x p = (r, q) \<Longrightarrow> pool_run M G now p q"
  by (rule pool_run_step [where e = "EObserve x"]) simp_all

lemma Guard_run: "Guard G now m h p = (r, q) \<Longrightarrow> pool_run M G now p q"
  by (rule pool_run_step [where e = "EGuard m h"]) simp_all

lemma Resume_run: "Resume M now l c p = (r, q) \<Longrightarrow> pool_run M G now p q"
  by (rule pool_run_step [where e = "EResume l c"]) simp_all

lemma Reconfigure_run: "Reconfigure M now cfg p = (r, q) \<Longrightarrow> pool_run M G now p q"
  by (rule pool_run_step [where e = "EReconfigure cfg"]) simp_all

lemmas operation_runs = Pick_run Observe_run Guard_run Resume_run

lemma step_no_panic: "wf_pool p \<Longrightarrow> \<not> fst (pool_step M G now e p)"
  using pool_step_wf [of p M G now e] by (metis prod.collapse)

lemma operation_no_panic:
  assumes "wf_pool p"
  shows "fst (Pick M now req p) \<noteq> Panic" "fst (Observe M G now x p) \<noteq> Panic"
    "fst (Guard G now m h p) \<noteq> Panic" "fst (Resume M now l c p) \<noteq> Panic"
    "fst (Reconfigure M now cfg p) \<noteq> Panic" "fst (Close M p) \<noteq> Panic"
  using step_no_panic [OF assms, of M G now "EPick req"] step_no_panic [OF assms, of M G now "EObserve x"]
    step_no_panic [OF assms, of M G now "EGuard m h"] step_no_panic [OF assms, of M G now "EResume l c"]
    step_no_panic [OF assms, of M G now "EReconfigure cfg"] step_no_panic [OF assms, of M G now EClose]
  by simp_all

section \<open>The handlers\<close>

text \<open>A handler acts on the pool by events, and answers unless the pool is malformed.\<close>

definition serves ::
  "environment \<Rightarrow> fileStore pool \<Rightarrow> string result \<times> fileStore pool \<Rightarrow> bool" where
  "serves E p r \<longleftrightarrow>
     pool_run (env_ops E) (env_lib E) (env_now E) p (snd r) \<and> (wf_pool p \<longrightarrow> is_Ok (fst r))"

lemma serves_same [simp]: "serves E p (Ok b, p)"
  by (auto simp: serves_def)

lemma serves_operation:
  assumes "\<And>r q. R = (r, q) \<Longrightarrow> pool_run (env_ops E) (env_lib E) (env_now E) p q"
    and "wf_pool p \<Longrightarrow> fst R \<noteq> Panic"
  shows "serves E p (case R of (Panic, q) \<Rightarrow> (Panic, q)
    | (Fail e, q) \<Rightarrow> (Ok (f e), q) | (Ok x, q) \<Rightarrow> (Ok (g x), q))"
proof (cases R)
  case (Pair r q)
  with assms show ?thesis by (cases r) (auto simp: serves_def)
qed

lemma handle_pick_serves [handler_serves]: "serves E p (handle_pick E raw p)"
proof (cases "decode_request raw")
  case (Some req)
  then show ?thesis unfolding handle_pick_def
    by (simp only: option.case, intro serves_operation)
      (erule operation_runs, erule operation_no_panic)
qed (simp add: handle_pick_def)

lemma handle_usage_serves [handler_serves]: "serves E p (handle_usage E raw p)"
proof (cases "decode_record (env_times E) (range_keys (env_host E)) raw")
  case (Some r)
  then show ?thesis unfolding handle_usage_def
    by (simp only: option.case, intro serves_operation)
      (erule operation_runs, erule operation_no_panic)
qed (simp add: handle_usage_def)

lemma handle_before_serves [handler_serves]: "serves E p (handle_before E raw p)"
proof (cases "decode_event raw")
  case (Some e)
  obtain m q h where "e = (m, q, h)" by (cases e)
  with Some show ?thesis unfolding handle_before_def Let_def
    by (simp only: option.case prod.case, intro serves_operation)
      (erule operation_runs, erule operation_no_panic)
qed (simp add: handle_before_def)

lemma handle_resume_serves [handler_serves]: "serves E p (handle_resume E body p)"
proof (cases "4096 < int (length body) \<or> decode_resume body = None")
  case False
  then obtain l c where "decode_resume body = Some (l, c)" by auto
  with False show ?thesis unfolding handle_resume_def
    by (simp only: option.case prod.case if_False de_Morgan_disj, intro serves_operation)
      (erule operation_runs, erule operation_no_panic)
qed (auto simp: handle_resume_def)

lemma handle_status_serves [handler_serves]: "serves E p (handle_status E p, p)"
  using Status_total [of p "env_now E"]
  by (auto simp: handle_status_def serves_def split: outcome.split)

lemma pool_call_serves: "serves E p (pool_call E base meth raw p)"
  by (auto simp: pool_call_def management_def handler_serves split: option.split)

section \<open>The application\<close>

text \<open>
  One call of the plugin on the pool behind it: the pool goes on by events, is gone, or
  is one that was just opened or put in place of one.
\<close>

definition new_pool :: "environment \<Rightarrow> fileStore pool \<Rightarrow> bool" where
  "new_pool E p \<longleftrightarrow>
     (\<exists>cfg store. newPool (env_ops E) cfg store = Some p) \<or> (\<exists>cfg reason. p = faultedPool cfg reason)"

definition app_step :: "environment \<Rightarrow> application \<Rightarrow> application \<Rightarrow> bool" where
  "app_step E a a' \<longleftrightarrow>
     (case app_pool a' of
        None \<Rightarrow> True
      | Some p' \<Rightarrow>
          (case app_pool a of
             None \<Rightarrow> new_pool E p'
           | Some p \<Rightarrow> pool_run (env_ops E) (env_lib E) (env_now E) p p'))"

definition app_wf :: "application \<Rightarrow> bool" where
  "app_wf a \<longleftrightarrow> (\<forall>p. app_pool a = Some p \<longrightarrow> wf_pool p)"

lemma new_pool_wf: "new_pool E p \<Longrightarrow> wf_pool p"
  by (auto simp: new_pool_def intro: newPool_wf faultedPool_wf)

lemma app_step_wf: "app_step E a a' \<Longrightarrow> app_wf a \<Longrightarrow> app_wf a'"
  by (auto simp: app_step_def app_wf_def dest: new_pool_wf pool_run_wf split: option.splits)

lemma app_step_same [simp]: "app_pool a' = app_pool a \<Longrightarrow> app_step E a a'"
  by (auto simp: app_step_def split: option.split)

lemma app_step_fault:
  "app_step E a a' \<Longrightarrow> app_pool a \<noteq> None \<Longrightarrow> f \<noteq> [] \<Longrightarrow> app_step E a (set_fault f a')"
  by (auto simp: app_step_def set_fault_def intro: pool_run_fault split: option.splits)

lemma open_pool_new: "new_pool E (open_pool E cfg)"
  by (auto simp: open_pool_def new_pool_def split: option.split)

lemma configured_step:
  assumes "configured E r a = (out, a')" "app_wf a"
  shows "app_step E a a' \<and> is_Ok out"
proof (cases "app_pool a")
  case None
  with assms(1) show ?thesis
    by (auto simp: configured_def app_step_def Let_def open_pool_new split: prod.splits if_splits)
      (auto simp: new_pool_def)
next
  case (Some p)
  obtain cfg err where r: "r = (cfg, err)" by fastforce
  show ?thesis
  proof (cases err)
    case None
    obtain x q where q: "Reconfigure (env_ops E) (env_now E) cfg p = (x, q)" by fastforce
    from operation_no_panic(5) [of p "env_ops E" "env_now E" cfg] assms(2) Some q
    have "x \<noteq> Panic" by (simp add: app_wf_def)
    have "app_step E a (a\<lparr>app_pool := Some q\<rparr>)"
      using Reconfigure_run [OF q] Some by (simp add: app_step_def)
    with \<open>x \<noteq> Panic\<close> assms(1) Some q r None show ?thesis
      by (cases x) (auto simp: configured_def intro: app_step_fault)
  next
    case err: (Some e)
    have "app_step E a (set_fault ''configuration_error'' a)"
      by (rule app_step_fault) (simp_all add: Some)
    with assms(1) Some err r show ?thesis by (auto simp: configured_def)
  qed
qed

lemma configure_step:
  assumes "configure E raw a = (out, a')" "app_wf a"
  shows "app_step E a a' \<and> is_Ok out"
  using assms configured_step [OF _ assms(2)]
  by (auto simp: configure_def split: option.splits prod.splits if_splits)

lemma app_close_step:
  assumes "app_close E a = (r, a')" "app_wf a"
  shows "app_pool a' = None \<and> r \<noteq> Panic \<and> managementBase a' = managementBase a"
proof (cases "app_pool a")
  case (Some p)
  with assms(2) operation_no_panic(6) [of p "env_ops E"]
  have "fst (Close (env_ops E) p) \<noteq> Panic" by (simp add: app_wf_def)
  with assms(1) Some show ?thesis
    by (cases "Close (env_ops E) p", cases "fst (Close (env_ops E) p)") (auto simp: app_close_def)
qed (use assms(1) in \<open>auto simp: app_close_def\<close>)

text \<open>What \<open>call\<close> does with a meth that is not one of the lifecycle.\<close>

definition lifecycle :: "string \<Rightarrow> bool" where
  "lifecycle meth \<longleftrightarrow> meth \<in> {''plugin.register'', ''plugin.reconfigure'', ''plugin.quiesce'',
     ''plugin.shutdown'', ''management.register''}"

lemma call_pool:
  assumes "\<not> lifecycle meth"
  shows "call E meth raw a =
    (case app_pool a of
       None \<Rightarrow> (Ok (errorEnvelope ''zen_not_initialized'' ''Zen pool not initialized'' 503), a)
     | Some p \<Rightarrow> (case pool_call E (managementBase a) meth raw p of (r, p') \<Rightarrow> (r, with_pool a p')))"
proof -
  from assms have "meth \<noteq> ''plugin.register''" "meth \<noteq> ''plugin.reconfigure''"
    "meth \<noteq> ''plugin.quiesce''" "meth \<noteq> ''plugin.shutdown''" "meth \<noteq> ''management.register''"
    by (simp_all only: lifecycle_def insert_iff de_Morgan_disj simp_thms)
  then show ?thesis unfolding call_def by (simp only: if_False simp_thms)
qed

lemma call_step:
  assumes "call E meth raw a = (out, a')" "app_wf a"
  shows "app_step E a a' \<and> is_Ok out"
proof -
  have conf: ?thesis if "meth = ''plugin.register'' \<or> meth = ''plugin.reconfigure''"
  proof -
    from that assms(1) have "configure E raw a = (out, a')" by (simp add: call_def)
    then show ?thesis by (rule configure_step [OF _ assms(2)])
  qed
  show ?thesis
  proof (cases "lifecycle meth")
    case True
    then have "meth = ''plugin.register'' \<or> meth = ''plugin.reconfigure''
      \<or> meth = ''plugin.quiesce'' \<or> meth = ''plugin.shutdown''
      \<or> meth = ''management.register''"
      by (simp only: lifecycle_def insert_iff empty_iff simp_thms)
    then show ?thesis
    proof (elim disjE)
      assume "meth = ''plugin.quiesce''"
      with assms(1) show ?thesis by (auto simp: call_def)
    next
      assume m: "meth = ''plugin.shutdown''"
      obtain r b where b: "app_close E a = (r, b)" by fastforce
      from app_close_step [OF b assms(2)] assms(1) m b show ?thesis
        by (cases r) (auto simp: call_def app_step_def)
    next
      assume "meth = ''management.register''"
      with assms(1) show ?thesis
        by (auto simp: call_def management_register_def Let_def split: option.splits if_splits)
    qed (intro conf, simp)+
  next
    case False
    show ?thesis
    proof (cases "app_pool a")
      case None
      with assms(1) call_pool [OF False, of E raw a] show ?thesis by auto
    next
      case (Some p)
      obtain r q where q: "pool_call E (managementBase a) meth raw p = (r, q)" by fastforce
      with assms(1) call_pool [OF False] Some have "out = r" "a' = with_pool a q" by simp_all
      with pool_call_serves [of E p "managementBase a" meth raw] assms(2) Some q show ?thesis
        by (simp add: serves_def app_step_def with_pool_def app_wf_def)
    qed
  qed
qed

section \<open>Runs of the application\<close>

text \<open>
  The states the plugin can be in: it begins without a pool; calls come one after the
  other (the locks order them), at readings of the clock that do not go back, with one
  codec of instants and one set of library functions.
\<close>

inductive app_reach :: "timelib \<Rightarrow> golib \<Rightarrow> time \<Rightarrow> application \<Rightarrow> bool" for T G where
  start: "app_reach T G t \<lparr>app_pool = None, managementBase = []\<rparr>"
| called: "app_reach T G t a \<Longrightarrow> t \<le> env_now E \<Longrightarrow> env_times E = T \<Longrightarrow> env_lib E = G \<Longrightarrow>
    zen_plugin_call E out_null meth request len a = (r, a') \<Longrightarrow> app_reach T G (env_now E) a'"
| shut: "app_reach T G t a \<Longrightarrow> t \<le> env_now E \<Longrightarrow> env_times E = T \<Longrightarrow> env_lib E = G \<Longrightarrow>
    app_reach T G (env_now E) (zen_plugin_shutdown E a)"

text \<open>On a well-formed application the recovery from a panic is never needed.\<close>

lemma zen_plugin_call_step:
  assumes "zen_plugin_call E out_null meth request len a = (r, a')" "app_wf a"
  shows "app_step E a a'"
proof -
  have "app_step E a b \<and> is_Ok out" if "call E m raw a = (out, b)" for m raw out b
    by (rule call_step [OF that assms(2)])
  with assms(1) show ?thesis
    by (fastforce simp: zen_plugin_call_def Let_def split: if_splits option.splits prod.splits outcome.splits)
qed

lemma app_close_wf: "app_wf a \<Longrightarrow> app_step E a (zen_plugin_shutdown E a)"
  using app_close_step [OF prod.collapse [symmetric]]
  by (simp add: zen_plugin_shutdown_def app_step_def)

lemma app_reach_wf: "app_reach T G t a \<Longrightarrow> app_wf a"
proof (induction rule: app_reach.induct)
  case (start t)
  then show ?case by (simp add: app_wf_def)
next
  case (called t a E out_null meth request len r a')
  then show ?case by (blast intro: app_step_wf zen_plugin_call_step)
next
  case (shut t a E)
  then show ?case by (blast intro: app_step_wf app_close_wf)
qed

lemma app_step_reach:
  assumes "app_step E a a'" "app_pool a' = Some p'" "env_times E = T" "env_lib E = G" "t \<le> env_now E"
    and "\<And>p. app_pool a = Some p \<Longrightarrow> pool_reach (file_ops T) G t p"
  shows "pool_reach (file_ops T) G (env_now E) p'"
  using assms
  by (auto simp: app_step_def new_pool_def intro: pool_run_reach pool_reach.intros split: option.splits)

lemma app_reach_pool:
  "app_reach T G t a \<Longrightarrow> app_pool a = Some p \<Longrightarrow> pool_reach (file_ops T) G t p"
proof (induction arbitrary: p rule: app_reach.induct)
  case (called t a E out_null meth request len r a')
  from zen_plugin_call_step [OF called(5) app_reach_wf [OF called(1)]] show ?case
    by (rule app_step_reach) (use called in auto)
next
  case (shut t a E)
  from app_close_wf [OF app_reach_wf [OF shut(1)]] show ?case
    by (rule app_step_reach) (use shut in auto)
qed simp

section \<open>Only a shutdown takes the pool away\<close>

lemma configure_keeps_pool:
  "configure E raw a = (out, a') \<Longrightarrow> app_pool a \<noteq> None \<Longrightarrow> app_pool a' \<noteq> None"
  by (auto simp: configure_def configured_def set_fault_def Let_def
      split: option.splits prod.splits if_splits outcome.splits)

lemma call_keeps_pool:
  assumes "call E meth raw a = (out, a')" "app_pool a \<noteq> None" "meth \<noteq> ''plugin.shutdown''"
  shows "app_pool a' \<noteq> None"
proof (cases "lifecycle meth")
  case True
  then have "meth = ''plugin.register'' \<or> meth = ''plugin.reconfigure''
    \<or> meth = ''plugin.quiesce'' \<or> meth = ''plugin.shutdown''
    \<or> meth = ''management.register''"
    by (simp only: lifecycle_def insert_iff empty_iff simp_thms)
  then show ?thesis
  proof (elim disjE)
    assume "meth = ''plugin.quiesce''"
    with assms show ?thesis by (auto simp: call_def)
  next
    assume "meth = ''plugin.shutdown''"
    with assms(3) show ?thesis by blast
  next
    assume "meth = ''management.register''"
    with assms show ?thesis
      by (auto simp: call_def management_register_def Let_def split: option.splits if_splits)
  qed (use assms configure_keeps_pool in \<open>simp add: call_def\<close>)+
next
  case False
  obtain p where p: "app_pool a = Some p" using assms(2) by auto
  obtain r q where "pool_call E (managementBase a) meth raw p = (r, q)" by fastforce
  with assms(1) call_pool [OF False, of E raw a] p show ?thesis by (auto simp: with_pool_def)
qed

end
