(* ===== verification/Zen_Config_Facts.thy ===== *)
theory Zen_Config_Facts
  imports Zen_Config Zen_Codec
begin

text \<open>
  What holds of every configuration that is read: a predicate for the results of the
  reading functions, and the invariant of the loop over the providers.
\<close>

section \<open>Results of readings\<close>

definition ensures :: "('a \<Rightarrow> bool) \<Rightarrow> 'a reading \<Rightarrow> bool" where
  "ensures P r \<longleftrightarrow> (\<forall>x. r = Inr x \<longrightarrow> P x)"

lemma ensures_Inr [simp]: "ensures P (Inr x) \<longleftrightarrow> P x"
  by (simp add: ensures_def)

lemma ensures_Inl [simp]: "ensures P (Inl e)"
  by (simp add: ensures_def)

lemma ensures_attempt: "(\<And>x. r = Some x \<Longrightarrow> ensures P (f x)) \<Longrightarrow> ensures P (attempt cfg r f)"
  by (simp add: attempt_def split: option.split)

lemma ensures_and_then:
  "ensures Q r \<Longrightarrow> (\<And>x. Q x \<Longrightarrow> ensures P (f x)) \<Longrightarrow> ensures P (and_then r f)"
  by (auto simp: and_then_def ensures_def split: sum.split)

lemma ensures_True [simp]: "ensures (\<lambda>_. True) r"
  by (simp add: ensures_def)

lemma ensures_mono: "ensures P r \<Longrightarrow> (\<And>x. P x \<Longrightarrow> Q x) \<Longrightarrow> ensures Q r"
  by (simp add: ensures_def)

lemma ensuresD: "ensures P r \<Longrightarrow> r = Inr x \<Longrightarrow> P x"
  by (simp add: ensures_def)

section \<open>Numbered names\<close>

lemma show_uint_inject: "0 \<le> m \<Longrightarrow> 0 \<le> n \<Longrightarrow> show_uint m = show_uint n \<Longrightarrow> m = n"
  by (metis option.inject parse_show_uint)

lemma numbered_0 [simp]: "numbered b 0 = b"
  by (simp add: numbered_def)

lemma numbered_pos: "0 < n \<Longrightarrow> numbered b n = b @ CHR ''-'' # show_uint n"
  by (simp add: numbered_def show_int_def)

lemma numbered_inject:
  assumes "length b = length b'" "0 \<le> n" "0 \<le> n'" "numbered b n = numbered b' n'"
  shows "b = b' \<and> n = n'"
proof (cases "n = 0 \<or> n' = 0")
  case True
  have "length (numbered b n) = length b" if "n = 0" for b :: string and n using that by simp
  moreover have "length b < length (numbered b n)" if "0 < n" for b n
    using that by (simp add: numbered_pos)
  ultimately have "n = 0 \<and> n' = 0"
    using True assms by (metis order_le_less less_irrefl)
  with assms(4) show ?thesis by simp
next
  case False
  with assms have "b @ CHR ''-'' # show_uint n = b' @ CHR ''-'' # show_uint n'"
    by (simp add: numbered_pos)
  with assms(1) have "b = b'" "show_uint n = show_uint n'" by simp_all
  with show_uint_inject assms(2,3) show ?thesis by simp
qed

section \<open>The invariant of the loop over the providers\<close>

text \<open>A label of a proxy says its scheme and twelve digits of a digest, or that there is none.\<close>

definition proxy_label_ok :: "bool \<Rightarrow> string \<Rightarrow> bool" where
  "proxy_label_ok present l \<longleftrightarrow>
     (if present
      then \<exists>s\<in>set proxy_schemes. \<exists>h. l = s @ '':proxy-'' @ h \<and> length h = 12 \<and> list_all hex_lower h
      else l = ''direct-or-host-default'' \<or> l = ''direct'')"

text \<open>An account is named by the digest of a literal key.\<close>

definition account_ok :: "confighost \<Rightarrow> account \<Rightarrow> bool" where
  "account_ok E a \<longleftrightarrow>
     (\<exists>key. Fingerprint a = fingerprint (host_sum256 E) key \<and> key \<noteq> [] \<and> \<not> Contains key ''${'')
     \<and> hashID (Fingerprint a) \<and> Label a = ''zen-'' @ take 16 (Fingerprint a)
     \<and> proxy_label_ok (ProxyPresent a) (ProxyLabel a)"

lemma proxy_labelI:
  "s \<in> set proxy_schemes \<Longrightarrow> length h = 12 \<Longrightarrow> list_all hex_lower h \<Longrightarrow>
   proxy_label_ok True (s @ '':proxy-'' @ h)"
  by (auto simp: proxy_label_ok_def)

lemma safeProxy_label:
  assumes "safeProxy G H url raw = Some (present, l)" "digest H"
  shows "proxy_label_ok present l"
proof -
  have *: "length (take 12 (fingerprint H s)) = 12" "list_all hex_lower (take 12 (fingerprint H s))" for s
    using digest.fingerprint_length [OF assms(2), of s] EncodeToString_lower [of "H s"]
    by (auto simp: fingerprint_def list_all_iff dest: in_set_takeD)
  consider "\<not> present" "l = ''direct-or-host-default'' \<or> l = ''direct''"
    | u :: url where "present" "ToLower (uni_lower G) (Scheme u) \<in> set proxy_schemes"
        "l = ToLower (uni_lower G) (Scheme u) @ '':proxy-''
           @ take 12 (fingerprint H (ToLower (uni_lower G) (Host u)))"
    using assms(1) by (auto simp: safeProxy_def split: if_splits option.splits)
  then show ?thesis
  proof cases
    case 1
    then show ?thesis by (simp add: proxy_label_ok_def)
  next
    case (2 u)
    with proxy_labelI [OF 2(2) *] show ?thesis by simp
  qed
qed

text \<open>Every auth ID was handed out: it is a base of the length given, below the base's count.\<close>

definition handed_out :: "nat \<Rightarrow> id_counts \<Rightarrow> string \<Rightarrow> bool" where
  "handed_out len counts i \<longleftrightarrow>
     (\<exists>b n. i = numbered b n \<and> 0 \<le> n \<and> n < count_of counts b \<and> length b = len)"

definition ids_ok :: "nat \<Rightarrow> id_counts \<Rightarrow> account list \<Rightarrow> bool" where
  "ids_ok len counts as \<longleftrightarrow>
     (\<forall>a\<in>set as. AuthID a \<noteq> [] \<longrightarrow> handed_out len counts (AuthID a))
     \<and> distinct (filter (\<lambda>i. i \<noteq> []) (map AuthID as)) \<and> (\<forall>b. 0 \<le> count_of counts b)"

definition reader_ok :: "confighost \<Rightarrow> nat \<Rightarrow> reader \<Rightarrow> bool" where
  "reader_ok E len r \<longleftrightarrow>
     list_all (account_ok E) (Accounts (rd_cfg r)) \<and> distinct (map Fingerprint (Accounts (rd_cfg r)))
     \<and> fset (rd_seen r) = Fingerprint ` set (Accounts (rd_cfg r))
     \<and> ids_ok len (rd_counts r) (Accounts (rd_cfg r))"

lemma count_of_fmupd [simp]:
  "count_of (fmupd b n c) b' = (if b' = b then n else count_of c b')"
  by (simp add: count_of_def)

lemma nextAuthID_counts:
  assumes "nextAuthID H counts kind parts = (i, counts')"
  shows "count_of counts b \<le> count_of counts' b"
  using assms by (auto simp: nextAuthID_def Let_def)

lemma handed_out_mono:
  assumes "handed_out len counts i" "\<And>b. count_of counts b \<le> count_of counts' b"
  shows "handed_out len counts' i"
proof -
  from assms(1) obtain b n where b: "i = numbered b n" "0 \<le> n" "n < count_of counts b" "length b = len"
    by (auto simp: handed_out_def)
  with assms(2) [of b] have "n < count_of counts' b" by linarith
  with b show ?thesis by (auto simp: handed_out_def)
qed

lemma ids_ok_mono:
  assumes "ids_ok len counts as" "\<And>b. count_of counts b \<le> count_of counts' b"
  shows "ids_ok len counts' as"
  using assms by (auto simp: ids_ok_def intro: handed_out_mono order_trans)

text \<open>An ID that is handed out now was not handed out before.\<close>

lemma nextAuthID_fresh:
  assumes "nextAuthID H counts kind parts = (i, counts')" "digest H" "\<forall>b. 0 \<le> count_of counts b"
  shows "handed_out (length kind + 13) counts' i" "\<not> handed_out (length kind + 13) counts i"
proof -
  let ?b = "auth_base H kind parts"
  have len: "length ?b = length kind + 13" by (rule digest.auth_base_length [OF assms(2)])
  from assms(1) have i: "i = numbered ?b (count_of counts ?b)"
    "counts' = fmupd ?b (count_of counts ?b + 1) counts"
    by (auto simp: nextAuthID_def Let_def)
  with len assms(3) show "handed_out (length kind + 13) counts' i"
    by (auto simp: handed_out_def intro!: exI [of _ ?b] exI [of _ "count_of counts ?b"])
  show "\<not> handed_out (length kind + 13) counts i"
  proof
    assume "handed_out (length kind + 13) counts i"
    then obtain b n where b: "i = numbered b n" "0 \<le> n" "n < count_of counts b"
        "length b = length kind + 13"
      by (auto simp: handed_out_def)
    from numbered_inject [of b ?b n "count_of counts ?b"] b len i(1) assms(3) show False by auto
  qed
qed

lemma ids_ok_snoc:
  assumes "ids_ok len counts as" "handed_out len counts' (AuthID a)"
    "\<not> handed_out len counts (AuthID a)" "\<And>b. count_of counts b \<le> count_of counts' b"
  shows "ids_ok len counts' (as @ [a])"
  using assms ids_ok_mono [OF assms(1,4)] by (auto simp: ids_ok_def)

lemma reader_ok_counts:
  assumes "reader_ok E len r" "\<And>b. count_of (rd_counts r) b \<le> count_of counts' b"
  shows "reader_ok E len (r\<lparr>rd_counts := counts'\<rparr>)"
  using assms by (auto simp: reader_ok_def intro: ids_ok_mono)

lemma reader_ok_cfg:
  "Accounts cfg = Accounts (rd_cfg r) \<Longrightarrow> reader_ok E len (r\<lparr>rd_cfg := cfg\<rparr>) \<longleftrightarrow> reader_ok E len r"
  by (simp add: reader_ok_def)

lemma reader_ok_matches [simp]: "reader_ok E len (r\<lparr>rd_matches := n\<rparr>) \<longleftrightarrow> reader_ok E len r"
  by (simp add: reader_ok_def)

section \<open>The parts of the provider loop\<close>

text \<open>What reading a provider leaves alone, besides the accounts.\<close>

definition same_base :: "configuration \<Rightarrow> configuration \<Rightarrow> bool" where
  "same_base cfg cfg' \<longleftrightarrow>
     ConfigPath cfg' = ConfigPath cfg \<and> StateDir cfg' = StateDir cfg \<and> Provider cfg' = Provider cfg
     \<and> Fallback cfg' = Fallback cfg \<and> AuthSuspension cfg' = AuthSuspension cfg
     \<and> RateFallback cfg' = RateFallback cfg \<and> TransientFallback cfg' = TransientFallback cfg"

lemma same_base_refl [simp]: "same_base cfg cfg"
  by (simp add: same_base_def)

lemma same_base_trans [trans]: "same_base a b \<Longrightarrow> same_base b c \<Longrightarrow> same_base a c"
  by (simp add: same_base_def)

definition keeps :: "configuration \<Rightarrow> configuration \<Rightarrow> bool" where
  "keeps cfg cfg' \<longleftrightarrow> same_base cfg cfg' \<and> Accounts cfg' = Accounts cfg"

lemma keeps_trans: "keeps a b \<Longrightarrow> keeps b c \<Longrightarrow> keeps a c"
  by (auto simp: keeps_def intro: same_base_trans)

lemma keeps_refl [simp]: "keeps cfg cfg"
  by (simp add: keeps_def)

lemma read_headers_keeps: "ensures (keeps cfg) (read_headers G hm ks cfg)"
proof (induction ks arbitrary: cfg)
  case (Cons k ks)
  show ?case
    unfolding read_headers.simps
    by (intro ensures_attempt ensures_mono [OF Cons.IH], rule keeps_trans)
      (simp_all add: keeps_def same_base_def)
qed simp

lemma add_model_keeps: "keeps cfg (add_model prefix alias cfg)"
  by (simp add: keeps_def same_base_def add_model_def)

lemma read_models_keeps: "ensures (keeps cfg) (read_models prefix mvs cfg)"
proof (induction mvs arbitrary: cfg)
  case (Cons mv mvs)
  show ?case
    unfolding read_models.simps
    by (intro ensures_attempt ensures_mono [OF Cons.IH], rule keeps_trans [OF add_model_keeps])
qed simp

lemma provider_headers_keeps: "ensures (keeps cfg) (provider_headers E p cfg)"
  by (auto simp: provider_headers_def intro!: ensures_attempt read_headers_keeps split: option.split)

text \<open>The invariant together with the frame, of a step that may add accounts.\<close>

definition step_ok :: "confighost \<Rightarrow> nat \<Rightarrow> reader \<Rightarrow> reader \<Rightarrow> bool" where
  "step_ok E len r r' \<longleftrightarrow>
     same_base (rd_cfg r) (rd_cfg r') \<and> (reader_ok E len r \<longrightarrow> reader_ok E len r')"

lemma step_ok_refl [simp]: "step_ok E len r r"
  by (simp add: step_ok_def)

lemma step_ok_trans: "step_ok E len a b \<Longrightarrow> step_ok E len b c \<Longrightarrow> step_ok E len a c"
  by (auto simp: step_ok_def intro: same_base_trans)

lemma read_managed_step: "ensures (step_ok E len r) (read_managed E p base r)"
proof -
  have *: "step_ok E len r (r\<lparr>rd_matches := m, rd_cfg := cfg2\<rparr>)"
    if "keeps (rd_cfg r) cfg2" for m cfg2
    using that by (auto simp: step_ok_def keeps_def reader_ok_def)
  have c: "keeps (rd_cfg r) ((rd_cfg r)\<lparr>HostCoolingDisabled := c\<rparr>)" for c
    by (simp add: keeps_def same_base_def)
  show ?thesis
    unfolding read_managed_def Let_def
    by (auto intro!: ensures_attempt ensures_and_then [OF provider_headers_keeps]
        ensures_and_then [OF read_models_keeps] *) (rule keeps_trans [OF c keeps_trans])
qed

lemma add_account_step:
  assumes "digest (host_sum256 E)" "reader_ok E len r" "\<And>b. count_of (rd_counts r) b \<le> count_of counts b"
    and "authID \<noteq> [] \<Longrightarrow> handed_out len counts authID \<and> \<not> handed_out len (rd_counts r) authID"
  shows "ensures (\<lambda>r'. same_base (rd_cfg r) (rd_cfg r') \<and> reader_ok E len r')
    (add_account E disabled off key proxy authID (r\<lparr>rd_counts := counts\<rparr>))"
proof -
  let ?h = "fingerprint (host_sum256 E) key"
  have h: "hashID ?h" by (rule digest.fingerprint_hashID [OF assms(1)])
  have ids: "ids_ok len counts (Accounts (rd_cfg r) @ [a])" if "AuthID a = authID" for a
  proof (cases "authID = []")
    case True
    from assms(2) have "ids_ok len counts (Accounts (rd_cfg r))"
      by (intro ids_ok_mono [OF _ assms(3)]) (simp add: reader_ok_def)
    with True that show ?thesis by (auto simp: ids_ok_def)
  next
    case False
    with that assms show ?thesis
      by (auto simp: reader_ok_def intro: ids_ok_snoc)
  qed
  show ?thesis
    unfolding add_account_def Let_def
    using assms(2) h ids
    by (auto intro!: ensures_attempt safeProxy_label [OF _ assms(1)]
        simp: reader_ok_def same_base_def account_ok_def)
qed

lemma read_entry_step:
  assumes "digest (host_sum256 E)" "managed \<Longrightarrow> len = length kind + 13"
  shows "ensures (step_ok E len r) (read_entry E disabled managed off kind base ev r)"
  unfolding read_entry_def
proof (intro ensures_attempt)
  fix entry key proxy
  let ?n = "if off then ([], rd_counts r)
    else nextAuthID (host_sum256 E) (rd_counts r) kind [key, base, proxy]"
  obtain i counts where n: "?n = (i, counts)" by fastforce
  have mono: "count_of (rd_counts r) b \<le> count_of counts b" for b
    using n nextAuthID_counts by (fastforce split: if_splits)
  have "ensures (step_ok E len r) (add_account E disabled off key proxy i (r\<lparr>rd_counts := counts\<rparr>))"
    if managed
  proof (cases "reader_ok E len r")
    case True
    then have pos: "\<forall>b. 0 \<le> count_of (rd_counts r) b" by (simp add: reader_ok_def ids_ok_def)
    have "i \<noteq> [] \<Longrightarrow> handed_out len counts i \<and> \<not> handed_out len (rd_counts r) i"
      using n nextAuthID_fresh [OF _ assms(1) pos, of kind "[key, base, proxy]" i counts]
        assms(2) [OF that] by (auto split: if_splits)
    from add_account_step [OF assms(1) True mono this] True show ?thesis
      by (simp add: step_ok_def ensures_def)
  next
    case False
    then show ?thesis
      by (auto simp: add_account_def Let_def step_ok_def same_base_def intro!: ensures_attempt)
  qed
  moreover have "step_ok E len r (r\<lparr>rd_counts := counts\<rparr>)"
    using mono by (simp add: step_ok_def reader_ok_counts)
  ultimately show "ensures (step_ok E len r) (let (authID, counts) = ?n; r1 = r\<lparr>rd_counts := counts\<rparr>
      in if \<not> managed then Inr r1 else add_account E disabled off key proxy authID r1)"
    by (cases managed) (simp_all add: n Let_def)
qed

lemma read_entries_step:
  assumes "digest (host_sum256 E)" "managed \<Longrightarrow> len = length kind + 13"
  shows "ensures (step_ok E len r) (read_entries E disabled managed off kind base evs r)"
proof (induction evs arbitrary: r)
  case (Cons ev evs)
  show ?case
    unfolding read_entries.simps
    by (rule ensures_and_then [OF read_entry_step [OF assms]], assumption,
        rule ensures_mono [OF Cons.IH], rule step_ok_trans)
qed simp

definition id_length :: "string \<Rightarrow> nat" where
  "id_length name = length (provider_kind name) + 13"

lemma read_provider_step:
  assumes "digest (host_sum256 E)"
  shows "ensures (step_ok E (id_length name) r) (read_provider E name disabled v r)"
proof -
  have count: "step_ok E len a b \<Longrightarrow> step_ok E len a
      (b\<lparr>rd_counts := snd (nextAuthID H (rd_counts b) kind parts)\<rparr>)" for len a b H kind parts
    by (rule step_ok_trans, assumption)
      (simp add: step_ok_def reader_ok_counts nextAuthID_counts [OF prod.collapse [symmetric]])
  show ?thesis
    unfolding read_provider_def Let_def
  proof (intro ensures_attempt)
    fix p :: yaml_map and s base :: string and off :: bool and entries :: "yaml list"
    let ?pn = "if ToLower (uni_lower (host_lib E)) s = [] then ''openai-compatibility''
      else ToLower (uni_lower (host_lib E)) s"
    let ?r2 = "\<lambda>r1. if entries = [] \<and> \<not> off
      then r1\<lparr>rd_counts := snd (nextAuthID (host_sum256 E) (rd_counts r1) (provider_kind ?pn) [base])\<rparr>
      else r1"
    show "ensures (step_ok E (id_length name) r)
      (and_then (if ?pn = name then read_managed E p base r else Inr r)
        (\<lambda>r1. read_entries E disabled (?pn = name) off (provider_kind ?pn) base entries (?r2 r1)))"
    proof (rule ensures_and_then)
      show "ensures (step_ok E (id_length name) r)
        (if ?pn = name then read_managed E p base r else Inr r)"
        by (simp add: read_managed_step)
      fix r1 assume r1: "step_ok E (id_length name) r r1"
      then have r2: "step_ok E (id_length name) r (?r2 r1)" by (simp add: count)
      show "ensures (step_ok E (id_length name) r)
        (read_entries E disabled (?pn = name) off (provider_kind ?pn) base entries (?r2 r1))"
        by (rule ensures_mono [OF read_entries_step [OF assms] step_ok_trans [OF r2]])
          (simp_all only: id_length_def)
    qed
  qed
qed

lemma read_providers_step:
  assumes "digest (host_sum256 E)"
  shows "ensures (step_ok E (id_length name) r) (read_providers E name disabled vs r)"
proof (induction vs arbitrary: r)
  case (Cons v vs)
  show ?case
    unfolding read_providers.simps
    by (rule ensures_and_then [OF read_provider_step [OF assms]],
        rule ensures_mono [OF Cons.IH], rule step_ok_trans)
qed simp

section \<open>The options\<close>

definition duration_ok :: "duration \<Rightarrow> bool" where
  "duration_ok d \<longleftrightarrow> Second \<le> d \<and> d \<le> max_window"

lemma durationValue_ok:
  "durationValue m name dflt = Some d \<Longrightarrow> duration_ok dflt \<Longrightarrow> duration_ok d"
  by (auto simp: durationValue_def duration_ok_def split: if_splits option.splits)

lemma duration_defaults:
  "duration_ok (30 * Minute)" "duration_ok (15 * Minute)" "duration_ok Second"
  "duration_ok (30 * Second)"
  by (simp_all add: duration_ok_def max_window_value duration_units)

definition durations_ok :: "configuration \<Rightarrow> bool" where
  "durations_ok cfg \<longleftrightarrow>
     list_all duration_ok [Fallback cfg, AuthSuspension cfg, RateFallback cfg, TransientFallback cfg]"

lemma read_durations_ok:
  "ensures (\<lambda>c. durations_ok c \<and> Accounts c = Accounts cfg) (read_durations opts cfg)"
  unfolding read_durations_def Let_def
  by (intro ensures_attempt)
    (simp add: durations_ok_def durationValue_ok [OF _ duration_defaults(1)]
      durationValue_ok [OF _ duration_defaults(2)] durationValue_ok [OF _ duration_defaults(3)]
      durationValue_ok [OF _ duration_defaults(4)])

definition provider_ok :: "string \<Rightarrow> bool" where
  "provider_ok p \<longleftrightarrow> safeProvider p \<and> HasPrefix p provider_prefix"

lemma provider_prefix_safe: "safeProvider s \<Longrightarrow> safeProvider (provider_prefix @ s)"
  by (cases s)
    (auto simp: safeProvider_def provider_prefix_def provider_char_def is_lower_def is_digit_def)

lemma read_provider_name_ok:
  "durations_ok cfg \<Longrightarrow>
   ensures (\<lambda>(name, ls, c). durations_ok c \<and> Accounts c = Accounts cfg \<and> provider_ok (Provider c))
     (read_provider_name G opts cfg)"
  unfolding read_provider_name_def Let_def
  by (auto intro!: ensures_attempt simp: provider_ok_def provider_prefix_safe durations_ok_def HasPrefix_iff)

lemma read_state_dir_ok:
  "ensures (\<lambda>c. \<exists>d. c = cfg\<lparr>StateDir := d\<rparr>) (read_state_dir E opts hostmap cfg)"
  unfolding read_state_dir_def by (intro ensures_attempt) auto

lemma read_path_ok: "ensures (\<lambda>c. Accounts c = []) (read_path E opts)"
  by (auto simp: read_path_def Let_def empty_configuration_def intro!: ensures_attempt)

section \<open>Every configuration that is accepted\<close>

definition config_ok :: "confighost \<Rightarrow> configuration \<Rightarrow> bool" where
  "config_ok E cfg \<longleftrightarrow>
     int (length (Accounts cfg)) \<le> max_accounts \<and> list_all (account_ok E) (Accounts cfg)
     \<and> distinct (map Fingerprint (Accounts cfg))
     \<and> distinct (filter (\<lambda>i. i \<noteq> []) (map AuthID (Accounts cfg)))
     \<and> durations_ok cfg \<and> provider_ok (Provider cfg)"

lemma reader_start: "Accounts cfg = [] \<Longrightarrow>
    reader_ok E len \<lparr>rd_cfg = cfg, rd_counts = fmempty, rd_seen = {||}, rd_matches = 0\<rparr>"
  by (simp add: reader_ok_def ids_ok_def count_of_def)

lemma reader_done:
  assumes "step_ok E len r0 r" "reader_ok E len r0" "int (length (Accounts (rd_cfg r))) \<le> max_accounts"
    and "durations_ok (rd_cfg r0)" "provider_ok (Provider (rd_cfg r0))"
  shows "config_ok E (rd_cfg r)"
  using assms
  by (auto simp: step_ok_def config_ok_def reader_ok_def ids_ok_def same_base_def durations_ok_def)

lemma read_all_ok:
  assumes "digest (host_sum256 E)"
  shows "ensures (config_ok E) (read_all E raw)"
  unfolding read_all_def
proof (intro ensures_attempt)
  fix opts
  let ?tail = "\<lambda>name disabled hostmap cfg4. attempt cfg4 (listValue hostmap ''openai-compatibility'')
    (\<lambda>providers. and_then (read_providers E name disabled providers
         \<lparr>rd_cfg = cfg4, rd_counts = fmempty, rd_seen = {||}, rd_matches = 0\<rparr>) (\<lambda>r.
       if max_accounts < int (length (Accounts (rd_cfg r))) then Inl (rd_cfg r, ErrConfig)
       else Inr (rd_cfg r)))"
  have tail: "ensures (config_ok E) (?tail name disabled hostmap cfg4)"
    if "durations_ok cfg4" "Accounts cfg4 = []" "provider_ok (Provider cfg4)"
    for name disabled hostmap cfg4
    by (intro ensures_attempt ensures_and_then [OF read_providers_step [OF assms]])
      (use that in \<open>auto intro: reader_done reader_start\<close>)
  have dir: "ensures (config_ok E) (and_then (read_state_dir E opts hostmap cfg3)
      (?tail name disabled hostmap))"
    if "durations_ok cfg3" "Accounts cfg3 = []" "provider_ok (Provider cfg3)"
    for name disabled hostmap cfg3
    by (rule ensures_and_then [OF read_state_dir_ok])
      (use that in \<open>auto intro!: tail simp: durations_ok_def\<close>)
  show "ensures (config_ok E) (and_then (read_path E opts) (\<lambda>cfg1.
     and_then (read_durations opts cfg1) (\<lambda>cfg2.
     and_then (read_provider_name (host_lib E) opts cfg2) (\<lambda>(name, disabled, cfg3).
     and_then (read_root E cfg3) (\<lambda>hostmap.
     and_then (read_state_dir E opts hostmap cfg3) (?tail name disabled hostmap))))))"
    by (rule ensures_and_then [OF read_path_ok], rule ensures_and_then [OF read_durations_ok],
        rule ensures_and_then [OF read_provider_name_ok], simp, clarify,
        rule ensures_and_then [OF ensures_True], rule dir) simp_all
qed

lemma readConfiguration_ok:
  assumes "digest (host_sum256 E)" "readConfiguration E raw = (cfg, None)"
  shows "config_ok E cfg"
proof -
  from assms(2) have "read_all E raw = Inr cfg"
    by (auto simp: readConfiguration_def split: sum.splits)
  with read_all_ok [OF assms(1), of raw] show ?thesis by (simp add: ensures_def)
qed

end
