(* ===== verification/Zen_Yaml_Facts.thy ===== *)
theory Zen_Yaml_Facts
  imports Zen_Yaml
begin

text \<open>
  What the walk over a YAML document computes. The reference \<open>unfold_node\<close> unfolds the
  graph of nodes into a tree, to the same depth, with neither a budget nor a set of
  unfinished nodes; it also counts the nodes of the tree. The walk returns the value of
  that tree exactly when the tree fits the budget.
\<close>

section \<open>The reference\<close>

function unfold_node :: "yaml_document \<Rightarrow> nat \<Rightarrow> nat option \<Rightarrow> (yaml \<times> nat) option"
and unfold_items :: "yaml_document \<Rightarrow> nat \<Rightarrow> int list \<Rightarrow> (yaml list \<times> nat) option"
and unfold_pairs ::
  "yaml_document \<Rightarrow> nat \<Rightarrow> (int \<times> int) list \<Rightarrow> map_acc \<Rightarrow> (map_acc \<times> nat) option"
where
  "unfold_node doc depth None = None"
| "unfold_node doc depth (Some p) =
     (if max_depth < depth \<or> \<not> tag_ok (node_tag (node_at doc p)) then None
      else case node_data (node_at doc p) of
        Scalar s \<Rightarrow> Some (YStr s, 1)
      | Sequence is \<Rightarrow>
          map_option (\<lambda>(vs, k). (YSeq vs, Suc k)) (unfold_items doc (depth + 1) is)
      | Mapping ps \<Rightarrow>
          map_option (\<lambda>(acc, k). (YMap (merge_all acc), Suc k))
            (unfold_pairs doc (depth + 1) ps no_members)
      | NoNode \<Rightarrow> None)"
| "unfold_items doc depth [] = Some ([], 0)"
| "unfold_items doc depth (i # is) =
     (if max_depth + 1 < depth then None
      else case unfold_node doc depth (get_node doc i) of
        None \<Rightarrow> None
      | Some (v, k) \<Rightarrow>
          map_option (\<lambda>(vs, k'). (v # vs, k + k')) (unfold_items doc depth is))"
| "unfold_pairs doc depth [] acc = Some (acc, 0)"
| "unfold_pairs doc depth ((i, j) # ps) acc =
     (if max_depth + 1 < depth then None
      else case unfold_node doc depth (get_node doc i) of
        Some (YStr key, k) \<Rightarrow>
          (if key \<in> set (explicit acc) then None
           else case unfold_node doc depth (get_node doc j) of
             None \<Rightarrow> None
           | Some (v, k') \<Rightarrow>
               (case add_member key v acc of
                  None \<Rightarrow> None
                | Some acc' \<Rightarrow>
                    map_option (\<lambda>(r, k''). (r, k + k' + k'')) (unfold_pairs doc depth ps acc')))
      | _ \<Rightarrow> None)"
  by pat_completeness auto
termination
  by (relation "measures
      [\<lambda>x. case x of Inl (_, d, _) \<Rightarrow> 66 - d
         | Inr (Inl (_, d, _)) \<Rightarrow> 66 - d | Inr (Inr (_, d, _, _)) \<Rightarrow> 66 - d,
       \<lambda>x. case x of Inl _ \<Rightarrow> 0
         | Inr (Inl (_, _, is)) \<Rightarrow> Suc (length is)
         | Inr (Inr (_, _, ps, _)) \<Rightarrow> Suc (length ps)]")
    (auto simp: max_depth_def)

section \<open>Cycles\<close>

definition data_indices :: "yaml_data \<Rightarrow> int list" where
  "data_indices d =
     (case d of Sequence is \<Rightarrow> is | Mapping ps \<Rightarrow> concat (map (\<lambda>(i, j). [i, j]) ps) | _ \<Rightarrow> [])"

definition children :: "yaml_document \<Rightarrow> (nat \<times> nat) set" where
  "children doc =
     {(p, q). \<exists>i\<in>set (data_indices (node_data (node_at doc p))). get_node doc i = Some q}"

lemma unfold_items_each:
  "unfold_items doc d is = Some r \<Longrightarrow> i \<in> set is \<Longrightarrow> unfold_node doc d (get_node doc i) \<noteq> None"
  by (induction "is" arbitrary: r) (auto split: if_splits option.splits)

lemma unfold_pairs_each:
  "unfold_pairs doc d ps acc = Some r \<Longrightarrow> (i, j) \<in> set ps \<Longrightarrow>
   unfold_node doc d (get_node doc i) \<noteq> None \<and> unfold_node doc d (get_node doc j) \<noteq> None"
proof (induction ps arbitrary: acc r)
  case (Cons x ps)
  obtain a b where x: "x = (a, b)" by fastforce
  from Cons.prems(1) show ?case
    using Cons.prems(2) Cons.IH
    by (auto simp: x split: if_splits option.splits yaml.splits; blast)
qed simp

lemma unfold_node_depth: "unfold_node doc d n = Some r \<Longrightarrow> d \<le> max_depth"
  by (cases n) (auto split: if_splits)

declare unfold_node.simps(2) [simp del]

lemma unfold_child:
  assumes "unfold_node doc d (Some p) \<noteq> None" "(p, q) \<in> children doc"
  shows "unfold_node doc (Suc d) (Some q) \<noteq> None"
proof -
  from assms(2) obtain i where
    i: "i \<in> set (data_indices (node_data (node_at doc p)))" "get_node doc i = Some q"
    by (auto simp: children_def)
  show ?thesis
  proof (cases "node_data (node_at doc p)")
    case (Sequence "is")
    with assms(1) obtain r where "unfold_items doc (Suc d) is = Some r"
      by (auto simp: unfold_node.simps(2) split: if_splits)
    from unfold_items_each [OF this, of i] i Sequence show ?thesis
      by (simp add: data_indices_def)
  next
    case (Mapping ps)
    with assms(1) obtain r where r: "unfold_pairs doc (Suc d) ps no_members = Some r"
      by (auto simp: unfold_node.simps(2) split: if_splits)
    from Mapping i(1) obtain a c where "(a, c) \<in> set ps" "i = a \<or> i = c"
      by (auto simp: data_indices_def)
    with unfold_pairs_each [OF r] i(2) show ?thesis by metis
  qed (use i in \<open>simp_all add: data_indices_def\<close>)
qed

lemma unfold_path:
  "(p, q) \<in> children doc ^^ k \<Longrightarrow> unfold_node doc d (Some p) \<noteq> None \<Longrightarrow>
   unfold_node doc (d + k) (Some q) \<noteq> None"
proof (induction k arbitrary: q)
  case (Suc k)
  then obtain r where "(p, r) \<in> children doc ^^ k" "(r, q) \<in> children doc" by auto
  with Suc.IH Suc.prems(2) unfold_child [of doc "d + k" r q] show ?case by simp
qed simp

lemma relpow_cycle: "(q, q) \<in> R ^^ k \<Longrightarrow> (q, q) \<in> R ^^ (k * m)"
  by (induction m) (auto simp: relpow_add)

text \<open>A node on a cycle has no unfolding, since every depth would be needed.\<close>

lemma unfold_cycle:
  assumes "(q, q) \<in> (children doc)\<^sup>+"
  shows "unfold_node doc d (Some q) = None"
proof (rule ccontr)
  assume ok: "unfold_node doc d (Some q) \<noteq> None"
  from assms obtain k where k: "0 < k" "(q, q) \<in> children doc ^^ k"
    by (auto simp: trancl_power)
  from unfold_path [OF relpow_cycle [OF k(2), of "Suc max_depth"] ok]
  obtain r where "unfold_node doc (d + k * Suc max_depth) (Some q) = Some r" by blast
  then have "d + k * Suc max_depth \<le> max_depth" by (rule unfold_node_depth)
  moreover have "Suc max_depth \<le> k * Suc max_depth" using k(1) by (cases k) auto
  ultimately show False by simp
qed

section \<open>The walk is the unfolding within the budget\<close>

text \<open>The outcome of a walk with budget \<open>b\<close>, given the unfolding and its size.\<close>

definition within :: "int \<Rightarrow> ('a \<times> nat) option \<Rightarrow> ('a \<times> int) option" where
  "within b r =
     (case r of None \<Rightarrow> None | Some (v, k) \<Rightarrow> if int k \<le> b then Some (v, b - int k) else None)"

lemma within_None [simp]: "within b None = None"
  by (simp add: within_def)

lemma within_Some: "within b (Some (v, k)) = (if int k \<le> b then Some (v, b - int k) else None)"
  by (simp add: within_def)

text \<open>The unfinished nodes are proper ancestors of the node that is visited.\<close>

definition inside :: "yaml_document \<Rightarrow> nat list \<Rightarrow> nat \<Rightarrow> bool" where
  "inside doc vis p \<longleftrightarrow> (\<forall>a\<in>set vis. (a, p) \<in> (children doc)\<^sup>+)"

definition inside_all :: "yaml_document \<Rightarrow> nat list \<Rightarrow> int list \<Rightarrow> bool" where
  "inside_all doc vis is \<longleftrightarrow> (\<forall>i\<in>set is. \<forall>q. get_node doc i = Some q \<longrightarrow> inside doc vis q)"

lemma inside_children:
  assumes "inside doc vis p"
  shows "inside_all doc (p # vis) (data_indices (node_data (node_at doc p)))"
  using assms by (fastforce simp: inside_all_def inside_def children_def intro: trancl_into_trancl)

lemma unfold_node_pos: "unfold_node doc d n = Some (v, k) \<Longrightarrow> 0 < k"
  by (cases n) (auto simp: unfold_node.simps(2) split: if_splits yaml_data.splits)

lemma decode_unfold:
  "0 \<le> b \<Longrightarrow> (\<And>p. n = Some p \<Longrightarrow> inside doc vis p) \<Longrightarrow>
     decode doc vis b d n = within b (unfold_node doc d n)"
  "0 \<le> b \<Longrightarrow> inside_all doc vis is \<Longrightarrow>
     decode_items doc vis b d is = within b (unfold_items doc d is)"
  "0 \<le> b \<Longrightarrow> inside_all doc vis (concat (map (\<lambda>(i, j). [i, j]) ps)) \<Longrightarrow>
     decode_pairs doc vis b d ps acc = within b (unfold_pairs doc d ps acc)"
proof (induction doc vis b d n and doc vis b d "is" and doc vis b d ps acc
    rule: decode_decode_items_decode_pairs.induct)
  case (1 doc vis b0 depth n)
  show ?case
  proof (cases n)
    case None
    then show ?thesis by (simp add: Let_def)
  next
    case (Some p)
    from "1.prems"(2) [OF Some] have inside: "inside doc vis p" .
    show ?thesis
    proof (cases "max_depth < depth \<or> \<not> tag_ok (node_tag (node_at doc p)) \<or> p \<in> set vis")
      case True
      then have "unfold_node doc depth (Some p) = None"
        using inside unfold_cycle [of p doc depth]
        by (auto simp: unfold_node.simps(2) inside_def)
      with True Some show ?thesis by (auto simp: Let_def)
    next
      case ok: False
      show ?thesis
      proof (cases "b0 - 1 < 0")
        case True
        with "1.prems"(1) have "within b0 (unfold_node doc depth (Some p)) = None"
          by (auto simp: within_def dest: unfold_node_pos split: option.splits)
        with True Some show ?thesis by (simp add: Let_def)
      next
        case b: False
        note c = inside_children [OF inside]
        note IH = "1.IH" [OF refl Some _ _ _, simplified]
        show ?thesis
          using ok b Some c IH
          by (auto simp: unfold_node.simps(2) Let_def within_def data_indices_def
              split: yaml_data.split option.split)
      qed
    qed
  qed
next
  case (2 doc vis b depth)
  then show ?case by (simp add: within_Some)
next
  case (3 doc vis b depth i "is")
  show ?case
  proof (cases "max_depth + 1 < depth \<or> unfold_node doc depth (get_node doc i) = None")
    case True
    with 3 show ?thesis by (auto simp: inside_all_def)
  next
    case False
    then obtain v k where u: "unfold_node doc depth (get_node doc i) = Some (v, k)" by auto
    with False 3 have d: "decode doc vis b depth (get_node doc i) = within b (Some (v, k))"
      by (auto simp: inside_all_def)
    show ?thesis
    proof (cases "int k \<le> b")
      case True
      with False 3 u d have "decode_items doc vis (b - int k) depth is =
          within (b - int k) (unfold_items doc depth is)"
        by (simp add: within_Some inside_all_def)
      with True False u d show ?thesis
        by (auto simp: within_def split: option.split)
    next
      case k: False
      with False u d show ?thesis by (auto simp: within_def split: option.split)
    qed
  qed
next
  case (4 doc vis b depth acc)
  then show ?case by (simp add: within_Some)
next
  case (5 doc vis b depth i j ps acc)
  have all: "inside_all doc vis (concat (map (\<lambda>(i, j). [i, j]) ps))"
    and one: "\<And>q. get_node doc i = Some q \<Longrightarrow> inside doc vis q"
      "\<And>q. get_node doc j = Some q \<Longrightarrow> inside doc vis q"
    using "5.prems"(2) by (auto simp: inside_all_def)
  show ?case
  proof (cases "max_depth + 1 < depth \<or> unfold_node doc depth (get_node doc i) = None")
    case True
    with "5.IH"(1) "5.prems"(1) one show ?thesis by auto
  next
    case False
    then obtain kv k where u: "unfold_node doc depth (get_node doc i) = Some (kv, k)" by auto
    with False "5.IH"(1) "5.prems"(1) one
    have d: "decode doc vis b depth (get_node doc i) = within b (Some (kv, k))" by simp
    show ?thesis
    proof (cases "int k \<le> b \<and> (\<exists>key. kv = YStr key \<and> key \<notin> set (explicit acc))")
      case fits: True
      then obtain key where kv: "kv = YStr key" "key \<notin> set (explicit acc)" by blast
      from fits d have d': "decode doc vis b depth (get_node doc i) = Some (YStr key, b - int k)"
        by (simp add: within_Some kv)
      have v: "decode doc vis (b - int k) depth (get_node doc j) =
          within (b - int k) (unfold_node doc depth (get_node doc j))"
        by (rule "5.IH"(2) [OF _ d' refl refl kv(2)]) (use False fits one in auto)
      have rest: "decode_pairs doc vis (b - int k - int k') depth ps acc' =
          within (b - int k - int k') (unfold_pairs doc depth ps acc')"
        if "unfold_node doc depth (get_node doc j) = Some (x, k')" "add_member key x acc = Some acc'"
          "int k' \<le> b - int k" for x k' acc'
        by (rule "5.IH"(3) [OF _ d' refl refl kv(2) _ refl that(2)])
          (use False that all v in \<open>auto simp: within_Some\<close>)
      show ?thesis
        using False u d' v rest kv
        by (auto simp: within_def split: option.split if_splits)
    next
      case False': False
      with False u d show ?thesis
        by (auto simp: within_def split: option.split yaml.split if_splits)
    qed
  qed
qed

end
