(* ===== verification/Zen_Yaml_Props.thy ===== *)
theory Zen_Yaml_Props
  imports Zen_Yaml_Facts
begin

text \<open>
  Properties of the YAML reader (\<open>src/yaml_native.go\<close>): the walk computes the unfolding of
  the document within its budget, no document with a cycle is accepted, and merges fill
  in what a mapping does not say itself.
\<close>

section \<open>A document with a shared node\<close>

definition yaml_nodes :: "yaml_node list" where
  "yaml_nodes =
     [\<lparr>node_tag = [], node_data = Mapping [(2, 3), (4, 7)]\<rparr>,
      \<lparr>node_tag = [], node_data = Scalar ''base''\<rparr>,
      \<lparr>node_tag = ''tag:yaml.org,2002:map'', node_data = Mapping [(5, 6)]\<rparr>,
      \<lparr>node_tag = [], node_data = Scalar ''next''\<rparr>,
      \<lparr>node_tag = [], node_data = Scalar ''x''\<rparr>,
      \<lparr>node_tag = [], node_data = Scalar ''1''\<rparr>,
      \<lparr>node_tag = [], node_data = Mapping [(8, 3), (9, 9)]\<rparr>,
      \<lparr>node_tag = [], node_data = Scalar ''<<''\<rparr>,
      \<lparr>node_tag = [], node_data = Scalar ''y''\<rparr>]"

definition list_document :: "yaml_node list \<Rightarrow> yaml_document" where
  "list_document ns =
     \<lparr>root_node = (if ns = [] then None else Some 0),
      get_node = (\<lambda>i. if 1 \<le> i \<and> i \<le> int (length ns) then Some (nat i - 1) else None),
      node_at = (\<lambda>p. ns ! p)\<rparr>"

text \<open>\<open>{base: {x: 1}, next: {<<: *base, y: y}}\<close>, whatever the text.\<close>

definition one_document :: "yaml_node list \<Rightarrow> yamllib" where
  "one_document ns =
     \<lparr>parser_initialize = (\<lambda>_. True),
      parser_load = (\<lambda>_ k. Some (list_document (if k = 0 then ns else [])))\<rparr>"

section \<open>The walk\<close>

text \<open>
  C38: The walk over a document is its unfolding into a tree, within the budget. Whatever
  the document, \<open>decode\<close> returns the value of the tree that unfolds from the root to depth
  64 if that tree exists and has at most as many nodes as the budget allows, with the
  number of nodes taken off the budget; otherwise it fails. The set of unfinished nodes
  rejects nothing that the bound on the depth would accept.
\<close>

theorem yaml_walk_is_unfolding:
  "decode doc [] yaml_budget 0 (Some r) = within yaml_budget (unfold_node doc 0 (Some r))"
  by (rule decode_unfold(1)) (simp_all add: yaml_budget_def inside_def)

text \<open>
  C39: A document that is accepted is finite as a tree: no node that can be reached from
  the root lies on a cycle, no path from the root is longer than 64 edges, and the tree,
  with every alias expanded, has at most 100000 nodes.
\<close>

theorem yaml_accepts_finite_trees:
  assumes "yamlMap Y raw = Some m" "raw \<noteq> []"
    and "zen_yaml_load Y raw = Some doc" "root_node doc = Some r"
  shows "\<exists>k\<le>100000. unfold_node doc 0 (Some r) = Some (YMap m, k)
    \<and> (\<forall>q. (r, q) \<in> (children doc)\<^sup>* \<longrightarrow> (q, q) \<notin> (children doc)\<^sup>+)
    \<and> (\<forall>n q. (r, q) \<in> children doc ^^ n \<longrightarrow> n \<le> 64)"
proof -
  from assms obtain b where "decode doc [] yaml_budget 0 (Some r) = Some (YMap m, b)"
    by (auto simp: yamlMap_def split: if_splits option.splits yaml.splits prod.splits)
  moreover have "decode doc [] yaml_budget 0 (Some r) =
      within yaml_budget (unfold_node doc 0 (Some r))"
    by (rule decode_unfold(1)) (simp_all add: yaml_budget_def inside_def)
  ultimately obtain k where u: "unfold_node doc 0 (Some r) = Some (YMap m, k)" "k \<le> 100000"
    by (auto simp: within_def yaml_budget_def split: option.splits if_splits)
  have path: "\<exists>v. unfold_node doc n (Some q) = Some v" if "(r, q) \<in> children doc ^^ n" for n q
    using unfold_path [OF that, of 0] u by auto
  then have "n \<le> 64" if "(r, q) \<in> children doc ^^ n" for n q
    using that unfold_node_depth by (fastforce simp: max_depth_def)
  moreover have "(q, q) \<notin> (children doc)\<^sup>+" if "(r, q) \<in> (children doc)\<^sup>*" for q
  proof -
    from that obtain n where "(r, q) \<in> children doc ^^ n" by (auto simp: rtrancl_power)
    with path [of q n] unfold_cycle [of q doc n] show ?thesis by auto
  qed
  ultimately show ?thesis using u by blast
qed

lemma yaml_nodes_load: "yamlMap (one_document yaml_nodes) ''text'' =
    Some (fmap_of_list [(''base'', YMap (fmap_of_list [(''x'', YStr ''1'')])),
      (''next'', YMap (fmap_of_list [(''y'', YStr ''y''), (''x'', YStr ''1'')]))])"
  by code_simp

theorem yaml_accepts_finite_trees_witness:
  "\<exists>m k. k \<le> 100000 \<and> unfold_node (list_document yaml_nodes) 0 (Some 0) = Some (YMap m, k)
    \<and> (0, 0) \<notin> (children (list_document yaml_nodes))\<^sup>+"
proof -
  have "zen_yaml_load (one_document yaml_nodes) ''text'' = Some (list_document yaml_nodes)"
    "root_node (list_document yaml_nodes) = Some 0"
    by (simp_all add: zen_yaml_load_def one_document_def list_document_def yaml_nodes_def)
  from yaml_accepts_finite_trees [OF yaml_nodes_load _ this] show ?thesis by blast
qed

section \<open>Merges\<close>

text \<open>The member a list of merged maps gives to a key: that of the first map that has it.\<close>

fun first_member :: "string \<Rightarrow> yaml_map list \<Rightarrow> yaml option" where
  "first_member k [] = None"
| "first_member k (m # ms) =
     (case fmlookup m k of Some v \<Rightarrow> Some v | None \<Rightarrow> first_member k ms)"

lemma merge_fold_lookup:
  "fmlookup (fold (\<lambda>mm m. mm ++\<^sub>f m) ms m0) k =
     (case fmlookup m0 k of Some v \<Rightarrow> Some v | None \<Rightarrow> first_member k ms)"
  by (induction ms arbitrary: m0) (auto split: option.split)

text \<open>The mappings that the value of a merge key names, in the order it names them.\<close>

fun merged_maps :: "yaml \<Rightarrow> yaml_map list" where
  "merged_maps (YMap m) = [m]"
| "merged_maps (YSeq vs) = concat (map (\<lambda>v. case v of YMap m \<Rightarrow> [m] | _ \<Rightarrow> []) vs)"
| "merged_maps (YStr _) = []"

text \<open>What a pair of nodes of a document decodes to, below the unfinished nodes \<open>vis\<close>.\<close>

definition decoded_pair ::
  "yaml_document \<Rightarrow> nat list \<Rightarrow> nat \<Rightarrow> int \<times> int \<Rightarrow> string \<times> yaml \<Rightarrow> bool" where
  "decoded_pair doc vis d ij kv \<longleftrightarrow>
     (\<exists>b b'. decode doc vis b d (get_node doc (fst ij)) = Some (YStr (fst kv), b'))
     \<and> (\<exists>b b'. decode doc vis b d (get_node doc (snd ij)) = Some (snd kv, b'))"

lemma all_maps_merged: "all_maps vs = Some ms \<Longrightarrow> ms = merged_maps (YSeq vs)"
  by (induction vs arbitrary: ms rule: all_maps.induct) auto

lemma merge_value_merged: "merge_value v = Some ms \<Longrightarrow> ms = merged_maps v"
  using all_maps_merged by (cases v) auto

lemma add_member_cases:
  assumes "add_member key v acc = Some acc'"
  shows "explicit acc' = key # explicit acc
    \<and> members acc' = (if key = ''<<'' then members acc else fmupd key v (members acc))
    \<and> merges acc' = merges acc @ (if key = ''<<'' then merged_maps v else [])"
  using assms by (auto simp: add_member_def Let_def dest: merge_value_merged split: if_splits)

lemma decode_pairs_collects:
  "decode_pairs doc vis b d ps acc = Some (acc', b') \<Longrightarrow>
   \<exists>kvs. list_all2 (decoded_pair doc vis d) ps kvs \<and> distinct (map fst kvs)
     \<and> fst ` set kvs \<inter> set (explicit acc) = {}
     \<and> (\<forall>k. fmlookup (members acc') k =
          (if k \<noteq> ''<<'' \<and> map_of kvs k \<noteq> None then map_of kvs k else fmlookup (members acc) k))
     \<and> merges acc' = merges acc @ (case map_of kvs ''<<'' of None \<Rightarrow> [] | Some v \<Rightarrow> merged_maps v)"
proof (induction ps arbitrary: b acc)
  case Nil
  then show ?case by (intro exI [of _ "[]"]) simp
next
  case (Cons x ps)
  obtain i j where x: "x = (i, j)" by fastforce
  from Cons.prems obtain key v bk bv acc1 where
    s: "decode doc vis b d (get_node doc i) = Some (YStr key, bk)" "key \<notin> set (explicit acc)"
      "decode doc vis bk d (get_node doc j) = Some (v, bv)"
      "add_member key v acc = Some acc1" "decode_pairs doc vis bv d ps acc1 = Some (acc', b')"
    by (auto simp: x simp del: decode.simps split: if_splits option.splits yaml.splits)
  from Cons.IH [OF s(5)] obtain kvs where k: "list_all2 (decoded_pair doc vis d) ps kvs"
      "distinct (map fst kvs)" "fst ` set kvs \<inter> set (explicit acc1) = {}"
      "\<And>k. fmlookup (members acc') k =
          (if k \<noteq> ''<<'' \<and> map_of kvs k \<noteq> None then map_of kvs k else fmlookup (members acc1) k)"
      "merges acc' = merges acc1 @ (case map_of kvs ''<<'' of None \<Rightarrow> [] | Some v \<Rightarrow> merged_maps v)"
    by blast
  note a = add_member_cases [OF s(4)]
  have new: "key \<notin> fst ` set kvs" using k(3) a by auto
  then have no: "map_of kvs key = None" by (simp add: map_of_eq_None_iff)
  have "decoded_pair doc vis d x (key, v)"
    unfolding decoded_pair_def x fst_conv snd_conv using s(1,3) by blast
  with k(1) have "list_all2 (decoded_pair doc vis d) (x # ps) ((key, v) # kvs)" by simp
  moreover have "distinct (map fst ((key, v) # kvs))" using k(2) new by simp
  moreover have "fst ` set ((key, v) # kvs) \<inter> set (explicit acc) = {}" using k(3) a s(2) by auto
  moreover have "fmlookup (members acc') k =
      (if k \<noteq> ''<<'' \<and> map_of ((key, v) # kvs) k \<noteq> None then map_of ((key, v) # kvs) k
       else fmlookup (members acc) k)" for k
    using k(4) [of k] a no by (cases "k = key") simp_all
  moreover have "merges acc' = merges acc @
      (case map_of ((key, v) # kvs) ''<<'' of None \<Rightarrow> [] | Some v \<Rightarrow> merged_maps v)"
    using k(5) a no by (cases "key = ''<<''") simp_all
  ultimately show ?case by (intro exI [of _ "(key, v) # kvs"] conjI allI) assumption+
qed

text \<open>
  C40: What a mapping means is fixed by its document. When a mapping node is decoded, its
  keys are pairwise different, a key of its own (other than the merge key \<open><<\<close>) has the
  value the document pairs it with, before or after a merge key, and any other key is
  taken from the first mapping, in the order in which the value of the merge key names
  them in the document, that has it.
\<close>

theorem yaml_explicit_members_win:
  assumes "decode doc vis b d (Some p) = Some (YMap m, b')"
    and "node_data (node_at doc p) = Mapping ps"
  shows "\<exists>kvs. list_all2 (decoded_pair doc (p # vis) (d + 1)) ps kvs \<and> distinct (map fst kvs)
    \<and> (\<forall>k. fmlookup m k =
         (if k \<noteq> ''<<'' \<and> map_of kvs k \<noteq> None then map_of kvs k
          else first_member k (case map_of kvs ''<<'' of None \<Rightarrow> [] | Some v \<Rightarrow> merged_maps v)))"
proof -
  from assms obtain acc' b1 where acc: "m = merge_all acc'"
      "decode_pairs doc (p # vis) (b - 1) (d + 1) ps no_members = Some (acc', b1)"
    by (auto simp: Let_def split: if_splits)
  from decode_pairs_collects [OF acc(2)] obtain kvs where
    k: "list_all2 (decoded_pair doc (p # vis) (d + 1)) ps kvs" "distinct (map fst kvs)"
      "\<And>k. fmlookup (members acc') k =
          (if k \<noteq> ''<<'' \<and> map_of kvs k \<noteq> None then map_of kvs k else None)"
      "merges acc' = (case map_of kvs ''<<'' of None \<Rightarrow> [] | Some v \<Rightarrow> merged_maps v)"
    unfolding no_members_def by auto
  have "fmlookup m k = (if k \<noteq> ''<<'' \<and> map_of kvs k \<noteq> None then map_of kvs k
      else first_member k (case map_of kvs ''<<'' of None \<Rightarrow> [] | Some v \<Rightarrow> merged_maps v))" for k
    unfolding acc(1) merge_all_def merge_fold_lookup k(3,4) by (cases "map_of kvs k") simp_all
  with k(1,2) show ?thesis by blast
qed

text \<open>Two mappings with one key, merged by a list, into a mapping with another key.\<close>

definition merge_nodes :: "yaml_node list" where
  "merge_nodes =
     [\<lparr>node_tag = [], node_data = Mapping [(2, 3), (9, 6)]\<rparr>,
      \<lparr>node_tag = [], node_data = Scalar ''<<''\<rparr>,
      \<lparr>node_tag = [], node_data = Sequence [4, 7]\<rparr>,
      \<lparr>node_tag = [], node_data = Mapping [(5, 6)]\<rparr>,
      \<lparr>node_tag = [], node_data = Scalar ''x''\<rparr>,
      \<lparr>node_tag = [], node_data = Scalar ''1''\<rparr>,
      \<lparr>node_tag = [], node_data = Mapping [(5, 8), (9, 8)]\<rparr>,
      \<lparr>node_tag = [], node_data = Scalar ''2''\<rparr>,
      \<lparr>node_tag = [], node_data = Scalar ''y''\<rparr>]"

lemma merge_nodes_decode:
  "decode (list_document merge_nodes) [] 50 0 (Some 0) =
     Some (YMap (fmap_of_list [(''x'', YStr ''1''), (''y'', YStr ''1'')]), 37)"
  "node_data (node_at (list_document merge_nodes) 0) = Mapping [(2, 3), (9, 6)]"
  by code_simp+

theorem yaml_explicit_members_win_witness:
  "\<exists>kvs. list_all2 (decoded_pair (list_document merge_nodes) [0] 1) [(2, 3), (9, 6)] kvs
    \<and> Some (YStr ''1'') = (if map_of kvs ''x'' \<noteq> None then map_of kvs ''x''
        else first_member ''x'' (case map_of kvs ''<<'' of None \<Rightarrow> [] | Some v \<Rightarrow> merged_maps v))"
proof -
  let ?m = "fmap_of_list [(''x'', YStr ''1''), (''y'', YStr ''1'')]"
  have x: "fmlookup ?m ''x'' = Some (YStr ''1'')" by code_simp
  from yaml_explicit_members_win [OF merge_nodes_decode] obtain kvs where
    k: "list_all2 (decoded_pair (list_document merge_nodes) [0] (0 + 1)) [(2, 3), (9, 6)] kvs"
    and m: "\<forall>k. fmlookup ?m k =
         (if k \<noteq> ''<<'' \<and> map_of kvs k \<noteq> None then map_of kvs k
          else first_member k (case map_of kvs ''<<'' of None \<Rightarrow> [] | Some v \<Rightarrow> merged_maps v))"
    by blast
  from m [rule_format, of "''x''"] k x show ?thesis by (intro exI [of _ kvs]) simp
qed

end
