(* ===== verification/Zen_Config_Props.thy ===== *)
theory Zen_Config_Props
  imports Zen_Config_Facts Zen_Yaml_Props Zen_Examples Zen_Sound
begin

text \<open>
  Properties of the configuration reader (\<open>src/config.go\<close>): what every accepted
  configuration satisfies, which provider it manages, and that the pool attributes the
  outcomes of the host to the right keys.
\<close>

section \<open>An accepted configuration\<close>

definition config_nodes :: "yaml_node list" where
  "config_nodes = map (\<lambda>d. \<lparr>node_tag = [], node_data = d\<rparr>)
     [Mapping [(2, 3), (4, 5)], Scalar ''auth-dir'', Scalar ''/auth'',
      Scalar ''openai-compatibility'', Sequence [6],
      Mapping [(7, 8), (9, 10), (11, 12), (13, 20)], Scalar ''name'', Scalar ''OpenCode-Zen'',
      Scalar ''base-url'', Scalar ''https://opencode.ai/zen/v1/'', Scalar ''api-key-entries'',
      Sequence [14, 15], Scalar ''models'', Mapping [(16, 17)], Mapping [(16, 18), (19, 21)],
      Scalar ''api-key'', Scalar ''sk-one'', Scalar ''sk-two'', Scalar ''proxy-url'',
      Sequence [22], Scalar ''direct'', Mapping [(7, 23)], Scalar ''big'']"

text \<open>A host with that configuration, and a digest that is cheap to evaluate.\<close>

definition demo_digest :: "string \<Rightarrow> string" where
  "demo_digest s = take 32 (s @ replicate 32 (CHR ''.''))"

definition demo_host :: confighost where
  "demo_host = \<lparr>host_lib = demo_lib, host_yaml = one_document config_nodes,
     host_sum256 = demo_digest, host_url_Parse = (\<lambda>_. None), host_HOME = ''/home/u'',
     host_Getwd = Some ''/srv'',
     host_open = (\<lambda>p. if p = ''/srv/config.yaml''
       then Some \<lparr>file_data = ''text'', file_read_ok = True, file_close_ok = True\<rparr> else None),
     range_keys = sorted_list_of_fset\<rparr>"

lemma demo_digest_length: "length (demo_digest s) = 32"
  by (simp add: demo_digest_def)

definition read_account :: "string \<Rightarrow> string \<Rightarrow> string \<Rightarrow> account" where
  "read_account hash suffix proxy =
     \<lparr>Fingerprint = hash, AuthID = ''openai-compatibility:opencode-zen:6f70656e6169'' @ suffix,
      Label = ''zen-'' @ take 16 hash, Disabled = False, ProxyPresent = False, ProxyLabel = proxy\<rparr>"

definition demo_read :: configuration where
  "demo_read = \<lparr>ConfigPath = ''/srv/config.yaml'', StateDir = ''/auth/opencode-zen-pool'',
     Provider = ''openai-compatible-opencode-zen'',
     Accounts =
       [read_account (fingerprint demo_digest ''sk-one'') [] ''direct-or-host-default'',
        read_account (fingerprint demo_digest ''sk-two'') ''-1'' ''direct''],
     Models = {|''big''|}, ForwardHeaders = fmempty, Fallback = 30 * Minute,
     AuthSuspension = 15 * Minute, RateFallback = Second, TransientFallback = 30 * Second,
     HostCoolingDisabled = False\<rparr>"

lemma demo_read_eval: "readConfiguration demo_host [] = (demo_read, None)"
  by code_simp

text \<open>
  C22: Every configuration that is read is well formed. Whatever the two YAML texts say, a
  configuration that is accepted has at most 1024 accounts; each is named by the digest
  of a literal, nonempty key, its fingerprint is a valid key of the state, its label and
  proxy label show digits of digests only; fingerprints are pairwise different, and so
  are the auth IDs; every duration is between a second and 366 days; and the provider is
  a safe name with the host's prefix. (A digest is 32 bytes long.)
\<close>

theorem accepted_configuration_ok:
  assumes "\<forall>s. length (host_sum256 E s) = 32" "readConfiguration E raw = (cfg, None)"
  shows "config_ok E cfg"
  by (rule readConfiguration_ok [OF _ assms(2)]) (simp add: digest_def assms(1))

theorem accepted_configuration_ok_witness: "config_ok demo_host demo_read"
  by (rule accepted_configuration_ok [OF _ demo_read_eval])
    (simp add: demo_host_def demo_digest_length)

text \<open>So its runs keep states that can be written.\<close>

lemma config_ok_named: "config_ok E cfg \<Longrightarrow> named_cfg cfg"
  by (auto simp: config_ok_def named_cfg_def account_ok_def list_all_iff)

section \<open>Outcomes reach the right key\<close>

lemma fold_add_auth_other:
  "(\<And>a. a \<in> set as \<Longrightarrow> AuthID a \<noteq> i) \<Longrightarrow> fmlookup (fold add_auth as m) i = fmlookup m i"
  by (induction as arbitrary: m) auto

lemma fold_add_auth_lookup:
  "distinct (filter (\<lambda>i. i \<noteq> []) (map AuthID as)) \<Longrightarrow> a \<in> set as \<Longrightarrow> AuthID a \<noteq> [] \<Longrightarrow>
   fmlookup (fold add_auth as m) (AuthID a) = Some (Fingerprint a)"
proof (induction as arbitrary: m)
  case (Cons b bs)
  show ?case
  proof (cases "a = b")
    case True
    with Cons.prems have "AuthID b \<notin> AuthID ` set bs" by auto
    with True have "AuthID c \<noteq> AuthID a" if "c \<in> set bs" for c
      using that by (metis image_eqI)
    from fold_add_auth_other [OF this, of bs "add_auth b m"] True Cons.prems(3)
    show ?thesis by (simp del: add_auth.simps) simp
  next
    case False
    with Cons show ?thesis by (auto split: if_splits)
  qed
qed simp

lemma fold_add_auth_SomeD:
  "fmlookup (fold add_auth as m) i = Some h \<Longrightarrow>
   fmlookup m i = Some h \<or> i \<noteq> [] \<and> (\<exists>a\<in>set as. AuthID a = i \<and> Fingerprint a = h)"
proof (induction as arbitrary: m)
  case (Cons b bs)
  from Cons.IH [of "add_auth b m"] Cons.prems show ?case by (auto split: if_splits)
qed simp

lemma opened_byAuthID:
  assumes "distinct (filter (\<lambda>i. i \<noteq> []) (map AuthID (Accounts cfg)))"
  shows "fmlookup (p_byAuthID (opened cfg store s)) i = Some h \<longleftrightarrow>
    i \<noteq> [] \<and> (\<exists>a\<in>set (Accounts cfg). AuthID a = i \<and> Fingerprint a = h)"
  using fold_add_auth_lookup [OF assms] fold_add_auth_SomeD [of "Accounts cfg" fmempty]
  by (auto simp: opened_def installAccountsLocked_def Let_def has_account_iff
      dest: fold_add_auth_SomeD split: if_splits)

text \<open>
  C23: Reader and pool agree on the auth IDs. A pool opened with a configuration that was
  read attributes an auth ID of the host to a fingerprint exactly if the configuration
  has an account with both: no outcome is counted for another key, and none of a managed
  key is lost.
\<close>

theorem outcomes_reach_their_key:
  assumes "\<forall>s. length (host_sum256 E s) = 32" "readConfiguration E raw = (cfg, None)"
    and "newPool M cfg store = Some p"
  shows "fmlookup (p_byAuthID p) i = Some h \<longleftrightarrow>
    i \<noteq> [] \<and> (\<exists>a\<in>set (Accounts cfg). AuthID a = i \<and> Fingerprint a = h)"
proof -
  have "config_ok E cfg"
    by (rule readConfiguration_ok [OF _ assms(2)]) (simp add: digest_def assms(1))
  then have "distinct (filter (\<lambda>i. i \<noteq> []) (map AuthID (Accounts cfg)))"
    by (simp add: config_ok_def)
  note opened = opened_byAuthID [OF this]
  from assms(3) obtain z where
    "p = (if Current z \<noteq> [] \<and> \<not> has_account cfg (Current z)
          then set_current [] (opened cfg store z) else opened cfg store z)"
    by (auto simp: newPool_opened)
  then have "p_byAuthID p = p_byAuthID (opened cfg store z)" by simp
  with opened show ?thesis by simp
qed

theorem outcomes_reach_their_key_witness:
  "\<exists>p. newPool demo_ops demo_read \<lparr>mem_raw = []\<rparr> = Some p \<and>
    fmlookup (p_byAuthID p) ''openai-compatibility:opencode-zen:6f70656e6169-1'' =
      Some (fingerprint demo_digest ''sk-two'')"
proof -
  have p: "newPool demo_ops demo_read \<lparr>mem_raw = []\<rparr> = Some (opened demo_read \<lparr>mem_raw = []\<rparr> emptyState)"
    by (simp add: newPool_opened demo_ops_def memory_ops_def memory_Load_def emptyState_def)
  have d: "\<forall>s. length (host_sum256 demo_host s) = 32"
    by (simp add: demo_host_def demo_digest_length)
  show ?thesis
    using outcomes_reach_their_key [OF d demo_read_eval p] p
    by (simp add: demo_read_def read_account_def)
qed

section \<open>Which provider is managed\<close>

definition provider_named :: "confighost \<Rightarrow> string \<Rightarrow> yaml \<Rightarrow> bool" where
  "provider_named E name v \<longleftrightarrow>
     (case Option.bind (mapValue v) (\<lambda>p. stringValue p ''name'') of
        None \<Rightarrow> False
      | Some s \<Rightarrow>
          (let l = ToLower (uni_lower (host_lib E)) s
           in (if l = [] then ''openai-compatibility'' else l) = name))"

definition at_zen :: "yaml \<Rightarrow> bool" where
  "at_zen v \<longleftrightarrow>
     (case Option.bind (mapValue v) (\<lambda>p. stringValue p ''base-url'') of
        None \<Rightarrow> False | Some base \<Rightarrow> TrimRightChar (CHR ''/'') base = zenBaseURL)"

text \<open>What a provider may change: the matches, and the accounts only when it is managed.\<close>

definition entry_frame :: "bool \<Rightarrow> reader \<Rightarrow> reader \<Rightarrow> bool" where
  "entry_frame managed r r' \<longleftrightarrow>
     rd_matches r' = rd_matches r \<and> (\<not> managed \<longrightarrow> Accounts (rd_cfg r') = Accounts (rd_cfg r))"

lemma entry_frame_refl [simp]: "entry_frame m r r"
  by (simp add: entry_frame_def)

lemma entry_frame_trans: "entry_frame m a b \<Longrightarrow> entry_frame m b c \<Longrightarrow> entry_frame m a c"
  by (simp add: entry_frame_def)

lemma read_entry_frame:
  "ensures (entry_frame managed r) (read_entry E disabled managed off kind base ev r)"
  unfolding read_entry_def
  by (intro ensures_attempt)
    (auto simp: Let_def add_account_def entry_frame_def intro!: ensures_attempt split: prod.split)

lemma read_entries_frame:
  "ensures (entry_frame managed r) (read_entries E disabled managed off kind base evs r)"
proof (induction evs arbitrary: r)
  case (Cons ev evs)
  show ?case
    unfolding read_entries.simps
    by (rule ensures_and_then [OF read_entry_frame],
        rule ensures_mono [OF Cons.IH], rule entry_frame_trans)
qed simp

lemma read_managed_matches:
  "ensures (\<lambda>r'. rd_matches r' = rd_matches r + 1 \<and> rd_matches r' \<le> 1
      \<and> TrimRightChar (CHR ''/'') base = zenBaseURL)
    (read_managed E p base r)"
  unfolding read_managed_def Let_def
  by (auto intro!: ensures_attempt ensures_and_then [OF ensures_True])

definition provider_frame :: "confighost \<Rightarrow> string \<Rightarrow> yaml \<Rightarrow> reader \<Rightarrow> reader \<Rightarrow> bool" where
  "provider_frame E name v r r' \<longleftrightarrow>
     (if provider_named E name v
      then rd_matches r' = rd_matches r + 1 \<and> rd_matches r' \<le> 1 \<and> at_zen v
      else rd_matches r' = rd_matches r \<and> Accounts (rd_cfg r') = Accounts (rd_cfg r))"

lemma read_provider_frame:
  "ensures (provider_frame E name v r) (read_provider E name disabled v r)"
  unfolding read_provider_def Let_def
proof (intro ensures_attempt)
  fix p s base and off :: bool and entries :: "yaml list"
  let ?pn = "if ToLower (uni_lower (host_lib E)) s = [] then ''openai-compatibility''
    else ToLower (uni_lower (host_lib E)) s"
  let ?r2 = "\<lambda>r1. if entries = [] \<and> \<not> off
    then r1\<lparr>rd_counts := snd (nextAuthID (host_sum256 E) (rd_counts r1) (provider_kind ?pn) [base])\<rparr>
    else r1"
  assume v: "mapValue v = Some p" "stringValue p ''name'' = Some s"
    "stringValue p ''base-url'' = Some base"
  then have named: "provider_named E name v \<longleftrightarrow> ?pn = name"
    and zen: "at_zen v \<longleftrightarrow> TrimRightChar (CHR ''/'') base = zenBaseURL"
    by (auto simp: provider_named_def at_zen_def Let_def)
  show "ensures (provider_frame E name v r)
    (and_then (if ?pn = name then read_managed E p base r else Inr r)
      (\<lambda>r1. read_entries E disabled (?pn = name) off (provider_kind ?pn) base entries (?r2 r1)))"
  proof (rule ensures_and_then)
    show "ensures (provider_frame E name v r)
      (if ?pn = name then read_managed E p base r else Inr r)"
      using read_managed_matches [of r base E p] named zen
      by (auto simp: provider_frame_def ensures_def)
    fix r1 assume r1: "provider_frame E name v r r1"
    then have "provider_frame E name v r (?r2 r1)"
      by (auto simp: provider_frame_def split: if_splits)
    then show "ensures (provider_frame E name v r)
      (read_entries E disabled (?pn = name) off (provider_kind ?pn) base entries (?r2 r1))"
      using named
      by (intro ensures_mono [OF read_entries_frame]) (auto simp: provider_frame_def entry_frame_def)
  qed
qed

text \<open>
  C24: Only Zen is managed. If the loop over the providers ends without an error, at most
  one of them has the managed name, its base URL is the one of Zen (with or without
  slashes at its end), and without such a provider there is no account.
\<close>

theorem only_zen_is_managed:
  assumes "read_providers E name disabled vs r = Inr r'"
  shows "rd_matches r' = rd_matches r + length (filter (provider_named E name) vs)
    \<and> (filter (provider_named E name) vs \<noteq> [] \<longrightarrow> rd_matches r' \<le> 1)
    \<and> (\<forall>v\<in>set vs. provider_named E name v \<longrightarrow> at_zen v)
    \<and> (filter (provider_named E name) vs = [] \<longrightarrow> Accounts (rd_cfg r') = Accounts (rd_cfg r))"
  using assms
proof (induction vs arbitrary: r)
  case (Cons v vs)
  from Cons.prems obtain r1 where
    r1: "read_provider E name disabled v r = Inr r1" "read_providers E name disabled vs r1 = Inr r'"
    by (auto simp: and_then_def split: sum.splits)
  from ensuresD [OF read_provider_frame r1(1)] Cons.IH [OF r1(2)] show ?case
    by (auto simp: provider_frame_def split: if_splits)
qed simp

definition demo_start :: reader where
  "demo_start = \<lparr>rd_cfg = empty_configuration, rd_counts = fmempty, rd_seen = {||}, rd_matches = 0\<rparr>"

definition demo_providers :: "yaml list" where
  "demo_providers =
     [YMap (fmap_of_list [(''name'', YStr ''other''), (''base-url'', YStr ''https://other'')]),
      YMap (fmap_of_list [(''name'', YStr ''OpenCode-Zen''), (''base-url'', YStr zenBaseURL)])]"

theorem only_zen_is_managed_witness:
  "\<exists>r. read_providers demo_host ''opencode-zen'' [] demo_providers demo_start = Inr r \<and>
    rd_matches r = 1 \<and> at_zen (demo_providers ! 1)"
proof -
  obtain r where r: "read_providers demo_host ''opencode-zen'' [] demo_providers demo_start = Inr r"
  proof -
    have "isl (read_providers demo_host ''opencode-zen'' [] demo_providers demo_start) = False"
      by code_simp
    then show ?thesis using that by (metis sum.collapse(2))
  qed
  have m: "length (filter (provider_named demo_host ''opencode-zen'') demo_providers) = 1"
    "rd_matches demo_start = 0" "provider_named demo_host ''opencode-zen'' (demo_providers ! 1)"
    "length demo_providers = 2"
    by code_simp+
  have "demo_providers ! 1 \<in> set demo_providers"
    by (rule nth_mem) (simp add: m(4))
  with only_zen_is_managed [OF r] m r show ?thesis by auto
qed

end
