(* ===== verification/Zen_Dispatch_Props.thy ===== *)
theory Zen_Dispatch_Props
  imports Zen_Dispatch_Facts Zen_Manage_Props Zen_Config_Props Classifier_Facts
begin

text \<open>
  Properties of the plugin as a whole (\<open>src/dispatch.go\<close>, \<open>src/management.go\<close>,
  \<open>src/main.go\<close>): the application refines the pool's state machine, every call is
  answered, a broken configuration or state fails closed, and the text that comes in and
  goes out is what both sides mean.
\<close>

section \<open>A plugin to play on\<close>

definition demo_dir :: fileStore where
  "demo_dir = \<lparr>fs_state = None, fs_disk = None, fs_readable = True, fs_lock = False, fs_close_ok = True,
     fs_future = []\<rparr>"

definition demo_env :: environment where
  "demo_env = \<lparr>env_host = demo_host, env_times = demo_times, env_now = 1000,
     env_until_now = 1000, env_mkdir_ok = True, env_open_ok = True, env_locked = False,
     env_dir = (\<lambda>_. demo_dir), env_os_text = ''close failed''\<rparr>"

definition idle :: application where
  "idle = \<lparr>app_pool = None, managementBase = []\<rparr>"

definition register_text :: string where
  \<open>register_text = ''{"schema_version":6}''\<close>

lemma register_decoded: "decode_lifecycle register_text = Some ([], 6)"
  by code_simp

definition demo_app :: application where
  "demo_app = \<lparr>app_pool = Some (open_pool demo_env demo_read), managementBase = []\<rparr>"

lemma demo_env_simps [simp]:
  "env_host demo_env = demo_host" "env_times demo_env = demo_times" "env_now demo_env = 1000"
  "host_lib demo_host = demo_lib"
  by (simp_all add: demo_env_def demo_host_def)

lemma demo_configured:
  "configured demo_env (readConfiguration demo_host []) idle =
     (Ok (okEnvelope registration), demo_app)"
  by (simp add: demo_read_eval configured_def idle_def demo_app_def)

lemma demo_registered:
  "zen_plugin_call demo_env False (Some ''plugin.register'') (Some register_text) 20 idle =
     ((0, Some (okEnvelope registration)), demo_app)"
proof -
  have "take (nat 20) register_text = register_text" "(20::int) \<le> max_request"
    by (simp_all add: register_text_def max_request_def)
  then show ?thesis
    by (simp add: zen_plugin_call_def call_def configure_def register_decoded demo_configured)
qed

lemma demo_app_reach: "app_reach demo_times demo_lib 1000 demo_app"
  using app_reach.called [OF app_reach.start [of _ _ 1000, folded idle_def] _ _ _ demo_registered]
  by simp

section \<open>The plugin refines the pool\<close>

text \<open>
  C19: The plugin refines the pool's state machine. Whatever calls and shutdowns reach the
  plugin, with whatever bytes, the pool behind it is one that the events of the pool
  reach from a pool \<open>newPool\<close> or \<open>faultedPool\<close> made, so every property of reachable pools
  holds of it.
\<close>

theorem plugin_refines_pool:
  assumes "app_reach T G t a" "app_pool a = Some p"
  shows "pool_reach (file_ops T) G t p"
  by (rule app_reach_pool [OF assms])

theorem plugin_refines_pool_witness:
  "pool_reach (file_ops demo_times) demo_lib 1000 (open_pool demo_env demo_read)"
  by (rule plugin_refines_pool [OF demo_app_reach]) (simp add: demo_app_def)

text \<open>
  C26: Every call is answered. In every state the plugin can be in, a call with an output
  buffer, a method and a request of at most 64 MiB returns 0 and fills the buffer with
  the answer of \<open>call\<close>; the recovery from a panic is never used.
\<close>

theorem every_call_is_answered:
  assumes "app_reach T G t a" "len \<le> max_request" "0 < len \<longrightarrow> request \<noteq> None"
  shows "\<exists>b a'. call E m (case request of None \<Rightarrow> [] | Some mem \<Rightarrow> take (nat len) mem) a = (Ok b, a')
    \<and> zen_plugin_call E False (Some m) request len a = ((0, Some b), a')"
proof -
  let ?raw = "case request of None \<Rightarrow> [] | Some mem \<Rightarrow> take (nat len) mem"
  obtain out a' where c: "call E m ?raw a = (out, a')" by fastforce
  from call_step [OF c app_reach_wf [OF assms(1)]] obtain b where "out = Ok b"
    by (auto simp: is_Ok_iff)
  with c assms(2,3) show ?thesis by (auto simp: zen_plugin_call_def)
qed

theorem every_call_is_answered_witness:
  "\<exists>b a'. zen_plugin_call demo_env False (Some ''scheduler.pick'') (Some ''{}'') 2 demo_app =
     ((0, Some b), a')"
  using every_call_is_answered [OF demo_app_reach, of 2 "Some ''{}''" demo_env "''scheduler.pick''"]
  by (auto simp: max_request_def)

section \<open>Failing closed\<close>

text \<open>
  C25: A configuration that is refused stops all selection. When the reader refuses the
  configuration, the host is told that the plugin is registered, but the pool has the
  fault \<open>configuration_error\<close>, and every request it manages is refused, and so is every
  guarded model, until a later configuration is accepted.
\<close>

theorem bad_configuration_fails_closed:
  assumes "app_reach T G t a" "decode_lifecycle raw = Some (yml, 6)"
    and "readConfiguration (env_host E) yml = (cfg, Some err)"
    and "configure E raw a = (out, a')"
  shows "out = Ok (okEnvelope registration) \<and> (\<exists>p. app_pool a' = Some p
    \<and> p_fault p = ''configuration_error''
    \<and> (managedLocked p req \<longrightarrow> (\<exists>e. Pick M now req p = (Fail (Unavailable e), p))))"
proof -
  have wf: "app_wf a'" using configure_step [OF assms(4)] app_reach_wf [OF assms(1)] app_step_wf by blast
  from assms(2-4) obtain p where p: "app_pool a' = Some p" "p_fault p = ''configuration_error''"
      and out: "out = Ok (okEnvelope registration)"
    by (cases "app_pool a")
      (auto simp: configure_def configured_def set_fault_def faultedPool_def Let_def)
  have "keys_ok p" using wf p(1) by (simp add: app_wf_def wf_poolD)
  from unavailable_Fail [OF this] p(2) have
    "managedLocked p req \<Longrightarrow> \<exists>e. Pick M now req p = (Fail (Unavailable e), p)"
    by (auto simp: Pick_def)
  with p out show ?thesis by blast
qed

text \<open>A host without a configuration file.\<close>

definition bare_env :: environment where
  "bare_env = demo_env\<lparr>env_host := demo_host\<lparr>host_open := (\<lambda>_. None)\<rparr>\<rparr>"

lemma bare_read: "snd (readConfiguration (env_host bare_env) []) = Some ErrOpen"
  by code_simp

theorem bad_configuration_fails_closed_witness:
  "\<exists>p. app_pool (snd (configure bare_env register_text demo_app)) = Some p
     \<and> p_fault p = ''configuration_error''"
proof -
  obtain cfg where r: "readConfiguration (env_host bare_env) [] = (cfg, Some ErrOpen)"
    using bare_read by (metis prod.collapse)
  show ?thesis
    using bad_configuration_fails_closed [OF demo_app_reach register_decoded r prod.collapse [symmetric]]
    by blast
qed

text \<open>
  C31: A state that cannot be opened needs a restart. When the plugin's pool has no store
  (because the state directory is locked, unreadable or corrupt, or the first
  configuration was refused), every call but a shutdown leaves it without a store and
  with a fault, also a call with a configuration that would be accepted; so every
  managed request stays refused.
\<close>

theorem storeless_until_shutdown:
  assumes "app_reach T G t a" "app_pool a = Some p" "p_store p = None" "p_fault p \<noteq> []"
    and "call E method raw a = (out, a')" "method \<noteq> ''plugin.shutdown''"
  shows "\<exists>q. app_pool a' = Some q \<and> p_store q = None \<and> p_fault q \<noteq> []
    \<and> (managedLocked q req \<longrightarrow> (\<exists>e. Pick M now req q = (Fail (Unavailable e), q)))"
proof -
  have step: "app_step E a a'" using call_step [OF assms(5) app_reach_wf [OF assms(1)]] by simp
  then have wf: "app_wf a'" using app_reach_wf [OF assms(1)] app_step_wf by blast
  from call_keeps_pool [OF assms(5) _ assms(6)] assms(2) obtain q where q: "app_pool a' = Some q"
    by auto
  with step assms(2) have "pool_run (env_ops E) (env_lib E) (env_now E) p q"
    by (simp add: app_step_def)
  from pool_run_storeless [OF this] assms(3,4) have s: "p_store q = None" "p_fault q \<noteq> []"
    by (simp_all add: storeless_def)
  have "keys_ok q" using wf q by (simp add: app_wf_def wf_poolD)
  from unavailable_Fail [OF this] s(2) have
    "managedLocked q req \<Longrightarrow> \<exists>e. Pick M now req q = (Fail (Unavailable e), q)"
    by (auto simp: Pick_def)
  with q s show ?thesis by blast
qed

lemma faultedPool_storeless:
  "p_store (faultedPool cfg f) = None" "p_fault (faultedPool cfg f) = f"
  by (simp_all add: faultedPool_def Let_def)

lemma stuck_app_reach: "\<exists>cfg. app_reach demo_times demo_lib 1000
    (idle\<lparr>app_pool := Some (faultedPool cfg ''configuration_error'')\<rparr>)"
proof -
  obtain cfg where r: "readConfiguration (env_host bare_env) [] = (cfg, Some ErrOpen)"
    using bare_read by (metis prod.collapse)
  have "take (nat 20) register_text = register_text" "(20::int) \<le> max_request"
    by (simp_all add: register_text_def max_request_def)
  with r have "zen_plugin_call bare_env False (Some ''plugin.register'') (Some register_text) 20 idle =
      ((0, Some (okEnvelope registration)),
       idle\<lparr>app_pool := Some (faultedPool cfg ''configuration_error'')\<rparr>)"
    by (simp add: zen_plugin_call_def call_def configure_def register_decoded configured_def idle_def)
  then have "app_reach demo_times demo_lib (env_now bare_env)
      (idle\<lparr>app_pool := Some (faultedPool cfg ''configuration_error'')\<rparr>)"
    by (rule app_reach.called [OF app_reach.start [of _ _ 1000, folded idle_def], rotated 3])
      (simp_all add: bare_env_def)
  then show ?thesis by (auto simp: bare_env_def)
qed

theorem storeless_until_shutdown_witness:
  "\<exists>a q. app_pool (snd (call demo_env ''plugin.reconfigure'' register_text a)) = Some q
     \<and> p_store q = None \<and> p_fault q \<noteq> []"
proof -
  obtain cfg where "app_reach demo_times demo_lib 1000
      (idle\<lparr>app_pool := Some (faultedPool cfg ''configuration_error'')\<rparr>)"
    using stuck_app_reach by blast
  from storeless_until_shutdown [OF this _ _ _ prod.collapse [symmetric],
      of "faultedPool cfg ''configuration_error''" "''plugin.reconfigure''"]
  show ?thesis by (fastforce simp: faultedPool_storeless)
qed

section \<open>Shutdown\<close>

lemma key_text_consts [simp]: "key_text ''ok'' = ''ok''" "key_text ''result'' = ''result''"
  by code_simp+

lemma empty_result_not_error: "empty_result \<noteq> errorEnvelope code message status"
  by (simp add: empty_result_def okEnvelope_def errorEnvelope_def compact_def)

lemma call_shutdown:
  "call E ''plugin.shutdown'' raw a =
    (case app_close E a of
       (Panic, a') \<Rightarrow> (Panic, a')
     | (Fail e, a') \<Rightarrow>
         (Ok (errorEnvelope ''zen_state_error'' (error_text (env_times E) (env_os_text E) e) 503), a')
     | (Ok _, a') \<Rightarrow> (Ok empty_result, a'))"
  by (simp add: call_def)

lemma Close_saved:
  assumes "Close M p = (Ok (), q)" "p_store p = Some s" "\<not> p_closed p"
  shows "\<exists>s'. Save M (p_state p) s = (True, s')"
  using assms by (auto simp: Close_def saveLocked_def Let_def split: prod.splits if_splits)

text \<open>
  C30: A shutdown that succeeds has saved the state, and afterwards nothing is served. If
  \<open>plugin.shutdown\<close> is answered with the empty result, the store of an open pool accepted
  the state of the pool; and in any case the pool is gone, and every method that is not
  one of the lifecycle is answered with \<open>zen_not_initialized\<close> and changes nothing.
\<close>

theorem shutdown_saves_and_ends:
  assumes "app_reach T G t a" "call E ''plugin.shutdown'' raw a = (out, a')"
  shows "app_pool a' = None
    \<and> (\<forall>p s. out = Ok empty_result \<longrightarrow> app_pool a = Some p \<longrightarrow> p_store p = Some s \<longrightarrow> \<not> p_closed p
         \<longrightarrow> (\<exists>s'. file_Save (env_times E) (p_state p) s = (True, s')))
    \<and> (\<forall>E' m raw'. \<not> lifecycle m \<longrightarrow> call E' m raw' a' =
         (Ok (errorEnvelope ''zen_not_initialized'' ''Zen pool not initialized'' 503), a'))"
proof -
  obtain r b where r: "app_close E a = (r, b)" by fastforce
  from app_close_step [OF r app_reach_wf [OF assms(1)]] have b: "app_pool b = None" "r \<noteq> Panic"
    by simp_all
  have a': "a' = b" and out: "out = Ok empty_result \<Longrightarrow> r = Ok ()"
    using assms(2) r b(2) unfolding call_shutdown
    by (cases r; simp add: empty_result_not_error [symmetric])+
  have saved: "\<exists>s'. file_Save (env_times E) (p_state p) s = (True, s')"
    if "out = Ok empty_result" "app_pool a = Some p" "p_store p = Some s" "\<not> p_closed p" for p s
  proof -
    from r out [OF that(1)] that(2) obtain q where "Close (env_ops E) p = (Ok (), q)"
      by (auto simp: app_close_def split: prod.splits outcome.splits)
    from Close_saved [OF this that(3,4)] show ?thesis by (simp add: file_ops_def)
  qed
  have "call E' m raw' a' =
      (Ok (errorEnvelope ''zen_not_initialized'' ''Zen pool not initialized'' 503), a')"
    if "\<not> lifecycle m" for E' m raw'
    using call_pool [OF that, of E' raw' a'] a' b(1) by simp
  then show ?thesis using saved a' b(1) by (intro conjI allI impI) simp_all
qed

theorem shutdown_saves_and_ends_witness:
  "app_pool (snd (call demo_env ''plugin.shutdown'' [] demo_app)) = None"
  using shutdown_saves_and_ends [OF demo_app_reach prod.collapse [symmetric], of demo_env "[]"]
  by blast

section \<open>Retry-After\<close>

lemma round_half_even_ge: "of_int m \<le> x \<Longrightarrow> m \<le> round_half_even x"
  using le_floor_iff [of m x] by (auto simp: round_half_even_def Let_def)

text \<open>Rounding does not go below an integer that a float represents exactly.\<close>

lemma double_ge_int:
  assumes "0 \<le> m" "m < 2 ^ 52" "of_int m \<le> r" "double r = Fin v"
  shows "of_int m \<le> v"
proof (cases "r = 0")
  case True
  with assms show ?thesis by (simp add: double_def)
next
  case False
  with assms have r: "0 < r" by (metis of_int_0_le_iff order_le_less order_trans)
  let ?e = "max (lead_exp r - 52) (- 1074)"
  have v: "v = of_int (round_half_even (r / pow2 ?e)) * pow2 ?e"
    using assms(4) r by (auto simp: double_def Let_def split: if_splits)
  show ?thesis
  proof (cases "?e \<le> 0")
    case True
    define k where "k = nat (- ?e)"
    have p: "pow2 ?e = 1 / 2 ^ k" using True by (auto simp: pow2_def k_def)
    have "of_int (m * 2 ^ k) \<le> r / pow2 ?e" using assms(3) by (simp add: p)
    from round_half_even_ge [OF this] have "of_int (m * 2 ^ k) \<le> (of_int (round_half_even (r / pow2 ?e)) :: rat)"
      by (simp only: of_int_le_iff)
    moreover have "v * 2 ^ k = of_int (round_half_even (r / pow2 ?e))" using v by (simp add: p)
    ultimately have "of_int m * 2 ^ k \<le> v * 2 ^ k" by simp
    then show ?thesis by (rule mult_right_le_imp_le) simp
  next
    case False
    then have e: "?e = lead_exp r - 52" "0 < ?e" by auto
    have "pow2 52 = pow2 (lead_exp r) / pow2 ?e" using pow2_diff [of "lead_exp r" ?e] e(1) by simp
    also have "\<dots> \<le> r / pow2 ?e" by (rule divide_right_mono [OF lead_exp_le [OF r]]) (simp add: less_imp_le)
    finally have "of_int (2 ^ 52) \<le> r / pow2 ?e" by (simp add: pow2_def)
    from round_half_even_ge [OF this] have "of_int (2 ^ 52) \<le> (of_int (round_half_even (r / pow2 ?e)) :: rat)"
      by (simp only: of_int_le_iff)
    moreover have "1 \<le> pow2 ?e" using e(2) by (simp add: pow2_def)
    ultimately have "of_int (2 ^ 52) * 1 \<le> v"
      unfolding v by (intro mult_mono) auto
    moreover have "(of_int m :: rat) \<le> of_int (2 ^ 52)" using assms(2) by (simp only: of_int_le_iff)
    ultimately show ?thesis by simp
  qed
qed

lemma seconds_plus_one_enough:
  assumes "0 < d" "d \<le> max_window"
  shows "d \<le> seconds_plus_one d * Second"
proof -
  define s where "s = d div Second"
  define n where "n = d - s * Second"
  have "s \<le> 31622400000000000 div 1000000000"
    using assms(2) by (simp only: s_def Second_def max_window_value zdiv_mono1)
  then have s: "0 \<le> s" "s \<le> 31622400" and n: "0 \<le> n" "n < 1000000000"
    using assms(1)
    by (simp_all add: s_def n_def Second_def minus_div_mult_eq_mod pos_imp_zdiv_nonneg_iff)
  have sr: "0 \<le> (of_int s :: rat)" "(of_int s :: rat) \<le> 31622400"
    using s by (simp_all add: of_int_le_iff [where 'a = rat, of s 31622400, simplified])
  have nr: "0 \<le> (of_int n :: rat)" "(of_int n :: rat) \<le> 1000000000"
    using n by (simp_all add: of_int_le_iff [where 'a = rat, of n 1000000000, simplified])
  obtain f where f: "double (of_int n / 1000000000) = Fin f" "0 \<le> f" "f \<le> 131072"
    using double_bounded [of "of_int n / 1000000000" 1] nr by auto
  obtain g where g: "double (of_int s + f) = Fin g" "g \<le> 2147483648"
    using double_bounded [of "of_int s + f" 16384] sr f by auto
  have gs: "of_int s \<le> g"
    by (rule double_ge_int [OF s(1) _ _ g(1)]) (use s f in auto)
  obtain h where h: "double (g + 1) = Fin h"
    using double_bounded [of "g + 1" 32768] sr g(2) gs by auto
  have hs: "of_int (s + 1) \<le> h"
    by (rule double_ge_int [OF _ _ _ h]) (use s gs in auto)
  then have "0 \<le> h" using sr(1) by simp
  have "seconds_plus_one d = \<lfloor>h\<rfloor>"
    using assms(1) f(1) g(1) h \<open>0 \<le> h\<close>
    by (simp add: seconds_plus_one_def trunc_div_def trunc_rat_def Let_def s_def [symmetric]
        n_def [symmetric] del: of_int_diff of_int_mult)
  moreover have "s + 1 \<le> \<lfloor>h\<rfloor>" using hs by (simp only: le_floor_iff)
  moreover have "d \<le> (s + 1) * Second" using n by (simp add: n_def Second_def)
  ultimately show ?thesis by (simp add: Second_def)
qed

text \<open>
  C28: The Retry-After header is long enough and never absent when it is due. If the pool
  knows an instant at which an account comes back, and the clock of the answer has not
  reached it, the refusal of a request carries exactly one Retry-After value, a positive
  number of seconds, and a client that waits that long after the answer does not come back
  before that instant, although the code computes the number in floating point.
\<close>

theorem retry_after_is_enough:
  assumes "RetryAt u \<noteq> 0" "env_until_now E < RetryAt u" "RetryAt u \<le> env_until_now E + max_window"
  shows "\<exists>n. retry_after E (Unavailable u) = [show_int n] \<and> 0 < n
           \<and> RetryAt u \<le> env_until_now E + n * Second"
proof -
  define d where "d = RetryAt u - env_until_now E"
  have d: "0 < d" "d \<le> max_window" using assms by (simp_all add: d_def)
  then have "clamp_duration d = d" by (simp add: clamp_duration_def max_window_value)
  moreover from seconds_plus_one_enough [OF d]
  have n: "d \<le> seconds_plus_one d * Second" .
  moreover have "0 < seconds_plus_one d"
  proof (rule ccontr)
    assume "\<not> 0 < seconds_plus_one d"
    then have "seconds_plus_one d * Second \<le> 0" by (simp add: Second_def)
    with n d(1) show False by simp
  qed
  ultimately show ?thesis
    using assms(1) by (auto simp: retry_after_def Let_def d_def)
qed

theorem retry_after_is_enough_witness:
  "\<exists>n. retry_after (demo_env\<lparr>env_until_now := 0\<rparr>)
         (Unavailable \<lparr>err_Reason = ''all'', err_Eligible = 0,
            err_Exhausted = 1, err_Suspended = 0, err_Unavailable = 0, RetryAt = 90 * Second\<rparr>) = [show_int n]
       \<and> 90 \<le> n"
  using retry_after_is_enough [of "\<lparr>err_Reason = ''all'', err_Eligible = 0,
      err_Exhausted = 1, err_Suspended = 0, err_Unavailable = 0, RetryAt = 90 * Second\<rparr>" "demo_env\<lparr>env_until_now := 0\<rparr>"]
  by (auto simp: max_window_value Second_def)

end
