(* ===== verification/Zen_Answers_Props.thy ===== *)
theory Zen_Answers_Props
  imports Zen_Answers Zen_Dispatch_Props Go_Rfc3339
begin

text \<open>
  Properties of what leaves the plugin (\<open>src/dispatch.go\<close>, \<open>src/management.go\<close>,
  \<open>src/main.go\<close>): every answer is an envelope, and a refused client is told why.
\<close>

section \<open>Every answer is an envelope\<close>

text \<open>An answer of a method, which may also be a panic.\<close>

definition readable :: "string \<Rightarrow> bool" where
  "readable b \<longleftrightarrow> open_envelope b \<noteq> None"

definition answered :: "string result \<Rightarrow> bool" where
  "answered r = (case r of Ok b \<Rightarrow> readable b | _ \<Rightarrow> True)"

lemma answered_simps [simp]:
  "answered (Ok b) \<longleftrightarrow> readable b" "answered (Fail e)" "answered Panic"
  by (simp_all add: answered_def)

lemma answered_if:
  "answered (fst x) \<Longrightarrow> answered (fst y) \<Longrightarrow> answered (fst (if c then x else y))"
  by simp

lemma ok_answered [answer_rules]:
  "quoted v \<Longrightarrow> json_height v \<le> 9000 \<Longrightarrow> readable (okEnvelope v)"
  by (simp add: readable_def open_okEnvelope)

lemma error_answered [answer_rules]: "0 \<le> s \<Longrightarrow> readable (errorEnvelope c m s)"
  using open_errorEnvelope [of s c m] by (auto simp: readable_def)

lemma empty_answered [answer_rules]: "readable empty_result"
  unfolding empty_result_def by (rule ok_answered) simp_all

lemma registration_answered [answer_rules]: "readable (okEnvelope registration)"
  by (rule ok_answered) (rule registration_quoted)+

lemma management_answered [answer_rules]:
  "0 \<le> s \<Longrightarrow> readable (managementJSON s body)"
  "0 \<le> s \<Longrightarrow> readable (management_error s text)"
  using open_managementJSON(2) [of s] error_answered [of 500]
  by (cases body; auto simp: managementJSON_def management_error_def readable_def)+

lemma response_answered [answer_rules]: "readable (okEnvelope (response_json r))"
  by (rule ok_answered) (simp_all add: response_json_def opt_member_def)

lemma routes_answered [answer_rules]:
  "readable (okEnvelope (JObj [(''routes'', JArr
      [string_map [(''Method'', m), (''Path'', x)], string_map [(''Method'', m'), (''Path'', y)]])]))"
proof (rule ok_answered)
  let ?a = "string_map [(''Method'', m), (''Path'', x)]"
  let ?b = "string_map [(''Method'', m'), (''Path'', y)]"
  have "quoted ?a" "quoted ?b" by (simp_all add: string_map_quoted)
  then show "quoted (JObj [(''routes'', JArr [?a, ?b])])" by simp
  show "json_height (JObj [(''routes'', JArr [?a, ?b])]) \<le> 9000"
    using string_map_quoted(2) [of "[(''Method'', m), (''Path'', x)]"]
      string_map_quoted(2) [of "[(''Method'', m'), (''Path'', y)]"] by simp
qed

lemmas refusal_answered [answer_rules] = open_refusal(2) [folded readable_def]

lemma configured_answered: "answered (fst (configured E r a))"
  by (auto simp: configured_def Let_def answer_rules split: prod.splits option.splits outcome.splits)

lemma handlers_answered:
  "answered (fst (handle_pick E raw p))" "answered (fst (handle_usage E raw p))"
  "answered (fst (handle_before E raw p))" "answered (handle_status E p)"
  "answered (fst (handle_resume E body p))"
  by (auto simp: handler_defs answer_rules Let_def split: option.splits prod.splits outcome.splits)

lemma management_call_answered: "answered (fst (management E base raw p))"
proof (cases "decode_management raw")
  case (Some r)
  obtain m path b where "r = (m, path, b)" by (cases r)
  with Some show ?thesis unfolding management_def option.case prod.case
    by (simp only: option.case prod.case) (intro answered_if; simp add: handlers_answered answer_rules)
qed (simp add: management_def answer_rules)

lemma pool_call_answered: "answered (fst (pool_call E base m raw p))"
  unfolding pool_call_def
  by (intro answered_if handlers_answered management_call_answered; simp add: answer_rules)

lemma call_answered: "answered (fst (call E m raw a))"
proof -
  have "answered (fst (configure E raw a))"
    using configured_answered by (auto simp: configure_def answer_rules split: option.splits prod.splits)
  moreover have "readable (fst (management_register raw a))"
    by (auto simp: management_register_def Let_def answer_rules split: option.splits)
  moreover have "answered r" if "pool_call E b m raw p = (r, q)" for b p r q
    using pool_call_answered [of E b m raw p] that by simp
  ultimately show ?thesis unfolding call_def
    by (intro answered_if; auto simp: answer_rules split: option.splits prod.splits outcome.splits)
qed

text \<open>
  C27: The host can read every answer. Whatever is passed to \<open>zen_plugin_call\<close>, in whatever
  state the plugin is, either the arguments are refused with return code 1, no output and
  no change, or the return code is 0 and the output is one JSON envelope with \<open>ok\<close> and then
  \<open>result\<close> or \<open>error\<close>, even if texts of the host or of the operating system in it are not
  valid UTF-8, and even if the call panics.
\<close>

theorem answers_are_envelopes:
  "case zen_plugin_call E out_null method request len a of
     ((rc, None), a') \<Rightarrow> rc = 1 \<and> a' = a
   | ((rc, Some b), a') \<Rightarrow> rc = 0 \<and> readable b"
proof -
  have c: "readable b" if "call E m raw a = (Ok b, a')" for m raw b a'
    using call_answered [of E m raw a] that by simp
  have "readable internal_failure" by (simp add: internal_failure_def answer_rules)
  then show ?thesis
    by (auto simp: zen_plugin_call_def Let_def c split: option.splits prod.splits outcome.splits)
qed

section \<open>A refusal explains itself\<close>

text \<open>
  C29: A refused client gets the whole story. The body of the refusal, taken out of the
  envelope and of its base64 form, is JSON text whose error object has the four counts of
  the pool's error as numbers and the retry instant of the pool, exactly, in any encoding
  of instants that is read back.
\<close>

theorem refusal_reaches_the_client:
  assumes "time_codec (env_times E)" "time_Marshal (env_times E) (RetryAt u) \<noteq> None"
  shows "\<exists>text ms. answer_body ''ResponseBody'' (refusal E (Unavailable u)) = Some text
    \<and> json_unmarshal text = Some (JObj [(''error'', JObj ms)])
    \<and> map (map_of ms) [''eligible'', ''exhausted'', ''suspended'', ''unavailable''] =
        map (\<lambda>n. Some (json_nat (int n)))
          [err_Eligible u, err_Exhausted u, err_Suspended u, err_Unavailable u]
    \<and> Option.bind (map_of ms ''retry_at'') (read_time (env_times E) 0) = Some (RetryAt u)"
proof -
  let ?T = "env_times E"
  from assms(2) obtain raw where raw: "time_Marshal ?T (RetryAt u) = Some raw" by blast
  from time_codec.plain_raw [OF assms(1) raw] have p: "plain raw" .
  then have esc: "json_escape (length raw) raw = raw" by (simp add: json_escape_plain)
  have "list_all (\<lambda>c. byte c < 128) raw" using p by (auto simp: plain_def plain_char_def list_all_iff)
  then have san: "sanitize (length raw) raw = raw" by (simp add: sanitize_ascii)
  let ?ms = "[(''code'', json_quote ''zen_pool_unavailable''),
         (''message'', json_quote unavailable_message),
         (''reason'', json_quote (err_Reason u)), (''eligible'', json_nat (int (err_Eligible u))),
         (''exhausted'', json_nat (int (err_Exhausted u))),
         (''suspended'', json_nat (int (err_Suspended u))),
         (''unavailable'', json_nat (int (err_Unavailable u))), (''retry_at'', time_json ?T (RetryAt u))]"
  have t: "error_text ?T (env_os_text E) (Unavailable u) = compact (JObj [(''error'', JObj ?ms)])"
    using assms(2) by (simp only: error_text.simps unavailable_text_def if_False append_Nil)
  have "json_unmarshal (compact (JObj [(''error'', JObj ?ms)])) = Some (clean (JObj [(''error'', JObj ?ms)]))"
    by (rule json_unmarshal_quoted) (simp_all add: time_json_def raw esc max_nesting_def)
  moreover have "clean (time_json ?T (RetryAt u)) = time_json ?T (RetryAt u)"
    by (simp add: time_json_def raw san)
  moreover have "read_time ?T 0 (time_json ?T (RetryAt u)) = Some (RetryAt u)"
    by (rule time_codec.read_time_json [OF assms])
  ultimately show ?thesis
    using open_refusal(1) [of E "Unavailable u"] unfolding t
    by (intro exI [of _ "compact (JObj [(''error'', JObj ?ms)])"]
        exI [of _ "map (\<lambda>(k, v). (k, clean v)) ?ms"]) simp
qed

theorem refusal_reaches_the_client_witness:
  "\<exists>text ms. answer_body ''ResponseBody'' (refusal (demo_env\<lparr>env_times := utc_times\<rparr>)
       (Unavailable \<lparr>err_Reason = ''all'', err_Eligible = 0, err_Exhausted = 2, err_Suspended = 1,
          err_Unavailable = 0, RetryAt = 0\<rparr>)) = Some text
    \<and> json_unmarshal text = Some (JObj [(''error'', JObj ms)])
    \<and> map_of ms ''exhausted'' = Some (json_nat 2)"
proof -
  let ?E = "demo_env\<lparr>env_times := utc_times\<rparr>"
  let ?u = "\<lparr>err_Reason = ''all'', err_Eligible = 0, err_Exhausted = 2, err_Suspended = 1,
          err_Unavailable = 0, RetryAt = 0\<rparr>"
  have "time_Marshal utc_times 0 \<noteq> None" by code_simp
  with refusal_reaches_the_client [of ?E ?u] utc.time_codec_axioms
  show ?thesis by fastforce
qed

end
