(* ===== verification/Spec2Isabelle.thy ===== *)
theory Spec2Isabelle
  imports Zen_Failure_Props Zen_Manage_Props Zen_Store_Props Classifier_Props Zen_Answers_Props
begin

text \<open>
  A verification development for the OpenCode Zen pool, a Go plugin for a proxy host. The
  plugin keeps several accounts (API keys) of one provider, serves all requests with one
  account until that account's quota is spent, then switches to the next one, and keeps
  what it learned in a file. Paths below are relative to the root of the repository.

  \<^bold>\<open>Parts of the program and their theories.\<close> The host calls \<open>zen_plugin_call\<close> (\<open>src/main.go\<close>)
  with a method name and JSON text; \<open>application.call\<close> (\<open>src/dispatch.go\<close>, and
  \<open>src/management.go\<close> for the two management routes) decodes it and calls the pool
  (\<open>src/pool.go\<close>). The pool classifies failures (\<open>src/classifier.go\<close>), and saves its state
  through a store (\<open>src/state.go\<close>). Registration reads two YAML texts (\<open>src/yaml_native.go\<close>)
  into a configuration (\<open>src/config.go\<close>).

  \<^item> \<open>Classifier\<close>: \<open>classify\<close>, \<open>withReset\<close>, and the readers of the three kinds of reset signals.
  \<^item> \<open>Zen_Account\<close>: the records \<open>account\<close> and \<open>configuration\<close>, \<open>managedModel\<close>, \<open>validateForwarding\<close>.
  \<^item> \<open>Zen_State\<close>, \<open>Zen_Store\<close>: \<open>keyState\<close>, \<open>persistedState\<close>, \<open>decodeState\<close>, the JSON form, and the
    two stores \<open>memoryStore\<close> and \<open>fileStore\<close> as values of the record of methods \<open>stateStore\<close>.
  \<^item> \<open>Zen_Pool\<close>, \<open>Zen_Pool_Ops\<close>: the record \<open>pool\<close> and one function per method (\<open>newPool\<close>,
    \<open>faultedPool\<close>, \<open>Pick\<close>, \<open>Observe\<close>, \<open>Guard\<close>, \<open>Resume\<close>, \<open>Reconfigure\<close>, \<open>Close\<close>, \<open>Status\<close>) and
    helper; \<open>Zen_Pool_Steps\<close> has the events of the pool and the inductive sets of reachable pools.
  \<^item> \<open>Zen_Digest\<close>, \<open>Zen_Yaml\<close>, \<open>Zen_Config\<close>: \<open>fingerprint\<close>, \<open>nextAuthID\<close>, \<open>safeProxy\<close>; \<open>yamlMap\<close> with
    its walk \<open>decode\<close>; \<open>readConfiguration\<close>, split along its loops.
  \<^item> \<open>Zen_Wire\<close>, \<open>Zen_Dispatch\<close>: the requests and answers as JSON; \<open>application\<close>, \<open>configure\<close>,
    \<open>call\<close>, \<open>management\<close>, \<open>zen_plugin_call\<close>, \<open>zen_plugin_shutdown\<close>.
  \<^item> \<open>Go_Strings\<close>, \<open>Go_Float\<close>, \<open>Go_Time\<close>, \<open>Go_Regexp\<close>, \<open>Go_Json\<close>, \<open>Go_Json_Print\<close>, \<open>Go_Path\<close>,
    \<open>Go_Base64\<close>, \<open>Go_Sha256\<close>, \<open>Go_Rfc3339\<close>: what the code uses of Go's standard library, written out.

  \<^bold>\<open>State and effects.\<close> A Go string is a list of bytes. Every method of the pool runs under
  the mutex of the pool, so it is one function from the pool before to the result and the
  pool after; results are \<open>Ok\<close>, \<open>Fail\<close> or \<open>Panic\<close> (a nil dereference). Concurrency is the
  order in which calls take the lock: properties of runs quantify over all sequences of events,
  in which outcomes arrive late, twice, or not at all. The clock is an argument of each call
  and does not go back along a run. Counters are 64-bit words and wrap. The file store
  carries the answers of the operating system to its future saves as data: which system call
  of a save fails, and how much a call that fails has done. A save acts with them on the
  bytes and the mode of the temporary file and on the directory, both as the running system
  shows them and as the disk has them; \<open>power_failure\<close> leaves what the disk has.

  \<^bold>\<open>What the lemmas show.\<close> \<open>Zen_Choose\<close> and \<open>Zen_Pool_Facts\<close> give the frame lemmas, the
  well-formedness every operation keeps and the cases of \<open>Pick\<close> and \<open>Observe\<close>;
  \<open>Zen_Pool_Props\<close>, \<open>Zen_Failure_Props\<close> and \<open>Zen_Manage_Props\<close> the properties of single operations and
  of all runs of the pool: no panic, only eligible accounts are handed out, one exhaustion
  moves the pool on once, the current account is given up for a listed cause only, failures
  block the right account for the right time, and everything fails closed.
  \<open>Classifier_Facts\<close> and \<open>Classifier_Props\<close> bound every deadline and compare the probing of
  signals with its reference, the latest valid signal. \<open>Zen_Codec\<close> has the round trip of the state text, up to the limit of 10000 keys
  that only the reader checks, for states that are sound: IDs that are fingerprints and texts
  that are valid UTF-8. What is read is sound, and \<open>Zen_Sound\<close> shows that every operation
  keeps it so, as long as configurations name accounts by fingerprints, which those that are
  read do (\<open>config_ok_named\<close> in \<open>Zen_Config_Props\<close>). \<open>Zen_Durable\<close> and \<open>Zen_Store_Props\<close> have
  the contract of the stores (locales \<open>time_codec\<close>, \<open>state_store\<close> and \<open>durable_store\<close>,
  interpreted on the code's stores), and from that what survives a restart or a power failure.
  \<open>Zen_Yaml_Facts\<close> and \<open>Zen_Yaml_Props\<close> compare the walk with the unfolding of the graph into
  a tree; \<open>Zen_Config_Facts\<close> and \<open>Zen_Config_Props\<close> carry an invariant
  through the reader, so that accepted configurations are well formed and the auth IDs
  unambiguous (locale \<open>digest\<close>, interpreted on SHA-256). \<open>Zen_Dispatch_Facts\<close> and
  \<open>Zen_Dispatch_Props\<close> show that the plugin refines the pool's state machine, so that its
  properties hold at the C interface, and what registration, refusal and shutdown mean;
  \<open>Go_Json_Escape\<close>, \<open>Zen_Answers\<close> and \<open>Zen_Answers_Props\<close> that every answer can be read.

  \<^bold>\<open>Bounds and fuel.\<close> The readers of JSON and regular expressions recurse with fuel bounded
  by the length of their input; the round-trip lemmas show it is enough for everything the
  plugin writes, and running out would be an error value, not a wrong one. The walk over
  YAML terminates by its bound on the depth (64). \<open>float64\<close> is modelled exactly, with
  rounding to nearest even; the header Retry-After is computed with it.

  \<^bold>\<open>Parameters.\<close> Code that is not in the repository or not written out: the parsers of HTTP and
  RFC 3339 dates in headers and the lower-case tables outside ASCII (\<open>golib\<close>), the codec of
  instants (\<open>timelib\<close>, with the instance \<open>utc_times\<close>), libyaml (\<open>yamllib\<close>), \<open>url.Parse\<close>, SHA-256
  where only its length matters, the files, environment and working directory of the host,
  and the order in which loops visit maps (\<open>confighost\<close>, \<open>environment\<close>).

  \<^bold>\<open>Not modelled.\<close> The C glue (\<open>src/abi.c\<close>, \<open>src/abi.h\<close>), allocation failures and the memory of
  libyaml's documents; temporary files that are left behind, which no operation looks at;
  what another process does to the directory; that the directory is free again after \<open>Close\<close> (a plugin that registers again is given the directory by its
  environment); preemption inside a critical section, of which there is none to see;
  \<open>pool.String\<close>; tests, patches and scripts.
\<close>

end
